(* ===== verification/Boilerr_Prelude.thy ===== *)
theory Boilerr_Prelude
  imports Main "HOL-Library.Word" "HOL-Library.AList" "HOL-Library.Multiset"
begin

text \<open>
  The vocabulary the other theories share: Go's scalar types and strings, the decimal and quoted
  renderings of \<^verbatim>\<open>fmt\<close>, Go maps as association lists with an explicit iteration order, Go
  errors, and the lemmas and fact collections the component theories build on.

  A Go string is a \<^typ>\<open>string\<close>, one \<^typ>\<open>char\<close> per byte.  A Go \<^verbatim>\<open>int32\<close> is a 32-bit word read
  with \<^const>\<open>sint\<close>.  A nil slice and an empty slice are both \<open>[]\<close>; a nil pointer is \<^const>\<open>None\<close>.
\<close>

named_theorems go_simps \<open>unfolding rules of the Go run-time vocabulary\<close>

named_theorems wf_intros \<open>introduction rules for well-formedness\<close>

type_synonym int32 = "32 word"

section \<open>Strings\<close>

definition is_ascii :: "char \<Rightarrow> bool" where
  "is_ascii c \<longleftrightarrow> of_char c < (128 :: nat)"

definition is_lower :: "char \<Rightarrow> bool" where
  "is_lower c \<longleftrightarrow> 97 \<le> (of_char c :: nat) \<and> of_char c \<le> (122 :: nat)"

definition is_upper :: "char \<Rightarrow> bool" where
  "is_upper c \<longleftrightarrow> 65 \<le> (of_char c :: nat) \<and> of_char c \<le> (90 :: nat)"

definition is_digit :: "char \<Rightarrow> bool" where
  "is_digit c \<longleftrightarrow> 48 \<le> (of_char c :: nat) \<and> of_char c \<le> (57 :: nat)"

definition is_alnum :: "char \<Rightarrow> bool" where
  "is_alnum c \<longleftrightarrow> is_lower c \<or> is_upper c \<or> is_digit c \<or> c = CHR ''_''"

definition is_space :: "char \<Rightarrow> bool" where
  "is_space c \<longleftrightarrow> c \<in> {CHR '' '', CHR 0x09, CHR 0x0D, CHR 0x0A}"

definition ascii_upper :: "char \<Rightarrow> char" where
  "ascii_upper c = (if is_lower c then char_of (of_char c - (32 :: nat)) else c)"

text \<open>\<open>strings.ReplaceAll\<close> for a one-byte pattern and a one-byte replacement.\<close>

definition replace_char :: "char \<Rightarrow> char \<Rightarrow> string \<Rightarrow> string" where
  "replace_char a b s = map (\<lambda>c. if c = a then b else c) s"

section \<open>Decimal numbers: \<open>%d\<close>\<close>

definition digit_char :: "nat \<Rightarrow> char" where
  "digit_char d = char_of (48 + d)"

fun dec_nat :: "nat \<Rightarrow> string" where
  "dec_nat n = (if n < 10 then [digit_char n] else dec_nat (n div 10) @ [digit_char (n mod 10)])"

declare dec_nat.simps [simp del]

definition dec_int :: "int \<Rightarrow> string" where
  "dec_int i = (if i < 0 then CHR ''-'' # dec_nat (nat (- i)) else dec_nat (nat i))"

definition dec_int32 :: "int32 \<Rightarrow> string" where
  "dec_int32 w = dec_int (sint w)"

fun undec_nat :: "string \<Rightarrow> nat" where
  "undec_nat s = foldl (\<lambda>n c. 10 * n + (of_char c - 48)) 0 s"

lemma of_char_digit_char: "d < 10 \<Longrightarrow> of_char (digit_char d) = 48 + d"
  by (simp add: digit_char_def)

lemma undec_dec_nat [simp]: "undec_nat (dec_nat n) = n"
proof (induction n rule: dec_nat.induct)
  case (1 n)
  then show ?case
    by (cases "n < 10") (simp_all add: dec_nat.simps [of n] of_char_digit_char)
qed

lemma dec_nat_inject [simp]: "dec_nat m = dec_nat n \<longleftrightarrow> m = n"
  by (metis undec_dec_nat)

lemma dec_nat_digits: "c \<in> set (dec_nat n) \<Longrightarrow> is_digit c"
proof (induction n rule: dec_nat.induct)
  case (1 n)
  then show ?case
    by (cases "n < 10")
      (auto simp: dec_nat.simps [of n] is_digit_def of_char_digit_char)
qed

lemma dec_nat_not_Nil [simp]: "dec_nat n \<noteq> []"
  by (subst dec_nat.simps) simp

lemma dec_nat_not_minus: "dec_nat n \<noteq> CHR ''-'' # s"
proof
  assume "dec_nat n = CHR ''-'' # s"
  then have "is_digit (CHR ''-'')"
    by (metis dec_nat_digits list.set_intros(1))
  then show False by (simp add: is_digit_def)
qed

lemma dec_int_inject [simp]: "dec_int i = dec_int j \<longleftrightarrow> i = j"
  by (auto simp: dec_int_def dec_nat_not_minus dec_nat_not_minus [symmetric] split: if_splits)

lemma dec_int32_inject [simp]: "dec_int32 v = dec_int32 w \<longleftrightarrow> v = w"
  by (auto simp: dec_int32_def dest: signed_word_eqI)

section \<open>Quoted strings: \<open>%q\<close>, and \<open>%v\<close> of a string slice\<close>

definition hex_digit :: "nat \<Rightarrow> char" where
  "hex_digit d = (if d < 10 then char_of (48 + d) else char_of (87 + d))"

definition quote_char :: "char \<Rightarrow> string" where
  "quote_char c =
     (if c = CHR 0x22 then [CHR 0x5C, CHR 0x22]
      else if c = CHR 0x5C then [CHR 0x5C, CHR 0x5C]
      else if c = CHR 0x07 then [CHR 0x5C, CHR ''a'']
      else if c = CHR 0x08 then [CHR 0x5C, CHR ''b'']
      else if c = CHR 0x0C then [CHR 0x5C, CHR ''f'']
      else if c = CHR 0x0A then [CHR 0x5C, CHR ''n'']
      else if c = CHR 0x0D then [CHR 0x5C, CHR ''r'']
      else if c = CHR 0x09 then [CHR 0x5C, CHR ''t'']
      else if c = CHR 0x0B then [CHR 0x5C, CHR ''v'']
      else if (of_char c :: nat) < 32 \<or> (of_char c :: nat) = 127
        then [CHR 0x5C, CHR ''x'', hex_digit (of_char c div 16), hex_digit (of_char c mod 16)]
      else [c])"

fun join_with :: "string \<Rightarrow> string list \<Rightarrow> string" where
  "join_with sep [] = []"
| "join_with sep [x] = x"
| "join_with sep (x # xs) = x @ sep @ join_with sep xs"

definition show_strings :: "string list \<Rightarrow> string" where
  "show_strings xs = ''['' @ join_with '' '' xs @ '']''"

section \<open>Go maps\<close>

text \<open>
  A Go map with string keys is an association list with distinct keys.  \<open>m[k]\<close> gives the zero
  value for a missing key; \<open>range\<close> visits every key once, in an order the language leaves open
  and that may differ from one loop to the next.  The order is a parameter of the model: an
  iteration oracle rearranges the keys, one rearrangement per loop of the source.
\<close>

type_synonym 'v gomap = "(string \<times> 'v) list"

definition go_keys :: "'v gomap \<Rightarrow> string list" where
  "go_keys m = map fst m"

definition wf_map :: "'v gomap \<Rightarrow> bool" where
  "wf_map m \<longleftrightarrow> distinct (go_keys m)"

definition go_index :: "'v \<Rightarrow> 'v gomap \<Rightarrow> string \<Rightarrow> 'v" where
  "go_index zero m k = (case map_of m k of None \<Rightarrow> zero | Some v \<Rightarrow> v)"

datatype range_loop =
    RangeRequired | RangeUnknown | RangeEnum | RangeDefaults | RangeConfig | RangeSchema |
    RangeCopyConfig | RangeCopySchema

type_synonym range_order = "range_loop \<Rightarrow> string list \<Rightarrow> string list"

definition permuting :: "range_order \<Rightarrow> bool" where
  "permuting it \<longleftrightarrow> (\<forall>l ks. mset (it l ks) = mset ks)"

lemma permuting_set: "permuting it \<Longrightarrow> set (it l ks) = set ks"
  by (metis permuting_def set_mset_mset)

lemma permuting_distinct: "permuting it \<Longrightarrow> distinct (it l ks) = distinct ks"
  by (metis permuting_def mset_eq_imp_distinct_iff)

lemma permuting_mset: "permuting it \<Longrightarrow> mset (it l ks) = mset ks"
  by (simp add: permuting_def)

lemma permuting_id: "permuting (\<lambda>_ ks. ks)"
  by (simp add: permuting_def)

lemma permuting_rev: "permuting (\<lambda>_. rev)"
  by (simp add: permuting_def)

lemma set_go_keys: "set (go_keys m) = dom (map_of m)"
  by (simp add: go_keys_def dom_map_of_conv_image_fst)

lemma in_go_keys_iff: "k \<in> set (go_keys m) \<longleftrightarrow> (\<exists>v. map_of m k = Some v)"
  by (auto simp: set_go_keys)

lemma go_index_Some [simp]: "map_of m k = Some v \<Longrightarrow> go_index z m k = v"
  by (simp add: go_index_def)

lemma wf_map_map_of: "wf_map m \<Longrightarrow> (k, v) \<in> set m \<longleftrightarrow> map_of m k = Some v"
  by (auto simp: wf_map_def go_keys_def map_of_is_SomeI dest: map_of_SomeD)

lemma wf_map_update [wf_intros]: "wf_map m \<Longrightarrow> wf_map (AList.update k v m)"
  by (simp add: wf_map_def go_keys_def distinct_update)

section \<open>Go errors\<close>

text \<open>
  An error value carries its text; the only thing the program asks of one beside its text is
  whether \<open>apierrors.IsNotFound\<close> recognises it.
\<close>

datatype go_error = PlainError string | NotFoundError string

fun err_text :: "go_error \<Rightarrow> string" where
  "err_text (PlainError s) = s"
| "err_text (NotFoundError s) = s"

fun IsNotFound :: "go_error \<Rightarrow> bool" where
  "IsNotFound (NotFoundError _) = True"
| "IsNotFound (PlainError _) = False"

definition IgnoreNotFound :: "go_error \<Rightarrow> go_error option" where
  "IgnoreNotFound e = (if IsNotFound e then None else Some e)"

section \<open>Lists searched for a first error\<close>

text \<open>
  A loop that returns the first error it meets: the result is \<^const>\<open>None\<close> exactly when no
  element has an error, whatever the order of the elements.
\<close>

fun first_error :: "('a \<Rightarrow> 'e option) \<Rightarrow> 'a list \<Rightarrow> 'e option" where
  "first_error f [] = None"
| "first_error f (x # xs) = (case f x of Some e \<Rightarrow> Some e | None \<Rightarrow> first_error f xs)"

lemma first_error_None: "first_error f xs = None \<longleftrightarrow> (\<forall>x\<in>set xs. f x = None)"
  by (induction xs) (auto split: option.splits)

lemma first_error_Some: "first_error f xs = Some e \<Longrightarrow> \<exists>x\<in>set xs. f x = Some e"
  by (induction xs) (auto split: option.splits)

lemma first_error_ex: "x \<in> set xs \<Longrightarrow> f x = Some e \<Longrightarrow> \<exists>e'. first_error f xs = Some e'"
  by (metis first_error_None not_None_eq option.simps(3))

lemma first_error_set_cong:
  "set xs = set ys \<Longrightarrow> first_error f xs = None \<longleftrightarrow> first_error f ys = None"
  by (simp add: first_error_None)

lemma first_error_enumerate:
  assumes "\<And>i x. f (i, x) = None \<longleftrightarrow> P x"
  shows "first_error f (List.enumerate n xs) = None \<longleftrightarrow> list_all P xs"
proof (induction xs arbitrary: n)
  case Nil
  then show ?case by simp
next
  case (Cons x xs)
  then show ?case
    using assms [of n x] by (cases "f (n, x)") auto
qed

end
