(* ===== verification/Go_Template.thy ===== *)
theory Go_Template
  imports Boilerr_Prelude
begin

text \<open>
  The part of Go's \<^verbatim>\<open>text/template\<close> the program relies on: literal text and field actions
  \<^verbatim>\<open>{{.Config.key}}\<close> over the data \<^verbatim>\<open>TemplateData{Config: map[string]string}\<close>.  The parser reads a
  template from left to right as the library does and has three outcomes: a list of nodes, a
  parse error, or \<open>Outside\<close> for a template that uses any other construct (pipelines, control
  structures, comments, trim markers, \<^verbatim>\<open>{{.}}\<close>, \<^verbatim>\<open>{{.Config}}\<close>, non-ASCII names).  What the
  library does with a template of the last kind is a parameter of the model.
\<close>

section \<open>Templates\<close>

datatype node = TextNode string | FieldNode "string list"

datatype parse_result = Parsed "node list" | ParseError | Outside

datatype action_result = ActField "string list" string | ActError | ActOutside

datatype template_error = TemplateParseError | TemplateExecError

section \<open>Parsing\<close>

text \<open>The text before the first \<^verbatim>\<open>{{\<close>, and what follows that delimiter if there is one.\<close>

fun lex_text :: "string \<Rightarrow> string \<times> string option" where
  "lex_text [] = ([], None)"
| "lex_text [c] = ([c], None)"
| "lex_text (c # d # s) =
     (if c = CHR ''{'' \<and> d = CHR ''{'' then ([], Some s)
      else (case lex_text (d # s) of (t, r) \<Rightarrow> (c # t, r)))"

fun right_delim :: "string \<Rightarrow> string option" where
  "right_delim (c # d # s) = (if c = CHR ''}'' \<and> d = CHR ''}'' then Some s else None)"
| "right_delim _ = None"

text \<open>The lexer's \<open>atTerminator\<close>: what may follow a field name.\<close>

definition at_terminator :: "string \<Rightarrow> bool" where
  "at_terminator s =
     (case s of [] \<Rightarrow> True
      | c # _ \<Rightarrow> is_space c \<or> c \<in> {CHR ''.'', CHR '','', CHR ''|'', CHR '':'', CHR '')'', CHR ''(''}
                 \<or> right_delim s \<noteq> None)"

text \<open>A chain of field names, each a dot and an identifier that does not start with a digit.\<close>

function parse_fields :: "string \<Rightarrow> string list \<times> string" where
  "parse_fields s =
     (case s of [] \<Rightarrow> ([], s)
      | c # r \<Rightarrow>
          (let w = takeWhile is_alnum r in
           if c \<noteq> CHR ''.'' \<or> w = [] \<or> is_digit (hd w) then ([], s)
           else (case parse_fields (dropWhile is_alnum r) of (fs, t) \<Rightarrow> (w # fs, t))))"
  by pat_completeness auto
termination
  by (relation "measure length") (auto simp: le_imp_less_Suc length_dropWhile_le)

declare parse_fields.simps [simp del]

text \<open>One action, read from just after its \<^verbatim>\<open>{{\<close>.\<close>

definition parse_action :: "string \<Rightarrow> action_result" where
  "parse_action s =
     (let s1 = dropWhile is_space s in
      case s1 of
        [] \<Rightarrow> ActError
      | c # _ \<Rightarrow>
          if right_delim s1 \<noteq> None then ActError
          else if c \<noteq> CHR ''.'' then ActOutside
          else (case parse_fields s1 of (fs, r) \<Rightarrow>
            if fs = [] then ActOutside
            else if r = [] then ActError
            else if \<not> at_terminator r then (if is_ascii (hd r) then ActError else ActOutside)
            else (let r1 = dropWhile is_space r in
              if r1 = [] then ActError
              else (case right_delim r1 of
                      None \<Rightarrow> ActOutside
                    | Some t \<Rightarrow> if fs = [''Config''] then ActOutside else ActField fs t))))"

definition text_node :: "string \<Rightarrow> node list" where
  "text_node t = (if t = [] then [] else [TextNode t])"

lemma right_delim_length: "right_delim s = Some t \<Longrightarrow> length t < length s"
  by (induction s rule: right_delim.induct) (auto split: if_splits)

lemma parse_fields_length: "parse_fields s = (fs, t) \<Longrightarrow> length t \<le> length s"
proof (induction s arbitrary: fs t rule: parse_fields.induct)
  case (1 s)
  show ?case
  proof (cases s)
    case Nil
    with "1.prems" show ?thesis by (simp add: parse_fields.simps [of "[]"])
  next
    case (Cons c r)
    let ?w = "takeWhile is_alnum r"
    show ?thesis
    proof (cases "c \<noteq> CHR ''.'' \<or> ?w = [] \<or> is_digit (hd ?w)")
      case True
      with "1.prems" Cons show ?thesis by (auto simp: parse_fields.simps [of "c # r"] Let_def split: if_splits)
    next
      case False
      obtain gs u where rec: "parse_fields (dropWhile is_alnum r) = (gs, u)"
        by fastforce
      from False Cons rec have "length u \<le> length (dropWhile is_alnum r)"
        by (intro "1.IH") auto
      with "1.prems" Cons False rec show ?thesis
        using length_dropWhile_le [of is_alnum r]
        by (auto simp: parse_fields.simps [of "c # r"] Let_def split: if_splits)
    qed
  qed
qed

lemma parse_action_length: "parse_action s = ActField fs t \<Longrightarrow> length t < length s"
  unfolding parse_action_def Let_def
  by (auto split: list.splits prod.splits if_splits option.splits
        dest!: right_delim_length parse_fields_length)
     (metis (no_types, opaque_lifting) length_Cons length_dropWhile_le less_le_trans order.trans)

lemma lex_text_length: "lex_text s = (t, Some r) \<Longrightarrow> length r < length s"
  by (induction s arbitrary: t rule: lex_text.induct) (auto split: if_splits prod.splits)

function parse_template :: "string \<Rightarrow> parse_result" where
  "parse_template s =
     (case lex_text s of
        (t, None) \<Rightarrow> Parsed (text_node t)
      | (t, Some r) \<Rightarrow>
          (case parse_action r of
             ActError \<Rightarrow> ParseError
           | ActOutside \<Rightarrow> Outside
           | ActField fs u \<Rightarrow>
               (case parse_template u of
                  Parsed ns \<Rightarrow> Parsed (text_node t @ FieldNode fs # ns)
                | other \<Rightarrow> other)))"
  by pat_completeness auto
termination
  by (relation "measure length") (auto dest!: parse_action_length lex_text_length[OF sym])

declare parse_template.simps [simp del]

section \<open>Execution\<close>

text \<open>
  The data is a struct whose only field is the map \<^verbatim>\<open>Config\<close>.  A missing key is the invalid value,
  which prints as \<^verbatim>\<open><no value>\<close>; a further field of it stays invalid, while a further field of a
  string, like any other field of the struct, is an execution error.
\<close>

definition no_value :: string where
  "no_value = ''<no value>''"

fun exec_field :: "string list \<Rightarrow> (string \<rightharpoonup> string) \<Rightarrow> string option" where
  "exec_field (f # k # ks) cfg =
     (if f \<noteq> ''Config'' then None
      else (case cfg k of
              None \<Rightarrow> Some no_value
            | Some v \<Rightarrow> if ks = [] then Some v else None))"
| "exec_field _ cfg = None"

fun exec_nodes :: "node list \<Rightarrow> (string \<rightharpoonup> string) \<Rightarrow> string option" where
  "exec_nodes [] cfg = Some []"
| "exec_nodes (TextNode t # ns) cfg = map_option ((@) t) (exec_nodes ns cfg)"
| "exec_nodes (FieldNode fs # ns) cfg =
     (case exec_field fs cfg of
        None \<Rightarrow> None
      | Some v \<Rightarrow> map_option ((@) v) (exec_nodes ns cfg))"

text \<open>\<open>template.New(..).Parse(s)\<close> followed by \<open>Execute\<close> into a buffer.\<close>

type_synonym template_lib = "string \<Rightarrow> (string \<rightharpoonup> string) \<Rightarrow> template_error + string"

definition run_template ::
  "template_lib \<Rightarrow> string \<Rightarrow> (string \<rightharpoonup> string) \<Rightarrow> template_error + string" where
  "run_template rest s cfg =
     (case parse_template s of
        ParseError \<Rightarrow> Inl TemplateParseError
      | Outside \<Rightarrow> rest s cfg
      | Parsed ns \<Rightarrow>
          (case exec_nodes ns cfg of
             None \<Rightarrow> Inl TemplateExecError
           | Some out \<Rightarrow> Inr out))"

section \<open>Printing, and what the parser makes of printed templates\<close>

fun has_open :: "string \<Rightarrow> bool" where
  "has_open (c # d # s) = (c = CHR ''{'' \<and> d = CHR ''{'' \<or> has_open (d # s))"
| "has_open _ = False"

definition wf_field :: "string list \<Rightarrow> bool" where
  "wf_field fs \<longleftrightarrow> fs \<noteq> [] \<and> fs \<noteq> [''Config''] \<and>
     list_all (\<lambda>w. w \<noteq> [] \<and> list_all is_alnum w \<and> \<not> is_digit (hd w)) fs"

fun wf_nodes :: "node list \<Rightarrow> bool" where
  "wf_nodes [] = True"
| "wf_nodes (FieldNode fs # ns) = (wf_field fs \<and> wf_nodes ns)"
| "wf_nodes [TextNode t] = (t \<noteq> [] \<and> \<not> has_open t)"
| "wf_nodes (TextNode t # FieldNode fs # ns) =
     (t \<noteq> [] \<and> \<not> has_open t \<and> last t \<noteq> CHR ''{'' \<and> wf_field fs \<and> wf_nodes ns)"
| "wf_nodes (TextNode t # TextNode u # ns) = False"

definition print_fields :: "string list \<Rightarrow> string" where
  "print_fields fs = concat (map ((#) (CHR ''.'')) fs)"

fun print_node :: "node \<Rightarrow> string" where
  "print_node (TextNode t) = t"
| "print_node (FieldNode fs) = ''{{'' @ print_fields fs @ ''}}''"

definition print_template :: "node list \<Rightarrow> string" where
  "print_template ns = concat (map print_node ns)"

lemma lex_text_plain: "\<not> has_open s \<Longrightarrow> lex_text s = (s, None)"
  by (induction s rule: lex_text.induct) auto

lemma lex_text_open:
  "\<not> has_open t \<Longrightarrow> t = [] \<or> last t \<noteq> CHR ''{'' \<Longrightarrow>
   lex_text (t @ CHR ''{'' # CHR ''{'' # r) = (t, Some r)"
  by (induction t rule: lex_text.induct) auto

lemma takeWhile_stop: "list_all P xs \<Longrightarrow> \<not> P y \<Longrightarrow> takeWhile P (xs @ y # ys) = xs"
  by (induction xs) auto

lemma dropWhile_stop: "list_all P xs \<Longrightarrow> \<not> P y \<Longrightarrow> dropWhile P (xs @ y # ys) = y # ys"
  by (induction xs) auto

lemma not_alnum [simp]: "\<not> is_alnum (CHR ''.'')" "\<not> is_alnum (CHR ''}'')"
  by (simp_all add: is_alnum_def is_lower_def is_upper_def is_digit_def)

lemma not_space [simp]: "\<not> is_space (CHR ''.'')" "\<not> is_space (CHR ''}'')"
  by (simp_all add: is_space_def)

lemma print_fields_head:
  "\<exists>y ys. print_fields fs @ CHR ''}'' # r = y # ys \<and> \<not> is_alnum y"
  by (cases fs) (auto simp: print_fields_def)

lemma parse_fields_print:
  "list_all (\<lambda>w. w \<noteq> [] \<and> list_all is_alnum w \<and> \<not> is_digit (hd w)) fs \<Longrightarrow>
   parse_fields (print_fields fs @ CHR ''}'' # r) = (fs, CHR ''}'' # r)"
proof (induction fs)
  case Nil
  then show ?case by (subst parse_fields.simps) (simp add: print_fields_def)
next
  case (Cons w fs)
  obtain y ys where tl: "print_fields fs @ CHR ''}'' # r = y # ys" and y: "\<not> is_alnum y"
    using print_fields_head by blast
  have eq: "print_fields (w # fs) @ CHR ''}'' # r = CHR ''.'' # (w @ y # ys)"
    using tl by (simp add: print_fields_def)
  have "parse_fields (y # ys) = (fs, CHR ''}'' # r)"
    using Cons tl by simp
  with Cons.prems y show ?case
    unfolding eq by (subst parse_fields.simps) (simp add: takeWhile_stop dropWhile_stop)
qed

lemma parse_action_print:
  assumes "wf_field fs"
  shows "parse_action (print_fields fs @ CHR ''}'' # CHR ''}'' # r) = ActField fs r"
proof -
  let ?s = "print_fields fs @ CHR ''}'' # CHR ''}'' # r"
  obtain t where t: "?s = CHR ''.'' # t"
    using assms by (cases fs) (auto simp: wf_field_def print_fields_def)
  have fields: "parse_fields ?s = (fs, CHR ''}'' # CHR ''}'' # r)"
    using assms by (intro parse_fields_print) (simp add: wf_field_def)
  have "right_delim (CHR ''.'' # t) = None"
    by (cases t) auto
  with fields assms show ?thesis
    unfolding parse_action_def t
    by (simp add: wf_field_def at_terminator_def)
qed

lemmas parse_template_step =
  parse_template.simps [of "t @ CHR ''{'' # CHR ''{'' # r" for t r]

lemma parse_template_plain:
  "\<not> has_open s \<Longrightarrow> parse_template s = Parsed (text_node s)"
  by (subst parse_template.simps) (simp add: lex_text_plain)

lemma parse_template_field:
  assumes "\<not> has_open t" and "t = [] \<or> last t \<noteq> CHR ''{''" and "wf_field fs"
    and "parse_template r = Parsed ns"
  shows "parse_template (t @ print_node (FieldNode fs) @ r) = Parsed (text_node t @ FieldNode fs # ns)"
  using assms
  by (simp add: parse_template_step lex_text_open parse_action_print)

lemma parse_print_template:
  "wf_nodes ns \<Longrightarrow> parse_template (print_template ns) = Parsed ns"
proof (induction ns rule: wf_nodes.induct)
  case 1
  then show ?case by (simp add: print_template_def parse_template_plain text_node_def)
next
  case (2 fs ns)
  then show ?case
    using parse_template_field [of "[]" fs "print_template ns" ns]
    by (simp add: print_template_def text_node_def)
next
  case (3 t)
  then show ?case by (simp add: print_template_def parse_template_plain text_node_def)
next
  case (4 t fs ns)
  then show ?case
    using parse_template_field [of t fs "print_template ns" ns]
    by (simp add: print_template_def text_node_def)
next
  case (5 t u ns)
  then show ?case by simp
qed

lemma run_template_plain: "\<not> has_open s \<Longrightarrow> run_template rest s cfg = Inr s"
  by (simp add: run_template_def parse_template_plain text_node_def)

lemma run_template_nodes:
  "wf_nodes ns \<Longrightarrow> run_template rest (print_template ns) cfg =
     (case exec_nodes ns cfg of None \<Rightarrow> Inl TemplateExecError | Some out \<Rightarrow> Inr out)"
  by (simp add: run_template_def parse_print_template)

end
