(* ===== verification/Kube_Types.thy ===== *)
theory Kube_Types
  imports Go_Template
begin

text \<open>
  The Kubernetes objects the program reads and writes, with the members it reads or sets (from
  \<^verbatim>\<open>k8s.io/api\<close> and \<^verbatim>\<open>k8s.io/apimachinery\<close>), and the library functions whose code is not part
  of the repository, collected in the record \<open>golib\<close>.  Members the program only carries along are
  kept as opaque strings named \<open>..._rest\<close>.
\<close>

section \<open>Metadata\<close>

text \<open>A namespaced name; cluster-scoped objects have the empty namespace.\<close>

datatype object_key = ObjectKey (key_namespace: string) (key_name: string)

record owner_reference =
  or_name :: string
  or_uid :: string
  or_controller :: bool

text \<open>
  \<open>om_deletionTimestamp\<close> is \<^const>\<open>None\<close> for a nil or zero time.
\<close>

record object_meta =
  om_name :: string
  om_namespace :: string
  om_uid :: string
  om_labels :: "string gomap"
  om_finalizers :: "string list"
  om_deletionTimestamp :: "nat option"
  om_owners :: "owner_reference list"

definition meta_key :: "object_meta \<Rightarrow> object_key" where
  "meta_key m = ObjectKey (om_namespace m) (om_name m)"

definition new_meta :: "string \<Rightarrow> string \<Rightarrow> string gomap \<Rightarrow> object_meta" where
  "new_meta name ns labels =
     \<lparr>om_name = name, om_namespace = ns, om_uid = [], om_labels = labels,
      om_finalizers = [], om_deletionTimestamp = None, om_owners = []\<rparr>"

lemma meta_key_new [simp]: "meta_key (new_meta n ns ls) = ObjectKey ns n"
  by (simp add: meta_key_def new_meta_def)

lemma new_meta_simps [simp]:
  "om_name (new_meta n ns ls) = n" "om_namespace (new_meta n ns ls) = ns"
  "om_labels (new_meta n ns ls) = ls" "om_finalizers (new_meta n ns ls) = []"
  "om_owners (new_meta n ns ls) = []" "om_deletionTimestamp (new_meta n ns ls) = None"
  by (simp_all add: new_meta_def)

section \<open>Quantities and resource requirements\<close>

text \<open>
  A \<open>resource.Quantity\<close>: a fixed-point number, here in the library's smallest unit, and its
  notation.  The program passes quantities along; parsing and the zero test are library calls.
\<close>

datatype quantity_format = NoFormat | DecimalExponent | BinarySI | DecimalSI

record quantity =
  q_nano :: int
  q_format :: quantity_format

definition zero_quantity :: quantity where
  "zero_quantity = \<lparr>q_nano = 0, q_format = NoFormat\<rparr>"

record resource_requirements =
  rr_limits :: "quantity gomap"
  rr_requests :: "quantity gomap"

definition no_resources :: resource_requirements where
  "no_resources = \<lparr>rr_limits = [], rr_requests = []\<rparr>"

section \<open>Pods\<close>

record secret_key_selector =
  sks_name :: string
  sks_key :: string
  sks_optional :: "bool option"

record env_var_source =
  evs_secretKeyRef :: "secret_key_selector option"
  evs_rest :: string

record env_var =
  env_name :: string
  env_value :: string
  env_valueFrom :: "env_var_source option"

record volume_mount =
  vm_name :: string
  vm_mountPath :: string
  vm_subPath :: string
  vm_readOnly :: bool

datatype volume_source = PersistentVolumeClaimSource string | ConfigMapSource string

record volume =
  vol_name :: string
  vol_source :: volume_source

record container_port =
  cp_name :: string
  cp_containerPort :: int32
  cp_protocol :: string

record container =
  ctr_name :: string
  ctr_image :: string
  ctr_command :: "string list"
  ctr_args :: "string list"
  ctr_ports :: "container_port list"
  ctr_env :: "env_var list"
  ctr_resources :: resource_requirements
  ctr_volumeMounts :: "volume_mount list"

record pod_spec =
  ps_initContainers :: "container list"
  ps_containers :: "container list"
  ps_volumes :: "volume list"

text \<open>\<open>State.Running != nil\<close>, and the exit code of \<open>State.Terminated\<close> if that is not nil.\<close>

record container_status =
  cs_name :: string
  cs_ready :: bool
  cs_running :: bool
  cs_terminated :: "int32 option"

record pod =
  pod_phase :: string
  pod_initContainerStatuses :: "container_status list"
  pod_containerStatuses :: "container_status list"

section \<open>Child resources\<close>

record stateful_set_spec =
  sts_replicas :: "int32 option"
  sts_serviceName :: string
  sts_selector :: "string gomap"
  sts_templateLabels :: "string gomap"
  sts_podSpec :: pod_spec

record stateful_set =
  sts_meta :: object_meta
  sts_spec :: stateful_set_spec
  sts_statusReplicas :: int32
  sts_readyReplicas :: int32

record service_port =
  sp_name :: string
  sp_port :: int32
  sp_targetPort :: int32
  sp_nodePort :: int32
  sp_protocol :: string

record ingress =
  ing_ip :: string
  ing_hostname :: string

record service =
  svc_meta :: object_meta
  svc_type :: string
  svc_selector :: "string gomap"
  svc_ports :: "service_port list"
  svc_clusterIP :: string
  svc_ingress :: "ingress list"

record persistent_volume_claim =
  pvc_meta :: object_meta
  pvc_accessModes :: "string list"
  pvc_requests :: "quantity gomap"
  pvc_storageClassName :: "string option"

record config_map =
  cm_meta :: object_meta
  cm_data :: "string gomap"

abbreviation "ServiceTypeLoadBalancer \<equiv> ''LoadBalancer''"
abbreviation "ServiceTypeNodePort \<equiv> ''NodePort''"
abbreviation "ServiceTypeClusterIP \<equiv> ''ClusterIP''"
abbreviation "ProtocolUDP \<equiv> ''UDP''"
abbreviation "ReadWriteOnce \<equiv> ''ReadWriteOnce''"
abbreviation "ResourceStorage \<equiv> ''storage''"

section \<open>Library functions\<close>

text \<open>
  The library code the model does not define.  \<open>unicode_upper\<close> and \<open>unicode_quote\<close> are
  \<open>strings.ToUpper\<close> and \<open>%q\<close> on strings with a non-ASCII byte (on ASCII strings they are defined
  below); \<open>template_rest\<close> is \<^verbatim>\<open>text/template\<close> on templates outside the fragment of
  \<^theory_text>\<open>Go_Template\<close>; \<open>ParseQuantity\<close> and \<open>IsZero\<close> are those of \<open>resource.Quantity\<close>.
\<close>

record golib =
  unicode_upper :: "string \<Rightarrow> string"
  unicode_quote :: "string \<Rightarrow> string"
  template_rest :: template_lib
  ParseQuantity :: "string \<Rightarrow> go_error + quantity"
  IsZero :: "quantity \<Rightarrow> bool"

definition ToUpper :: "golib \<Rightarrow> string \<Rightarrow> string" where
  "ToUpper L s = (if list_all is_ascii s then map ascii_upper s else unicode_upper L s)"

definition quote :: "golib \<Rightarrow> string \<Rightarrow> string" where
  "quote L s =
     (if list_all is_ascii s then CHR 0x22 # concat (map quote_char s) @ [CHR 0x22]
      else unicode_quote L s)"

end
