(* ===== verification/Api_Types.thy ===== *)
theory Api_Types
  imports Kube_Types
begin

text \<open>
  The custom resources of \<^verbatim>\<open>api/v1alpha1\<close>: \<^verbatim>\<open>SteamServer\<close>, \<^verbatim>\<open>GameDefinition\<close> and the structs they
  are made of.  Record fields carry a prefix per struct; the order is the source's.
\<close>

section \<open>common_types.go\<close>

record server_port =
  port_name :: string
  port_containerPort :: int32
  port_servicePort :: int32
  port_protocol :: string

record config_file =
  cf_path :: string
  cf_content :: string

record storage_spec =
  storage_size :: quantity
  storage_className :: "string option"

record port_status =
  pst_name :: string
  pst_port :: int32
  pst_protocol :: string

record config_value =
  cv_value :: string
  cv_secretKeyRef :: "secret_key_selector option"

definition zero_config_value :: config_value where
  "zero_config_value = \<lparr>cv_value = [], cv_secretKeyRef = None\<rparr>"

section \<open>steamserver_types.go\<close>

text \<open>\<open>ServerState\<close> is a string type with five named values; the empty string is its zero value.\<close>

datatype server_state =
    ServerStateUnset
  | ServerStatePending
  | ServerStateInstalling
  | ServerStateStarting
  | ServerStateRunning
  | ServerStateError

record steam_server_spec =
  ss_gameDefinition :: string
  ss_config :: "config_value gomap"
  ss_appId :: "int32 option"
  ss_image :: string
  ss_ports :: "server_port list"
  ss_command :: "string list"
  ss_args :: "string list"
  ss_env :: "env_var list"
  ss_configFiles :: "config_file list"
  ss_storage :: "storage_spec option"
  ss_resources :: "resource_requirements option"
  ss_serviceType :: string
  ss_beta :: string
  ss_validate :: "bool option"
  ss_anonymous :: "bool option"
  ss_steamCredentialsSecret :: string

record steam_server_status =
  st_state :: server_state
  st_address :: string
  st_ports :: "port_status list"
  st_lastUpdated :: "nat option"
  st_appBuildId :: string
  st_message :: string
  st_conditions :: "string list"

record steam_server =
  server_meta :: object_meta
  server_spec :: steam_server_spec
  server_status :: steam_server_status

section \<open>gamedefinition_types.go\<close>

record config_mapping =
  map_type :: string
  map_value :: string
  map_condition :: string
  map_path :: string
  map_template :: string

record config_schema_entry =
  cse_description :: string
  cse_default :: string
  cse_required :: bool
  cse_secret :: bool
  cse_enum :: "string list"
  cse_array :: bool
  cse_mapTo :: "config_mapping option"

definition zero_schema_entry :: config_schema_entry where
  "zero_schema_entry =
     \<lparr>cse_description = [], cse_default = [], cse_required = False, cse_secret = False,
      cse_enum = [], cse_array = False, cse_mapTo = None\<rparr>"

record config_file_template =
  cft_path :: string
  cft_content :: string

record health_check_spec =
  hc_tcpSocket :: "string option"
  hc_initialDelaySeconds :: int32
  hc_periodSeconds :: int32

record game_definition_spec =
  gd_appId :: int32
  gd_image :: string
  gd_installDir :: string
  gd_command :: string
  gd_args :: "string list"
  gd_ports :: "server_port list"
  gd_env :: "env_var list"
  gd_configSchema :: "config_schema_entry gomap option"
  gd_configFiles :: "config_file_template list"
  gd_defaultResources :: resource_requirements
  gd_defaultStorage :: string
  gd_healthCheck :: "health_check_spec option"

record game_definition_status =
  gds_ready :: bool
  gds_message :: string
  gds_conditions :: "string list"

record game_definition =
  gamedef_meta :: object_meta
  gamedef_spec :: game_definition_spec
  gamedef_status :: game_definition_status

text \<open>
  \<open>Spec.ConfigSchema\<close> is the one map of the program whose nil value the code tells from the empty
  one; reading and ranging over a nil map behave as for an empty map.
\<close>

definition schema_of :: "game_definition \<Rightarrow> config_schema_entry gomap" where
  "schema_of g = (case gd_configSchema (gamedef_spec g) of None \<Rightarrow> [] | Some m \<Rightarrow> m)"

abbreviation server_name :: "steam_server \<Rightarrow> string" where
  "server_name s \<equiv> om_name (server_meta s)"

abbreviation server_namespace :: "steam_server \<Rightarrow> string" where
  "server_namespace s \<equiv> om_namespace (server_meta s)"

text \<open>The maps of an object that comes from the API server have distinct keys.\<close>

definition wf_server :: "steam_server \<Rightarrow> bool" where
  "wf_server s \<longleftrightarrow> wf_map (ss_config (server_spec s))"

definition wf_gamedef :: "game_definition \<Rightarrow> bool" where
  "wf_gamedef g \<longleftrightarrow> wf_map (schema_of g)"

end
