(* ===== verification/Config_Value_Json.thy ===== *)
theory Config_Value_Json
  imports Api_Types
begin

text \<open>
  \<open>ConfigValue.UnmarshalJSON\<close> of \<^verbatim>\<open>api/v1alpha1/common_types.go\<close>: a configuration value is written
  either as a plain JSON string or as an object with \<^verbatim>\<open>value\<close> and \<^verbatim>\<open>secretKeyRef\<close>.  The model takes
  the JSON value the bytes denote (\<^const>\<open>None\<close> for bytes that are not JSON) and follows
  \<^verbatim>\<open>encoding/json\<close>: null leaves its target unchanged, members are matched to struct fields by name
  without regard to case, unknown members are skipped, and a type mismatch is an error reported
  after the remaining members have been decoded.
\<close>

datatype json =
    JNull
  | JBool bool
  | JNumber string
  | JString string
  | JArray "json list"
  | JObject "(string \<times> json) list"

section \<open>Member names\<close>

text \<open>
  Names are compared after case folding.  Two non-ASCII code points fold to ASCII letters: U+017F
  (bytes C5 BF) to S and U+212A (bytes E2 84 AA) to K.
\<close>

fun fold_name :: "string \<Rightarrow> string" where
  "fold_name [] = []"
| "fold_name (c # s) =
     (if c = CHR 0xC5 \<and> take 1 s = [CHR 0xBF] then CHR ''S'' # fold_name (drop 1 s)
      else if c = CHR 0xE2 \<and> take 2 s = [CHR 0x84, CHR 0xAA] then CHR ''K'' # fold_name (drop 2 s)
      else ascii_upper c # fold_name s)"

definition names_field :: "string \<Rightarrow> string \<Rightarrow> bool" where
  "names_field k f \<longleftrightarrow> fold_name k = fold_name f"

section \<open>Decoding\<close>

text \<open>
  Each decoder takes the target's current value and gives the new value and whether a type
  mismatch was met.
\<close>

fun decode_string :: "json \<Rightarrow> string \<Rightarrow> string \<times> bool" where
  "decode_string (JString s) old = (s, False)"
| "decode_string JNull old = (old, False)"
| "decode_string _ old = (old, True)"

fun decode_bool_ptr :: "json \<Rightarrow> bool option \<Rightarrow> bool option \<times> bool" where
  "decode_bool_ptr (JBool b) old = (Some b, False)"
| "decode_bool_ptr JNull old = (None, False)"
| "decode_bool_ptr _ old = ((case old of None \<Rightarrow> Some False | Some b \<Rightarrow> Some b), True)"

definition zero_selector :: secret_key_selector where
  "zero_selector = \<lparr>sks_name = [], sks_key = [], sks_optional = None\<rparr>"

fun decode_selector_members ::
  "(string \<times> json) list \<Rightarrow> secret_key_selector \<Rightarrow> secret_key_selector \<times> bool" where
  "decode_selector_members [] sel = (sel, False)"
| "decode_selector_members ((k, j) # ms) sel =
     (let (sel', e) =
        (if names_field k ''name'' then
           (case decode_string j (sks_name sel) of (v, e) \<Rightarrow> (sel\<lparr>sks_name := v\<rparr>, e))
         else if names_field k ''key'' then
           (case decode_string j (sks_key sel) of (v, e) \<Rightarrow> (sel\<lparr>sks_key := v\<rparr>, e))
         else if names_field k ''optional'' then
           (case decode_bool_ptr j (sks_optional sel) of (v, e) \<Rightarrow> (sel\<lparr>sks_optional := v\<rparr>, e))
         else (sel, False));
        (sel'', e') = decode_selector_members ms sel'
      in (sel'', e \<or> e'))"

fun decode_selector_ptr ::
  "json \<Rightarrow> secret_key_selector option \<Rightarrow> secret_key_selector option \<times> bool" where
  "decode_selector_ptr JNull old = (None, False)"
| "decode_selector_ptr (JObject ms) old =
     (case decode_selector_members ms (case old of None \<Rightarrow> zero_selector | Some s \<Rightarrow> s) of
        (s, e) \<Rightarrow> (Some s, e))"
| "decode_selector_ptr _ old = (Some (case old of None \<Rightarrow> zero_selector | Some s \<Rightarrow> s), True)"

fun decode_value_members :: "(string \<times> json) list \<Rightarrow> config_value \<Rightarrow> config_value \<times> bool" where
  "decode_value_members [] cv = (cv, False)"
| "decode_value_members ((k, j) # ms) cv =
     (let (cv', e) =
        (if names_field k ''value'' then
           (case decode_string j (cv_value cv) of (v, e) \<Rightarrow> (cv\<lparr>cv_value := v\<rparr>, e))
         else if names_field k ''secretKeyRef'' then
           (case decode_selector_ptr j (cv_secretKeyRef cv) of
              (v, e) \<Rightarrow> (cv\<lparr>cv_secretKeyRef := v\<rparr>, e))
         else (cv, False));
        (cv'', e') = decode_value_members ms cv'
      in (cv'', e \<or> e'))"

text \<open>Decoding the alias struct, whose fields are those of \<^verbatim>\<open>ConfigValue\<close>.\<close>

fun decode_value_struct :: "json \<Rightarrow> config_value \<Rightarrow> config_value \<times> bool" where
  "decode_value_struct JNull cv = (cv, False)"
| "decode_value_struct (JObject ms) cv = decode_value_members ms cv"
| "decode_value_struct _ cv = (cv, True)"

datatype json_error = SyntaxError | UnmarshalTypeError

text \<open>The method: the error it returns, if any, and the receiver afterwards.\<close>

definition UnmarshalJSON ::
  "config_value \<Rightarrow> json option \<Rightarrow> json_error option \<times> config_value" where
  "UnmarshalJSON cv data =
     (case data of
        None \<Rightarrow> (Some SyntaxError, cv)
      | Some j \<Rightarrow>
          (case decode_string j [] of
             (str, False) \<Rightarrow> (None, cv\<lparr>cv_value := str, cv_secretKeyRef := None\<rparr>)
           | (_, True) \<Rightarrow>
               (case decode_value_struct j zero_config_value of
                  (_, True) \<Rightarrow> (Some UnmarshalTypeError, cv)
                | (alias, False) \<Rightarrow>
                    (None, cv\<lparr>cv_value := cv_value alias, cv_secretKeyRef := cv_secretKeyRef alias\<rparr>))))"

section \<open>Encoding\<close>

text \<open>
  A Go string is a sequence of bytes, a JSON string a sequence of code points.  The encoder reads the
  string as UTF-8, with the tables of \<^verbatim>\<open>unicode/utf8\<close>: the length of a sequence and the range of its
  second byte follow from the first byte.  A byte that starts no sequence is written as U+FFFD, which
  is read back as the bytes EF BF BD.
\<close>

definition byte_in :: "nat \<Rightarrow> nat \<Rightarrow> char \<Rightarrow> bool" where
  "byte_in lo hi c \<longleftrightarrow> lo \<le> of_char c \<and> of_char c \<le> hi"

definition multibyte :: "char \<Rightarrow> (nat \<times> nat \<times> nat) option" where
  "multibyte c =
     (if byte_in 0xC2 0xDF c then Some (1, 0x80, 0xBF)
      else if c = CHR 0xE0 then Some (2, 0xA0, 0xBF)
      else if c = CHR 0xED then Some (2, 0x80, 0x9F)
      else if byte_in 0xE1 0xEF c then Some (2, 0x80, 0xBF)
      else if c = CHR 0xF0 then Some (3, 0x90, 0xBF)
      else if c = CHR 0xF4 then Some (3, 0x80, 0x8F)
      else if byte_in 0xF1 0xF3 c then Some (3, 0x80, 0xBF)
      else None)"

text \<open>The number of bytes that follow \<open>c\<close> in its sequence, if there is one.\<close>

definition rune_rest :: "char \<Rightarrow> string \<Rightarrow> nat option" where
  "rune_rest c s =
     (if byte_in 0 0x7F c then Some 0
      else (case multibyte c of
              None \<Rightarrow> None
            | Some (n, lo, hi) \<Rightarrow>
                if n \<le> length s \<and> list_all (byte_in lo hi) (take 1 s) \<and> list_all (byte_in 0x80 0xBF) (take n s)
                then Some n else None))"

fun coerce_utf8 :: "string \<Rightarrow> string" where
  "coerce_utf8 [] = []"
| "coerce_utf8 (c # s) =
     (case rune_rest c s of
        None \<Rightarrow> CHR 0xEF # CHR 0xBF # CHR 0xBD # coerce_utf8 s
      | Some n \<Rightarrow> c # take n s @ coerce_utf8 (drop n s))"

fun valid_utf8 :: "string \<Rightarrow> bool" where
  "valid_utf8 [] = True"
| "valid_utf8 (c # s) =
     (case rune_rest c s of None \<Rightarrow> False | Some n \<Rightarrow> valid_utf8 (drop n s))"

text \<open>
  \<^verbatim>\<open>ConfigValue\<close> has no encoder of its own: it is written member by member as its JSON tags say
  (lines 91 and 95: both \<^verbatim>\<open>omitempty\<close>), and so is the selector (\<^verbatim>\<open>name,omitempty\<close>, \<^verbatim>\<open>key\<close>,
  \<^verbatim>\<open>optional,omitempty\<close>).
\<close>

definition encode_selector :: "secret_key_selector \<Rightarrow> json" where
  "encode_selector s = JObject
     ((if sks_name s = [] then [] else [(''name'', JString (coerce_utf8 (sks_name s)))]) @
      [(''key'', JString (coerce_utf8 (sks_key s)))] @
      (case sks_optional s of None \<Rightarrow> [] | Some b \<Rightarrow> [(''optional'', JBool b)]))"

definition MarshalConfigValue :: "config_value \<Rightarrow> json" where
  "MarshalConfigValue cv = JObject
     ((if cv_value cv = [] then [] else [(''value'', JString (coerce_utf8 (cv_value cv)))]) @
      (case cv_secretKeyRef cv of
         None \<Rightarrow> [] | Some s \<Rightarrow> [(''secretKeyRef'', encode_selector s)]))"

lemma names_field_simps [simp]:
  "names_field ''name'' ''name''" "names_field ''key'' ''key''" "names_field ''optional'' ''optional''"
  "\<not> names_field ''key'' ''name''" "\<not> names_field ''optional'' ''name''"
  "\<not> names_field ''optional'' ''key''"
  "names_field ''value'' ''value''" "names_field ''secretKeyRef'' ''secretKeyRef''"
  "\<not> names_field ''secretKeyRef'' ''value''"
  by (code_simp)+

lemma coerce_Nil [simp]: "coerce_utf8 s = [] \<longleftrightarrow> s = []"
  by (cases s) (auto split: option.split)

lemma replacement_rune: "rune_rest (CHR 0xEF) (CHR 0xBF # CHR 0xBD # s) = Some 2"
  by (simp add: rune_rest_def multibyte_def byte_in_def)

lemma rune_rest_length: "rune_rest c s = Some n \<Longrightarrow> n \<le> length s"
  by (auto simp: rune_rest_def split: if_splits option.splits)

lemma multibyte_pos: "multibyte c = Some (n, lo, hi) \<Longrightarrow> 0 < n"
  by (auto simp: multibyte_def split: if_splits)

lemma rune_rest_prefix:
  assumes "rune_rest c s = Some n"
  shows "rune_rest c (take n s @ t) = Some n"
proof (cases "byte_in 0 0x7F c")
  case True
  with assms show ?thesis by (simp add: rune_rest_def)
next
  case False
  with assms obtain lo hi where m: "multibyte c = Some (n, lo, hi)" and n: "n \<le> length s"
    "list_all (byte_in lo hi) (take 1 s)" "list_all (byte_in 0x80 0xBF) (take n s)"
    by (auto simp: rune_rest_def split: option.splits if_splits)
  have "take 1 (take n s @ t) = take 1 s" using multibyte_pos [OF m] n(1) by (cases n) (auto simp: min_def)
  with False m n show ?thesis by (simp add: rune_rest_def)
qed

text \<open>The encoder keeps a string exactly when it is valid UTF-8, and makes every string valid.\<close>

lemma coerce_same: "coerce_utf8 s = s \<longleftrightarrow> valid_utf8 s"
proof (induction s rule: coerce_utf8.induct)
  case (2 c s)
  show ?case
  proof (cases "rune_rest c s")
    case None
    then have "coerce_utf8 (c # s) \<noteq> c # s" using replacement_rune by auto (metis option.distinct(1))
    with None show ?thesis by simp
  next
    case (Some n)
    have "take n s @ coerce_utf8 (drop n s) = s \<longleftrightarrow> coerce_utf8 (drop n s) = drop n s"
      by (metis append_take_drop_id same_append_eq)
    with Some 2 show ?thesis by simp
  qed
qed simp

lemma valid_coerce: "valid_utf8 (coerce_utf8 s)"
proof (induction s rule: coerce_utf8.induct)
  case (2 c s)
  show ?case
  proof (cases "rune_rest c s")
    case None
    with 2 show ?thesis by (simp add: replacement_rune)
  next
    case (Some n)
    with 2 rune_rest_prefix [OF Some] rune_rest_length [OF Some] show ?thesis by simp
  qed
qed simp

lemma coerce_idem [simp]: "coerce_utf8 (coerce_utf8 s) = coerce_utf8 s"
  by (simp add: coerce_same valid_coerce)

definition coerce_selector :: "secret_key_selector \<Rightarrow> secret_key_selector" where
  "coerce_selector s = s\<lparr>sks_name := coerce_utf8 (sks_name s), sks_key := coerce_utf8 (sks_key s)\<rparr>"

definition coerce_config :: "config_value \<Rightarrow> config_value" where
  "coerce_config cv = cv\<lparr>cv_value := coerce_utf8 (cv_value cv),
     cv_secretKeyRef := map_option coerce_selector (cv_secretKeyRef cv)\<rparr>"

definition utf8_selector :: "secret_key_selector \<Rightarrow> bool" where
  "utf8_selector s \<longleftrightarrow> valid_utf8 (sks_name s) \<and> valid_utf8 (sks_key s)"

definition utf8_config :: "config_value \<Rightarrow> bool" where
  "utf8_config cv \<longleftrightarrow> valid_utf8 (cv_value cv) \<and>
     (case cv_secretKeyRef cv of None \<Rightarrow> True | Some s \<Rightarrow> utf8_selector s)"

lemma coerce_selector_same: "coerce_selector s = s \<longleftrightarrow> utf8_selector s"
  by (cases s) (simp add: coerce_selector_def utf8_selector_def coerce_same)

lemma coerce_config_same: "coerce_config cv = cv \<longleftrightarrow> utf8_config cv"
  by (cases cv; cases "cv_secretKeyRef cv")
    (auto simp: coerce_config_def utf8_config_def coerce_same coerce_selector_same)

lemma encode_coerce_selector: "encode_selector (coerce_selector s) = encode_selector s"
  by (simp add: encode_selector_def coerce_selector_def)

lemma decode_encode_selector:
  "decode_selector_ptr (encode_selector s) None = (Some (coerce_selector s), False)"
  by (cases s) (auto simp: encode_selector_def zero_selector_def coerce_selector_def split: option.splits)

section \<open>Properties\<close>

text \<open>
  C37. Encoding a configuration value and decoding it gives, without an error and whatever the
  receiver held before, the value with every byte that is not part of a UTF-8 sequence replaced by
  U+FFFD.  So the value comes back unchanged exactly when its literal and the name and key of its
  secret reference are valid UTF-8, and what came back is encoded as the original was: a second round
  trip changes nothing.
\<close>

theorem UnmarshalJSON_Marshal:
  "UnmarshalJSON cv0 (Some (MarshalConfigValue cv)) = (None, coerce_config cv) \<and>
   (coerce_config cv = cv \<longleftrightarrow> utf8_config cv) \<and>
   MarshalConfigValue (coerce_config cv) = MarshalConfigValue cv"
proof (intro conjI coerce_config_same)
  show "UnmarshalJSON cv0 (Some (MarshalConfigValue cv)) = (None, coerce_config cv)"
    by (cases cv; cases cv0; cases "cv_secretKeyRef cv")
      (auto simp: UnmarshalJSON_def MarshalConfigValue_def zero_config_value_def coerce_config_def
        decode_encode_selector)
  show "MarshalConfigValue (coerce_config cv) = MarshalConfigValue cv"
    by (simp add: MarshalConfigValue_def coerce_config_def encode_coerce_selector split: option.split)
qed

text \<open>The byte FF alone is not valid, ASCII and a two-byte sequence are.\<close>

lemma UnmarshalJSON_Marshal_samples:
  "\<not> utf8_config \<lparr>cv_value = [CHR 0xFF], cv_secretKeyRef = None\<rparr>"
  "utf8_config \<lparr>cv_value = ''Vikings '' @ [CHR 0xC3, CHR 0xA9], cv_secretKeyRef = None\<rparr>"
  by code_simp+

text \<open>
  The method fails exactly on bytes that are no JSON and on a JSON value that is neither a
  string, nor null, nor an object whose members decode; and when it fails the receiver keeps its
  value.
\<close>

theorem UnmarshalJSON_errors:
  "(fst (UnmarshalJSON cv data) \<noteq> None \<longleftrightarrow>
      data = None \<or>
      (\<exists>j. data = Some j \<and> j \<noteq> JNull \<and> (\<forall>s. j \<noteq> JString s) \<and>
           \<not> (\<exists>ms. j = JObject ms \<and> \<not> snd (decode_value_members ms zero_config_value)))) \<and>
   (snd (UnmarshalJSON cv data) = cv \<or> fst (UnmarshalJSON cv data) = None)"
proof (cases data)
  case None
  then show ?thesis by (simp add: UnmarshalJSON_def)
next
  case (Some j)
  then show ?thesis
    by (cases j) (auto simp: UnmarshalJSON_def split: prod.splits bool.splits)
qed

end
