(* ===== verification/Go_Heap.thy ===== *)
theory Go_Heap
  imports Boilerr_Prelude "HOL-Library.List_Lexorder" "HOL-Library.Char_ord"
begin

text \<open>
  Go's memory, as far as copying objects needs it: cells that are allocated one after the other,
  slices, pointers and maps as references to them, and what a deep copy promises.  Which types the
  cells hold is left to the user of this theory, who passes how a type is put into a cell and taken
  out of it.
\<close>

section \<open>Cells\<close>

text \<open>
  A heap is the list of the cells allocated so far; an address is a position in it.  A pointer target
  is an array with one element.  Nothing is freed.
\<close>

type_synonym addr = nat

definition alloc :: "'c \<Rightarrow> 'c list \<Rightarrow> 'c list \<times> addr" where
  "alloc c h = (h @ [c], length h)"

definition load :: "('c \<Rightarrow> 'a list) \<Rightarrow> 'c list \<Rightarrow> addr \<Rightarrow> 'a list" where
  "load prj h a = (if a < length h then prj (h ! a) else [])"

definition store :: "('a list \<Rightarrow> 'c) \<Rightarrow> addr \<Rightarrow> 'a list \<Rightarrow> 'c list \<Rightarrow> 'c list" where
  "store emb a xs h = h[a := emb xs]"

text \<open>A slice is nil or a part of an array: its address, offset and length.\<close>

datatype slice = NilSlice | Slice addr nat nat

fun elements :: "('c \<Rightarrow> 'a list) \<Rightarrow> 'c list \<Rightarrow> slice \<Rightarrow> 'a list" where
  "elements prj h NilSlice = []"
| "elements prj h (Slice a off n) = take n (drop off (load prj h a))"

text \<open>Following a pointer; \<^const>\<open>None\<close> for nil.  Go's pointers that are not nil always lead to a value.\<close>

definition deref :: "('c \<Rightarrow> 'a list) \<Rightarrow> 'c list \<Rightarrow> addr option \<Rightarrow> 'a option" where
  "deref prj h p =
     (case p of None \<Rightarrow> None
      | Some a \<Rightarrow> (case load prj h a of [x] \<Rightarrow> Some x | _ \<Rightarrow> None))"

text \<open>
  The value of a map: its entries in the order of their keys.  Go maps have no order, so equal maps
  have equal values.
\<close>

definition map_entries :: "'v gomap \<Rightarrow> 'v gomap" where
  "map_entries m = map (\<lambda>k. (k, the (map_of m k))) (sort (remdups (go_keys m)))"

lemma map_entries_cong:
  assumes "map_of m = map_of m'"
  shows "map_entries m = map_entries m'"
proof -
  have "set (go_keys m) = set (go_keys m')" by (simp add: set_go_keys assms)
  hence "sort (remdups (go_keys m)) = sort (remdups (go_keys m'))"
    by (simp flip: sorted_list_of_set_sort_remdups)
  thus ?thesis by (simp add: map_entries_def assms)
qed

section \<open>Growing heaps\<close>

text \<open>\<open>agree A h h'\<close>: the cells at \<open>A\<close> are the same.  \<open>grown h h'\<close>: all cells of \<open>h\<close> are.\<close>

definition agree :: "addr set \<Rightarrow> 'c list \<Rightarrow> 'c list \<Rightarrow> bool" where
  "agree A h h' \<longleftrightarrow> (\<forall>a\<in>A. a < length h \<and> a < length h' \<and> h' ! a = h ! a)"

definition grown :: "'c list \<Rightarrow> 'c list \<Rightarrow> bool" where
  "grown h h' \<longleftrightarrow> agree {..<length h} h h'"

lemma grown_length: "grown h h' \<Longrightarrow> length h \<le> length h'"
  by (auto simp: grown_def agree_def not_less [symmetric])

lemma grown_refl [simp]: "grown h h"
  by (simp add: grown_def agree_def)

lemma grown_trans: "grown h1 h2 \<Longrightarrow> grown h2 h3 \<Longrightarrow> grown h1 h3"
  by (auto simp: grown_def agree_def)

lemma grown_append [simp]: "grown h (h @ cs)"
  by (simp add: grown_def agree_def nth_append)

lemma grown_update: "grown h h' \<Longrightarrow> length h \<le> b \<Longrightarrow> grown h (h'[b := c])"
  by (auto simp: grown_def agree_def)

lemma grown_agree: "grown h h' \<Longrightarrow> A \<subseteq> {..<length h} \<Longrightarrow> agree A h h'"
  by (auto simp: grown_def agree_def)

lemma agree_mono: "agree A h h' \<Longrightarrow> B \<subseteq> A \<Longrightarrow> agree B h h'"
  by (auto simp: agree_def)

lemma agree_update: "A \<subseteq> {..<length h} \<Longrightarrow> b \<notin> A \<Longrightarrow> agree A h (h[b := c])"
  by (auto simp: agree_def) (metis nth_list_update_neq)

lemma agree_load: "agree A h h' \<Longrightarrow> a \<in> A \<Longrightarrow> load prj h' a = load prj h a"
  by (auto simp: agree_def load_def)

lemma load_append: "load prj (h @ [c]) (length h) = prj c"
  by (simp add: load_def)

lemma load_store: "a < length h \<Longrightarrow> load prj (store emb a xs h) a = prj (emb xs)"
  by (simp add: load_def store_def)

section \<open>What a deep copy promises\<close>

text \<open>
  A deep copy \<open>y\<close> of \<open>x\<close> has the value of the original, in cells of its own; the old cells are
  untouched.
\<close>

definition copied :: "('c list \<Rightarrow> 'a \<Rightarrow> 'v) \<Rightarrow> ('c list \<Rightarrow> 'a \<Rightarrow> addr set) \<Rightarrow> 'c list \<Rightarrow> 'a \<Rightarrow> 'c list \<Rightarrow> 'a \<Rightarrow> bool" where
  "copied val reach h x h' y \<longleftrightarrow>
     grown h h' \<and> val h' y = val h x \<and> reach h' y \<subseteq> {length h..<length h'}"

text \<open>
  \<open>val h x\<close> is the value that \<open>x\<close> stands for in the heap \<open>h\<close>, \<open>reach h x\<close> the cells it is spread over.
  A value only depends on these cells.
\<close>

locale memory =
  fixes val :: "'c list \<Rightarrow> 'a \<Rightarrow> 'v" and reach :: "'c list \<Rightarrow> 'a \<Rightarrow> addr set"
  assumes frame_val: "agree (reach h x) h h' \<Longrightarrow> val h' x = val h x"
    and frame_reach: "agree (reach h x) h h' \<Longrightarrow> reach h' x = reach h x"
begin

lemma copied_later:
  assumes "copied val reach h x h1 y" and "agree (reach h1 y) h1 h2" and "grown h h2" and "length h1 \<le> length h2"
  shows "copied val reach h x h2 y"
  using assms frame_val [OF assms(2)] frame_reach [OF assms(2)] by (auto simp: copied_def)

lemma grown_frame:
  assumes "grown h h'" and "reach h x \<subseteq> {..<length h}"
  shows "val h' x = val h x" and "reach h' x = reach h x"
  using frame_val [OF grown_agree [OF assms]] frame_reach [OF grown_agree [OF assms]] by simp_all

end

locale deep_copy = memory val reach
  for val :: "'c list \<Rightarrow> 'a \<Rightarrow> 'v" and reach :: "'c list \<Rightarrow> 'a \<Rightarrow> addr set" +
  fixes copy :: "'c list \<Rightarrow> 'a \<Rightarrow> 'c list \<times> 'a"
  assumes copies: "reach h x \<subseteq> {..<length h} \<Longrightarrow> copy h x = (h', y) \<Longrightarrow> copied val reach h x h' y"
begin

lemma copy_grown:
  assumes "grown h0 h" and "reach h0 x \<subseteq> {..<length h0}" and "copy h x = (h', y)"
  shows "grown h0 h'" and "grown h h'" and "val h' y = val h0 x" and "reach h' y \<subseteq> {length h..<length h'}"
proof -
  have "reach h x \<subseteq> {..<length h}"
    using assms(2) grown_length [OF assms(1)] grown_frame(2) [OF assms(1,2)] by fastforce
  with copies assms(3) have c: "copied val reach h x h' y" by blast
  thus "grown h0 h'" "grown h h'" using assms(1) by (auto simp: copied_def intro: grown_trans)
  show "val h' y = val h0 x" "reach h' y \<subseteq> {length h..<length h'}"
    using c grown_frame(1) [OF assms(1,2)] by (simp_all add: copied_def)
qed

text \<open>
  So the copy and the original are independent: whatever is later done to one of them leaves the
  value of the other.
\<close>

lemma independent:
  assumes "reach h x \<subseteq> {..<length h}" and "copy h x = (h', y)"
    and "length h' \<le> length h''" and "\<forall>a<length h'. h'' ! a \<noteq> h' ! a \<longrightarrow> a \<in> A"
  shows "A \<subseteq> reach h' y \<Longrightarrow> val h'' x = val h x"
    and "A \<inter> reach h' y = {} \<Longrightarrow> val h'' y = val h x"
proof -
  have c: "copied val reach h x h' y" using copies assms(1,2) by blast
  hence g: "grown h h'" "reach h' y \<subseteq> {length h..<length h'}" "val h' y = val h x"
    by (simp_all add: copied_def)
  have "agree (reach h x) h h''" if "A \<subseteq> reach h' y"
    unfolding agree_def
  proof
    fix a assume "a \<in> reach h x"
    hence a: "a < length h" "a < length h'" "h' ! a = h ! a"
      using assms(1) g(1) by (auto simp: agree_def grown_def)
    moreover have "a \<notin> A" using that g(2) a(1) by auto
    ultimately show "a < length h \<and> a < length h'' \<and> h'' ! a = h ! a" using assms(3,4) by auto
  qed
  thus "A \<subseteq> reach h' y \<Longrightarrow> val h'' x = val h x" by (rule frame_val)
  have "agree (reach h' y) h' h''" if "A \<inter> reach h' y = {}"
    unfolding agree_def
  proof
    fix a assume "a \<in> reach h' y"
    moreover from this have "a \<notin> A" "a < length h'" using that g(2) by auto
    ultimately show "a < length h' \<and> a < length h'' \<and> h'' ! a = h' ! a" using assms(3,4) by auto
  qed
  thus "A \<inter> reach h' y = {} \<Longrightarrow> val h'' y = val h x" using frame_val g(3) by metis
qed

end

section \<open>Structs\<close>

text \<open>A value without references is copied by assignment.\<close>

definition plain_val :: "'c list \<Rightarrow> 'a \<Rightarrow> 'a" where
  "plain_val h x = x"

definition plain_reach :: "'c list \<Rightarrow> 'a \<Rightarrow> addr set" where
  "plain_reach h x = {}"

definition plain_copy :: "'c list \<Rightarrow> 'a \<Rightarrow> 'c list \<times> 'a" where
  "plain_copy h x = (h, x)"

interpretation plain: deep_copy plain_val plain_reach plain_copy
  by unfold_locales (simp_all add: plain_val_def plain_reach_def plain_copy_def copied_def)

text \<open>Two fields, the first copied first.\<close>

definition pair_val :: "('c list \<Rightarrow> 'a \<Rightarrow> 'v) \<Rightarrow> ('c list \<Rightarrow> 'b \<Rightarrow> 'w) \<Rightarrow> 'c list \<Rightarrow> 'a \<times> 'b \<Rightarrow> 'v \<times> 'w" where
  "pair_val v1 v2 h x = (v1 h (fst x), v2 h (snd x))"

definition pair_reach :: "('c list \<Rightarrow> 'a \<Rightarrow> addr set) \<Rightarrow> ('c list \<Rightarrow> 'b \<Rightarrow> addr set) \<Rightarrow> 'c list \<Rightarrow> 'a \<times> 'b \<Rightarrow> addr set" where
  "pair_reach r1 r2 h x = r1 h (fst x) \<union> r2 h (snd x)"

definition pair_copy ::
  "('c list \<Rightarrow> 'a \<Rightarrow> 'c list \<times> 'a) \<Rightarrow> ('c list \<Rightarrow> 'b \<Rightarrow> 'c list \<times> 'b) \<Rightarrow> 'c list \<Rightarrow> 'a \<times> 'b \<Rightarrow> 'c list \<times> 'a \<times> 'b" where
  "pair_copy c1 c2 h x =
     (let (h1, y1) = c1 h (fst x); (h2, y2) = c2 h1 (snd x) in (h2, y1, y2))"

lemma memory_pair:
  assumes "memory v1 r1" and "memory v2 r2"
  shows "memory (pair_val v1 v2) (pair_reach r1 r2)"
proof
  fix h x h'
  assume "agree (pair_reach r1 r2 h x) h (h' :: 'a list)"
  hence a: "agree (r1 h (fst x)) h h'" "agree (r2 h (snd x)) h h'"
    by (auto simp: pair_reach_def agree_def)
  note f1 = memory.frame_val [OF assms(1) a(1)] memory.frame_reach [OF assms(1) a(1)]
  note f2 = memory.frame_val [OF assms(2) a(2)] memory.frame_reach [OF assms(2) a(2)]
  show "pair_val v1 v2 h' x = pair_val v1 v2 h x" "pair_reach r1 r2 h' x = pair_reach r1 r2 h x"
    by (simp_all add: pair_val_def pair_reach_def f1 f2)
qed

lemma deep_copy_pair:
  assumes "deep_copy v1 r1 c1" and "deep_copy v2 r2 c2"
  shows "deep_copy (pair_val v1 v2) (pair_reach r1 r2) (pair_copy c1 c2)"
proof (rule deep_copy.intro, rule memory_pair)
  show m1: "memory v1 r1" and "memory v2 r2" using assms by (simp_all add: deep_copy_def)
  show "deep_copy_axioms (pair_val v1 v2) (pair_reach r1 r2) (pair_copy c1 c2)"
  proof
    fix h x h' y
    assume r: "pair_reach r1 r2 h x \<subseteq> {..<length h}" and c: "pair_copy c1 c2 h x = (h', y)"
    obtain h1 y1 h2 y2 where s1: "c1 h (fst x) = (h1, y1)" and s2: "c2 h1 (snd x) = (h2, y2)"
      by (metis surj_pair)
    with c have h': "h' = h2" "y = (y1, y2)" by (simp_all add: pair_copy_def)
    from r have r12: "r1 h (fst x) \<subseteq> {..<length h}" "r2 h (snd x) \<subseteq> {..<length h}"
      by (simp_all add: pair_reach_def)
    note f1 = deep_copy.copy_grown [OF assms(1) grown_refl r12(1) s1]
    note f2 = deep_copy.copy_grown [OF assms(2) f1(1) r12(2) s2]
    have "agree (r1 h1 y1) h1 h2"
      using f1(4) f2(2) by (intro grown_agree) auto
    hence "v1 h2 y1 = v1 h1 y1" "r1 h2 y1 = r1 h1 y1"
      using memory.frame_val [OF m1] memory.frame_reach [OF m1] by blast+
    thus "copied (pair_val v1 v2) (pair_reach r1 r2) h x h' y"
      using f1 f2 grown_length [OF f1(1)] grown_length [OF f2(2)]
      by (auto simp: copied_def pair_val_def pair_reach_def h')
  qed
qed

text \<open>
  A struct is the tuple of the fields that hold references, taken out by \<open>get\<close> and put back by \<open>upd\<close>,
  and what is left of it.
\<close>

lemma memory_struct:
  assumes "memory v r" and "\<And>h x. val h x = mk x (v h (get x))" and "\<And>h x. reach h x = r h (get x)"
  shows "memory val reach"
proof
  fix h x h'
  assume "agree (reach h x) h h'"
  hence a: "agree (r h (get x)) h h'" by (simp add: assms(3))
  show "val h' x = val h x" "reach h' x = reach h x"
    by (simp_all add: assms(2,3) memory.frame_val [OF assms(1) a] memory.frame_reach [OF assms(1) a])
qed

lemma deep_copy_struct:
  assumes "deep_copy v r c"
    and "\<And>h x. val h x = mk x (v h (get x))" and "\<And>h x. reach h x = r h (get x)"
    and "\<And>h x. copy h x = (fst (c h (get x)), upd (snd (c h (get x))) x)"
    and "\<And>t x. get (upd t x) = t" and "\<And>t x w. mk (upd t x) w = mk x w"
  shows "deep_copy val reach copy"
proof (rule deep_copy.intro, rule memory_struct)
  show "memory v r" using assms(1) by (simp add: deep_copy_def)
  show "val h x = mk x (v h (get x))" "reach h x = r h (get x)" for h x by (simp_all add: assms)
  show "deep_copy_axioms val reach copy"
  proof
    fix h x h' y
    assume "reach h x \<subseteq> {..<length h}" and c: "copy h x = (h', y)"
    hence "copied v r h (get x) (fst (c h (get x))) (snd (c h (get x)))"
      using deep_copy.copies [OF assms(1)] by (simp add: assms(3))
    thus "copied val reach h x h' y"
      using c by (auto simp: copied_def assms(2-6))
  qed
qed

end
