(* ===== verification/Go_Copy.thy ===== *)
theory Go_Copy
  imports Go_Heap
begin

text \<open>
  The statements the generated copying functions are made of: a new struct, a pointer, a slice of
  plain or of structured elements, a map.  Each is a deep copy if the elements' is one.
\<close>

section \<open>References\<close>

text \<open>\<open>new(T)\<close>, \<open>*out = *in\<close> and the rest of \<open>DeepCopyInto\<close> on the new struct.\<close>

definition new_copy :: "('a list \<Rightarrow> 'c) \<Rightarrow> ('c list \<Rightarrow> 'a \<Rightarrow> 'c list \<times> 'a) \<Rightarrow> 'c list \<Rightarrow> 'a \<Rightarrow> 'c list \<times> addr" where
  "new_copy emb copy h x =
     (let (h0, b) = alloc (emb [x]) h; (h1, y) = copy h0 x in (store emb b [y] h1, b))"

text \<open>
  \<open>DeepCopy\<close>: nil for nil, else a new struct.  A receiver is passed as the struct it points to, so a
  pointer field is copied by \<open>copy_ptr\<close>, which follows it.
\<close>

definition DeepCopy :: "('a list \<Rightarrow> 'c) \<Rightarrow> ('c list \<Rightarrow> 'a \<Rightarrow> 'c list \<times> 'a) \<Rightarrow> 'c list \<Rightarrow> 'a option \<Rightarrow> 'c list \<times> addr option" where
  "DeepCopy emb copy h p =
     (case p of
        None \<Rightarrow> (h, None)
      | Some x \<Rightarrow> (let (h1, b) = new_copy emb copy h x in (h1, Some b)))"

definition copy_ptr ::
  "('a list \<Rightarrow> 'c) \<Rightarrow> ('c \<Rightarrow> 'a list) \<Rightarrow> ('c list \<Rightarrow> 'a \<Rightarrow> 'c list \<times> 'a) \<Rightarrow> 'c list \<Rightarrow> addr option \<Rightarrow> 'c list \<times> addr option" where
  "copy_ptr emb prj copy h p = DeepCopy emb copy h (deref prj h p)"

definition ptr_val :: "('c \<Rightarrow> 'a list) \<Rightarrow> ('c list \<Rightarrow> 'a \<Rightarrow> 'v) \<Rightarrow> 'c list \<Rightarrow> addr option \<Rightarrow> 'v option" where
  "ptr_val prj val h p = map_option (val h) (deref prj h p)"

definition ptr_reach :: "('c \<Rightarrow> 'a list) \<Rightarrow> ('c list \<Rightarrow> 'a \<Rightarrow> addr set) \<Rightarrow> 'c list \<Rightarrow> addr option \<Rightarrow> addr set" where
  "ptr_reach prj reach h p =
     set_option p \<union> (case deref prj h p of None \<Rightarrow> {} | Some x \<Rightarrow> reach h x)"

text \<open>
  \<open>make([]T, len(*in))\<close> with the built-in \<open>copy\<close>, and with a loop that copies the elements one by one
  (\<open>copy_element\<close> is its body, whose first effect is the assignment of the element).
\<close>

definition copy_slice :: "('a list \<Rightarrow> 'c) \<Rightarrow> ('c \<Rightarrow> 'a list) \<Rightarrow> 'c list \<Rightarrow> slice \<Rightarrow> 'c list \<times> slice" where
  "copy_slice emb prj h s =
     (case s of
        NilSlice \<Rightarrow> (h, NilSlice)
      | Slice _ _ _ \<Rightarrow>
          (let xs = elements prj h s; (h1, b) = alloc (emb xs) h in (h1, Slice b 0 (length xs))))"

definition copy_element ::
  "('a list \<Rightarrow> 'c) \<Rightarrow> ('c \<Rightarrow> 'a list) \<Rightarrow> ('c list \<Rightarrow> 'a \<Rightarrow> 'c list \<times> 'a) \<Rightarrow> slice \<Rightarrow> addr \<Rightarrow> 'c list \<Rightarrow> nat \<Rightarrow> 'c list" where
  "copy_element emb prj copy s b h i =
     (let (h1, y) = copy h (elements prj h s ! i) in store emb b ((load prj h1 b)[i := y]) h1)"

definition copy_each ::
  "('a list \<Rightarrow> 'c) \<Rightarrow> ('c \<Rightarrow> 'a list) \<Rightarrow> ('c list \<Rightarrow> 'a \<Rightarrow> 'c list \<times> 'a) \<Rightarrow> 'c list \<Rightarrow> slice \<Rightarrow> 'c list \<times> slice" where
  "copy_each emb prj copy h s =
     (case s of
        NilSlice \<Rightarrow> (h, NilSlice)
      | Slice _ _ _ \<Rightarrow>
          (let xs = elements prj h s; (h0, b) = alloc (emb xs) h
           in (foldl (copy_element emb prj copy s b) h0 [0..<length xs], Slice b 0 (length xs))))"

definition slice_val :: "('c \<Rightarrow> 'a list) \<Rightarrow> ('c list \<Rightarrow> 'a \<Rightarrow> 'v) \<Rightarrow> 'c list \<Rightarrow> slice \<Rightarrow> 'v list" where
  "slice_val prj val h s = map (val h) (elements prj h s)"

definition slice_reach :: "('c \<Rightarrow> 'a list) \<Rightarrow> ('c list \<Rightarrow> 'a \<Rightarrow> addr set) \<Rightarrow> 'c list \<Rightarrow> slice \<Rightarrow> addr set" where
  "slice_reach prj reach h s =
     (case s of NilSlice \<Rightarrow> {} | Slice a _ _ \<Rightarrow> insert a (\<Union>x\<in>set (elements prj h s). reach h x))"

text \<open>
  \<open>make(map[string]T, len(*in))\<close> and a loop in the order \<open>ord\<close>; \<open>*val.DeepCopy()\<close> makes a new struct and
  is assigned to the entry.  A map is nil or the address of its table.
\<close>

definition copy_entry ::
  "((string \<times> 'a) list \<Rightarrow> 'c) \<Rightarrow> ('c \<Rightarrow> (string \<times> 'a) list) \<Rightarrow> ('c list \<Rightarrow> 'a option \<Rightarrow> 'c list \<times> addr option) \<Rightarrow>
   ('c \<Rightarrow> 'a list) \<Rightarrow> addr \<Rightarrow> addr \<Rightarrow> 'c list \<Rightarrow> string \<Rightarrow> 'c list" where
  "copy_entry memb mprj dc prj a b h k =
     (case map_of (load mprj h a) k of
        None \<Rightarrow> h
      | Some x \<Rightarrow>
          (let (h1, p) = dc h (Some x)
           in case deref prj h1 p of
                None \<Rightarrow> h1
              | Some y \<Rightarrow> store memb b (AList.update k y (load mprj h1 b)) h1))"

definition copy_map ::
  "(string list \<Rightarrow> string list) \<Rightarrow> ((string \<times> 'a) list \<Rightarrow> 'c) \<Rightarrow> ('c \<Rightarrow> (string \<times> 'a) list) \<Rightarrow>
   ('c list \<Rightarrow> 'a option \<Rightarrow> 'c list \<times> addr option) \<Rightarrow> ('c \<Rightarrow> 'a list) \<Rightarrow>
   'c list \<Rightarrow> addr option \<Rightarrow> 'c list \<times> addr option" where
  "copy_map ord memb mprj dc prj h p =
     (case p of
        None \<Rightarrow> (h, None)
      | Some a \<Rightarrow>
          (let (h0, b) = alloc (memb []) h
           in (foldl (copy_entry memb mprj dc prj a b) h0 (ord (go_keys (load mprj h a))), Some b)))"

definition map_val :: "('c \<Rightarrow> (string \<times> 'a) list) \<Rightarrow> ('c list \<Rightarrow> 'a \<Rightarrow> 'v) \<Rightarrow> 'c list \<Rightarrow> addr option \<Rightarrow> 'v gomap option" where
  "map_val mprj val h p = map_option (\<lambda>a. map_entries (map (apsnd (val h)) (load mprj h a))) p"

definition map_reach :: "('c \<Rightarrow> (string \<times> 'a) list) \<Rightarrow> ('c list \<Rightarrow> 'a \<Rightarrow> addr set) \<Rightarrow> 'c list \<Rightarrow> addr option \<Rightarrow> addr set" where
  "map_reach mprj reach h p =
     (case p of None \<Rightarrow> {} | Some a \<Rightarrow> insert a (\<Union>x\<in>snd ` set (load mprj h a). reach h x))"

section \<open>They are deep copies\<close>

text \<open>
  What \<open>DeepCopy\<close> returns for \<open>x\<close>: a pointer to a new struct with the value of \<open>x\<close>, all of it in new
  cells.  From then on, writing to the copy does not change the original, and writing to anything
  else does not change the copy.
\<close>

definition fresh_object ::
  "('c list \<Rightarrow> 'a \<Rightarrow> 'v) \<Rightarrow> ('c list \<Rightarrow> 'a \<Rightarrow> addr set) \<Rightarrow> ('c \<Rightarrow> 'a list) \<Rightarrow>
   'c list \<Rightarrow> 'a \<Rightarrow> 'c list \<Rightarrow> addr option \<Rightarrow> bool" where
  "fresh_object val reach prj h x h' p \<longleftrightarrow>
     (\<exists>b y. p = Some b \<and> length h \<le> b \<and> deref prj h' p = Some y \<and> copied val reach h x h' y \<and>
        (\<forall>h''. length h' \<le> length h'' \<longrightarrow>
           ((\<forall>a<length h'. h'' ! a \<noteq> h' ! a \<longrightarrow> a \<in> insert b (reach h' y)) \<longrightarrow> val h'' x = val h x) \<and>
           ((\<forall>a<length h'. h'' ! a \<noteq> h' ! a \<longrightarrow> a \<notin> insert b (reach h' y)) \<longrightarrow>
              deref prj h'' p = Some y \<and> val h'' y = val h x)))"

locale cells =
  fixes emb :: "'a list \<Rightarrow> 'c" and prj :: "'c \<Rightarrow> 'a list"
  assumes prj_emb [simp]: "prj (emb xs) = xs"
begin

lemma load_alloc [simp]: "alloc (emb xs) h = (h1, b) \<Longrightarrow> load prj h1 b = xs"
  by (auto simp: alloc_def load_append)

lemma load_stored [simp]: "b < length h \<Longrightarrow> load prj (store emb b xs h) b = xs"
  by (simp add: load_store)

end

text \<open>
  While a new cell \<open>b\<close> is filled, what it is to hold is copied into the cells behind it.
\<close>

definition behind ::
  "('c list \<Rightarrow> 'a \<Rightarrow> 'v) \<Rightarrow> ('c list \<Rightarrow> 'a \<Rightarrow> addr set) \<Rightarrow> addr \<Rightarrow> 'v \<Rightarrow> 'c list \<Rightarrow> 'a \<Rightarrow> bool" where
  "behind val reach b v h y \<longleftrightarrow> val h y = v \<and> reach h y \<subseteq> {Suc b..<length h}"

context deep_copy begin

lemma behind_grown: "behind val reach b v h y \<Longrightarrow> grown h h' \<Longrightarrow> behind val reach b v h' y"
proof -
  assume b: "behind val reach b v h y" and g: "grown h h'"
  hence "agree (reach h y) h h'" by (intro grown_agree) (auto simp: behind_def)
  from frame_val [OF this] frame_reach [OF this] show ?thesis
    using b grown_length [OF g] by (auto simp: behind_def)
qed

lemma behind_store: "behind val reach b v h y \<Longrightarrow> behind val reach b v (h[b := c]) y"
proof -
  assume b: "behind val reach b v h y"
  hence "agree (reach h y) h (h[b := c])" by (intro agree_update) (auto simp: behind_def)
  from frame_val [OF this] frame_reach [OF this] show ?thesis using b by (auto simp: behind_def)
qed

lemma copy_behind:
  assumes "grown h0 h" and "length h0 < length h" and "reach h0 x \<subseteq> {..<length h0}" and "copy h x = (h', y)"
  shows "behind val reach (length h0) (val h0 x) h' y"
  using copy_grown [OF assms(1,3,4)] assms(2) by (auto simp: behind_def)

end

locale stored = deep_copy val reach copy + cells emb prj
  for val :: "'c list \<Rightarrow> 'a \<Rightarrow> 'v" and reach :: "'c list \<Rightarrow> 'a \<Rightarrow> addr set"
    and copy :: "'c list \<Rightarrow> 'a \<Rightarrow> 'c list \<times> 'a"
    and emb :: "'a list \<Rightarrow> 'c" and prj :: "'c \<Rightarrow> 'a list"
begin

lemma new_copy_copies:
  assumes "grown h0 h" and "reach h0 x \<subseteq> {..<length h0}" and "new_copy emb copy h x = (h', b)"
  shows "grown h0 h'" and "grown h h'" and "b = length h" and "b < length h'"
    and "\<exists>y. deref prj h' (Some b) = Some y \<and> behind val reach b (val h0 x) h' y"
proof -
  obtain h1 y where c: "copy (h @ [emb [x]]) x = (h1, y)" by (metis surj_pair)
  with assms(3) have h': "h' = store emb b [y] h1" and b: "b = length h"
    by (auto simp: new_copy_def alloc_def)
  have g: "grown h0 (h @ [emb [x]])" using assms(1) by (rule grown_trans) simp
  note k = copy_grown [OF g assms(2) c]
  have l: "b < length h1" using grown_length [OF k(2)] by (simp add: b)
  show "b = length h" by (rule b)
  have "grown h h1" using k(2) grown_append grown_trans by blast
  thus "grown h h'" by (simp add: h' store_def grown_update b)
  thus "grown h0 h'" using assms(1) grown_trans by blast
  show "b < length h'" using l by (simp add: h' store_def)
  have "behind val reach b (val h0 x) h1 y" using k(3,4) by (auto simp: behind_def b)
  hence "behind val reach b (val h0 x) h' y" by (simp add: h' store_def behind_store)
  thus "\<exists>y. deref prj h' (Some b) = Some y \<and> behind val reach b (val h0 x) h' y"
    using l by (auto simp: deref_def h')
qed

lemma memory_ptr: "memory (ptr_val prj val) (ptr_reach prj reach)"
proof
  fix h p h'
  assume a: "agree (ptr_reach prj reach h p) h (h' :: 'c list)"
  hence "\<forall>a\<in>set_option p. load prj h' a = load prj h a"
    by (auto simp: ptr_reach_def intro: agree_load)
  hence d: "deref prj h' p = deref prj h p" by (auto simp: deref_def split: option.split)
  have "agree (reach h x) h h'" if "deref prj h p = Some x" for x
    using a that by (auto simp: ptr_reach_def agree_def)
  hence "val h' x = val h x" "reach h' x = reach h x" if "deref prj h p = Some x" for x
    using that frame_val frame_reach by blast+
  thus "ptr_val prj val h' p = ptr_val prj val h p" "ptr_reach prj reach h' p = ptr_reach prj reach h p"
    by (cases "deref prj h p"; simp add: ptr_val_def ptr_reach_def d)+
qed

lemma deep_copy_ptr: "deep_copy (ptr_val prj val) (ptr_reach prj reach) (copy_ptr emb prj copy)"
proof (rule deep_copy.intro, rule memory_ptr, unfold_locales)
  fix h p h' q
  assume r: "ptr_reach prj reach h p \<subseteq> {..<length h}" and c: "copy_ptr emb prj copy h p = (h', q)"
  show "copied (ptr_val prj val) (ptr_reach prj reach) h p h' q"
  proof (cases "deref prj h p")
    case None
    with c show ?thesis by (auto simp: copy_ptr_def DeepCopy_def copied_def ptr_val_def ptr_reach_def deref_def)
  next
    case (Some x)
    obtain b where n: "new_copy emb copy h x = (h', b)" and q: "q = Some b"
      using c by (auto simp: copy_ptr_def DeepCopy_def Some split: prod.splits)
    have "reach h x \<subseteq> {..<length h}" using r by (simp add: ptr_reach_def Some)
    from new_copy_copies [OF grown_refl this n] obtain y where
      k: "grown h h'" "b = length h" "b < length h'" "deref prj h' (Some b) = Some y" "behind val reach b (val h x) h' y"
      by blast
    have "reach h' y \<subseteq> {length h..<length h'}" using k(2,5) by (auto simp: behind_def)
    thus ?thesis using k by (auto simp: copied_def ptr_val_def ptr_reach_def q Some behind_def)
  qed
qed

lemma DeepCopy_fresh:
  assumes r: "reach h x \<subseteq> {..<length h}" and d: "DeepCopy emb copy h (Some x) = (h', p)"
  shows "fresh_object val reach prj h x h' p"
proof -
  obtain b where n: "new_copy emb copy h x = (h', b)" and p: "p = Some b"
    using d by (auto simp: DeepCopy_def split: prod.splits)
  from new_copy_copies [OF grown_refl r n] obtain y where
    k: "grown h h'" "b = length h" "b < length h'" "deref prj h' (Some b) = Some y" "behind val reach b (val h x) h' y"
    by blast
  have c: "copied val reach h x h' y" using k by (fastforce simp: copied_def behind_def)
  have x: "val h'' x = val h x"
    if "length h' \<le> length h''" and w: "\<forall>a<length h'. h'' ! a \<noteq> h' ! a \<longrightarrow> a \<in> insert b (reach h' y)" for h''
  proof (intro grown_frame(1) [OF _ r], unfold grown_def agree_def, safe)
    fix a assume a: "a < length h"
    hence "a \<notin> insert b (reach h' y)" using c k(2) by (auto simp: copied_def)
    moreover have "a < length h'" "h' ! a = h ! a" using a k(1) by (auto simp: grown_def agree_def)
    ultimately show "a < length h''" "h'' ! a = h ! a" using that by auto
  qed
  have y: "deref prj h'' (Some b) = Some y \<and> val h'' y = val h x"
    if "length h' \<le> length h''" and w: "\<forall>a<length h'. h'' ! a \<noteq> h' ! a \<longrightarrow> a \<notin> insert b (reach h' y)" for h''
  proof -
    have "agree (insert b (reach h' y)) h' h''"
      unfolding agree_def
    proof
      fix a assume a: "a \<in> insert b (reach h' y)"
      hence "a < length h'" using c k(3) by (auto simp: copied_def)
      thus "a < length h' \<and> a < length h'' \<and> h'' ! a = h' ! a" using a that by auto
    qed
    hence "load prj h'' b = load prj h' b" "val h'' y = val h' y"
      by (blast intro: agree_load frame_val agree_mono)+
    thus ?thesis using k(4) c by (simp add: deref_def copied_def)
  qed
  show ?thesis unfolding fresh_object_def using k c x y p by blast
qed

lemma memory_slice: "memory (slice_val prj val) (slice_reach prj reach)"
proof
  fix h s h'
  assume a: "agree (slice_reach prj reach h s) h (h' :: 'c list)"
  hence e: "elements prj h' s = elements prj h s"
    by (cases s) (auto simp: slice_reach_def intro!: arg_cong2 [where f = take] arg_cong2 [where f = drop] agree_load)
  have "agree (reach h x) h h'" if "x \<in> set (elements prj h s)" for x
    using a that by (cases s) (auto simp: slice_reach_def agree_def)
  hence "val h' x = val h x" "reach h' x = reach h x" if "x \<in> set (elements prj h s)" for x
    using that frame_val frame_reach by blast+
  thus "slice_val prj val h' s = slice_val prj val h s" "slice_reach prj reach h' s = slice_reach prj reach h s"
    unfolding slice_val_def slice_reach_def e by (simp_all split: slice.split)
qed

text \<open>The loop over a slice: after \<open>i\<close> rounds, the first \<open>i\<close> elements of the new array are copies.\<close>

lemma copy_each_loop:
  assumes r: "\<And>x. x \<in> set (elements prj h s) \<Longrightarrow> reach h x \<subseteq> {..<length h}"
    and e: "\<And>h'. grown h h' \<Longrightarrow> elements prj h' s = elements prj h s"
    and "i \<le> length (elements prj h s)"
    and "hi = foldl (copy_element emb prj copy s (length h)) (h @ [emb (elements prj h s)]) [0..<i]"
  shows "grown h hi \<and> length h < length hi \<and>
    length (load prj hi (length h)) = length (elements prj h s) \<and>
    (\<forall>j<i. behind val reach (length h) (val h (elements prj h s ! j)) hi (load prj hi (length h) ! j))"
  using assms(3,4)
proof (induction i arbitrary: hi)
  case 0
  thus ?case by (simp add: load_append)
next
  case (Suc i)
  let ?b = "length h" and ?xs = "elements prj h s"
  define g where "g = foldl (copy_element emb prj copy s ?b) (h @ [emb ?xs]) [0..<i]"
  from Suc.IH [OF _ g_def] Suc.prems(1) have
    g: "grown h g" "?b < length g" "length (load prj g ?b) = length ?xs"
      "\<forall>j<i. behind val reach ?b (val h (?xs ! j)) g (load prj g ?b ! j)"
    by simp_all
  obtain h1 y where c: "copy g (?xs ! i) = (h1, y)" by (metis surj_pair)
  have rx: "reach h (?xs ! i) \<subseteq> {..<length h}" using Suc.prems(1) by (intro r) simp
  note k = copy_grown [OF g(1) rx c]
  have l: "load prj h1 ?b = load prj g ?b"
    using g(2) by (intro agree_load [OF k(2) [unfolded grown_def]]) simp
  have "hi = copy_element emb prj copy s ?b g i" using Suc.prems(2) by (simp add: g_def)
  hence h: "hi = store emb ?b ((load prj g ?b)[i := y]) h1" by (simp add: copy_element_def e [OF g(1)] c l)
  have b: "?b < length h1" using g(2) grown_length [OF k(2)] by simp
  have "behind val reach ?b (val h (?xs ! j)) h1 ((load prj g ?b)[i := y] ! j)" if "j < Suc i" for j
  proof (cases "j = i")
    case True
    thus ?thesis using copy_behind [OF g(1,2) rx c] g(3) Suc.prems(1) by simp
  next
    case False
    thus ?thesis using that g(4) behind_grown [OF _ k(2)] by simp
  qed
  hence "\<forall>j<Suc i. behind val reach ?b (val h (?xs ! j)) hi ((load prj g ?b)[i := y] ! j)"
    by (simp add: h store_def behind_store)
  thus ?case
    using b g(3) grown_update [OF k(1)] by (simp add: h) (simp add: store_def)
qed

lemma deep_copy_each: "deep_copy (slice_val prj val) (slice_reach prj reach) (copy_each emb prj copy)"
proof (rule deep_copy.intro, rule memory_slice, unfold_locales)
  fix h s h' s'
  assume r: "slice_reach prj reach h s \<subseteq> {..<length h}" and c: "copy_each emb prj copy h s = (h', s')"
  show "copied (slice_val prj val) (slice_reach prj reach) h s h' s'"
  proof (cases s)
    case NilSlice
    with c show ?thesis by (auto simp: copy_each_def copied_def slice_val_def slice_reach_def)
  next
    case (Slice a off n)
    let ?xs = "elements prj h s"
    have h': "h' = foldl (copy_element emb prj copy s (length h)) (h @ [emb ?xs]) [0..<length ?xs]"
      and s': "s' = Slice (length h) 0 (length ?xs)"
      using c by (auto simp: copy_each_def Slice alloc_def)
    have rx: "reach h x \<subseteq> {..<length h}" if "x \<in> set ?xs" for x
      using r that by (auto simp: slice_reach_def Slice)
    have e: "elements prj g s = ?xs" if "grown h g" for g
      using r agree_load [OF that [unfolded grown_def], of a prj] by (simp add: slice_reach_def Slice)
    from copy_each_loop [OF rx e order_refl h'] have
      k: "grown h h'" "length h < length h'" "length (load prj h' (length h)) = length ?xs"
        "\<forall>j<length ?xs. behind val reach (length h) (val h (?xs ! j)) h' (load prj h' (length h) ! j)"
      by simp_all
    have e': "elements prj h' s' = load prj h' (length h)" using k(3) by (simp add: s')
    have "slice_val prj val h' s' = slice_val prj val h s"
      using k(3,4) by (auto simp: slice_val_def e' behind_def intro: nth_equalityI)
    moreover have "reach h' y \<subseteq> {length h..<length h'}" if "y \<in> set (elements prj h' s')" for y
      using that k(3,4) unfolding e' in_set_conv_nth behind_def by fastforce
    hence "slice_reach prj reach h' s' \<subseteq> {length h..<length h'}"
      using k(2) e' by (auto simp: slice_reach_def s' subset_iff)
    ultimately show ?thesis using k(1) by (simp add: copied_def)
  qed
qed

end

text \<open>The built-in \<open>copy\<close> is enough for elements without references.\<close>

context cells begin

lemma deep_copy_slice: "deep_copy (slice_val prj plain_val) (slice_reach prj plain_reach) (copy_slice emb prj)"
proof
  fix h s h'
  assume "agree (slice_reach prj plain_reach h s) h (h' :: 'c list)"
  hence "elements prj h' s = elements prj h s"
    by (cases s) (auto simp: slice_reach_def dest: agree_load [where prj = prj])
  thus "slice_val prj plain_val h' s = slice_val prj plain_val h s"
    and "slice_reach prj plain_reach h' s = slice_reach prj plain_reach h s"
    by (simp_all add: slice_val_def slice_reach_def plain_val_def plain_reach_def split: slice.split)
next
  fix h s h' s'
  assume c: "copy_slice emb prj h s = (h', s')"
  show "copied (slice_val prj plain_val) (slice_reach prj plain_reach) h s h' s'"
  proof (cases s)
    case NilSlice
    with c show ?thesis by (auto simp: copy_slice_def copied_def slice_val_def slice_reach_def)
  next
    case (Slice a off n)
    with c have h': "h' = h @ [emb (elements prj h s)]" "s' = Slice (length h) 0 (length (elements prj h s))"
      by (auto simp: copy_slice_def alloc_def)
    hence "elements prj h' s' = elements prj h s" by (simp add: load_append)
    thus ?thesis
      by (auto simp: copied_def slice_val_def slice_reach_def plain_val_def plain_reach_def h' simp del: elements.simps)
  qed
qed

end

locale stored_map = stored val reach copy emb prj + table: cells memb mprj
  for val :: "'c list \<Rightarrow> 'a \<Rightarrow> 'v" and reach :: "'c list \<Rightarrow> 'a \<Rightarrow> addr set"
    and copy :: "'c list \<Rightarrow> 'a \<Rightarrow> 'c list \<times> 'a"
    and emb :: "'a list \<Rightarrow> 'c" and prj :: "'c \<Rightarrow> 'a list"
    and memb :: "(string \<times> 'a) list \<Rightarrow> 'c" and mprj :: "'c \<Rightarrow> (string \<times> 'a) list"
begin

lemma memory_map: "memory (map_val mprj val) (map_reach mprj reach)"
proof
  fix h p h'
  assume a: "agree (map_reach mprj reach h p) h (h' :: 'c list)"
  show "map_val mprj val h' p = map_val mprj val h p" "map_reach mprj reach h' p = map_reach mprj reach h p"
  proof -
    have "load mprj h' b = load mprj h b" if "p = Some b" for b
      using a that by (intro agree_load) (auto simp: map_reach_def)
    moreover have "agree (reach h x) h h'" if "p = Some b" "x \<in> snd ` set (load mprj h b)" for b x
      using a that unfolding map_reach_def agree_def by (fastforce simp: image_iff)
    hence "val h' x = val h x" "reach h' x = reach h x" if "p = Some b" "x \<in> snd ` set (load mprj h b)" for b x
      using that frame_val frame_reach by blast+
    ultimately show "map_val mprj val h' p = map_val mprj val h p" "map_reach mprj reach h' p = map_reach mprj reach h p"
      by (cases p; force simp: map_val_def map_reach_def intro!: arg_cong [where f = map_entries] split: option.split)+
  qed
qed

lemma copy_map_loop:
  assumes a: "a < length h"
    and r: "\<And>x. x \<in> snd ` set (load mprj h a) \<Longrightarrow> reach h x \<subseteq> {..<length h}"
    and "set ks \<subseteq> dom (map_of (load mprj h a))"
    and "hi = foldl (copy_entry memb mprj (DeepCopy emb copy) prj a (length h)) (h @ [memb []]) ks"
  shows "grown h hi \<and> length h < length hi \<and> distinct (go_keys (load mprj hi (length h))) \<and>
    dom (map_of (load mprj hi (length h))) = set ks \<and>
    (\<forall>k y. map_of (load mprj hi (length h)) k = Some y \<longrightarrow>
       behind val reach (length h) (val h (the (map_of (load mprj h a) k))) hi y)"
  using assms(3,4)
proof (induction ks arbitrary: hi rule: rev_induct)
  case Nil
  thus ?case by (simp add: load_append go_keys_def)
next
  case (snoc k ks)
  let ?b = "length h" and ?t = "load mprj h a"
  define g where "g = foldl (copy_entry memb mprj (DeepCopy emb copy) prj a ?b) (h @ [memb []]) ks"
  from snoc.IH [OF _ g_def] snoc.prems(1) have
    g: "grown h g" "?b < length g" "distinct (go_keys (load mprj g ?b))" "dom (map_of (load mprj g ?b)) = set ks"
      "\<And>k y. map_of (load mprj g ?b) k = Some y \<Longrightarrow> behind val reach ?b (val h (the (map_of ?t k))) g y"
    by simp_all
  obtain x where x: "map_of ?t k = Some x" using snoc.prems(1) by auto
  hence rx: "reach h x \<subseteq> {..<length h}" by (intro r) (force dest: map_of_SomeD)
  obtain h1 q where n: "new_copy emb copy g x = (h1, q)" by (metis surj_pair)
  from new_copy_copies [OF g(1) rx n] obtain y where
    k: "grown h h1" "grown g h1" "q = length g" "q < length h1" "deref prj h1 (Some q) = Some y"
      "behind val reach q (val h x) h1 y"
    by blast
  have l: "load mprj g a = ?t" using agree_load [OF g(1) [unfolded grown_def], of a mprj] a by simp
  have lb: "load mprj h1 ?b = load mprj g ?b"
    using agree_load [OF k(2) [unfolded grown_def], of ?b mprj] g(2) by simp
  let ?m = "AList.update k y (load mprj g ?b)"
  have "hi = copy_entry memb mprj (DeepCopy emb copy) prj a ?b g k" using snoc.prems(2) by (simp add: g_def)
  hence hi: "hi = store memb ?b ?m h1" by (simp add: copy_entry_def DeepCopy_def l x n k(5) lb)
  have b: "?b < length h1" using g(2) grown_length [OF k(2)] by simp
  have li: "load mprj hi ?b = ?m" using b by (simp add: hi)
  have y: "behind val reach ?b (val h x) h1 y" using k(3,6) g(2) by (auto simp: behind_def)
  have "behind val reach ?b (val h (the (map_of ?t k'))) h1 z" if "map_of ?m k' = Some z" for k' z
    using that y x behind_grown [OF g(5) k(2)] by (auto simp: update_conv' split: if_splits)
  hence "\<forall>k' z. map_of ?m k' = Some z \<longrightarrow> behind val reach ?b (val h (the (map_of ?t k'))) hi z"
    by (simp add: hi store_def behind_store)
  moreover have "distinct (go_keys ?m)" using g(3) by (simp add: go_keys_def distinct_update)
  moreover have "dom (map_of ?m) = set (ks @ [k])" using g(4) by (simp add: update_conv' dom_fun_upd)
  moreover have "grown h hi" using grown_update [OF k(1)] by (simp add: hi store_def)
  ultimately show ?case using b unfolding li by (simp add: hi store_def)
qed

lemma map_of_values: "map_of (map (apsnd f) m) = map_option f \<circ> map_of m"
  by (induction m) (auto simp: fun_eq_iff)

lemma deep_copy_map:
  assumes ord: "\<And>ks. set (ord ks) = set ks"
  shows "deep_copy (map_val mprj val) (map_reach mprj reach) (copy_map ord memb mprj (DeepCopy emb copy) prj)"
proof (rule deep_copy.intro, rule memory_map, unfold_locales)
  fix h p h' p'
  assume r: "map_reach mprj reach h p \<subseteq> {..<length h}"
    and c: "copy_map ord memb mprj (DeepCopy emb copy) prj h p = (h', p')"
  show "copied (map_val mprj val) (map_reach mprj reach) h p h' p'"
  proof (cases p)
    case None
    with c show ?thesis by (auto simp: copy_map_def copied_def map_val_def map_reach_def)
  next
    case (Some a)
    let ?b = "length h" and ?t = "load mprj h a" and ?ks = "ord (go_keys (load mprj h a))"
    have h': "h' = foldl (copy_entry memb mprj (DeepCopy emb copy) prj a ?b) (h @ [memb []]) ?ks" and p': "p' = Some ?b"
      using c by (auto simp: copy_map_def Some alloc_def)
    have a: "a < ?b" and rx: "\<And>x. x \<in> snd ` set ?t \<Longrightarrow> reach h x \<subseteq> {..<?b}"
      using r by (auto simp: map_reach_def Some)
    have ks: "set ?ks = dom (map_of ?t)" by (simp add: ord set_go_keys)
    let ?m = "load mprj h' ?b"
    from copy_map_loop [OF a rx _ h'] have
      k: "grown h h'" "?b < length h'" "distinct (go_keys ?m)" "dom (map_of ?m) = dom (map_of ?t)"
        "\<And>k y. map_of ?m k = Some y \<Longrightarrow> behind val reach ?b (val h (the (map_of ?t k))) h' y"
      by (simp_all add: ks)
    have "map_of (map (apsnd (val h')) ?m) k = map_of (map (apsnd (val h)) ?t) k" for k
    proof (cases "map_of ?m k")
      case None
      hence "map_of ?t k = None" using k(4) by (metis domIff)
      thus ?thesis by (simp add: map_of_values None)
    next
      case (Some y)
      moreover from this obtain x where "map_of ?t k = Some x" using k(4) by blast
      ultimately show ?thesis using k(5) [OF Some] by (simp add: map_of_values behind_def)
    qed
    hence "map_entries (map (apsnd (val h')) ?m) = map_entries (map (apsnd (val h)) ?t)"
      by (intro map_entries_cong) auto
    moreover have "reach h' y \<subseteq> {?b..<length h'}" if "(l, y) \<in> set ?m" for l y
      using k(5) [of l y] map_of_is_SomeI [OF _ that] k(3) by (fastforce simp: go_keys_def behind_def)
    hence "map_reach mprj reach h' p' \<subseteq> {?b..<length h'}" using k(2) by (fastforce simp: map_reach_def p')
    ultimately show ?thesis using k(1) by (simp add: copied_def map_val_def Some p')
  qed
qed

end

end
