(* ===== verification/Api_Memory.thy ===== *)
theory Api_Memory
  imports Go_Copy Api_Types
begin

text \<open>
  The structs of \<^verbatim>\<open>api/v1alpha1\<close> as they lie in memory: a slice, map or pointer field is a reference
  to a cell, a nested struct lies inside the outer one, and a string is a value.  Structs of the
  Kubernetes libraries are images \<open>'m\<close> the program cannot look into.  The functions \<open>..._value\<close> read
  off a struct in memory the record of \<^theory_text>\<open>Api_Types\<close> it stands for.
\<close>

section \<open>Structs in memory\<close>

type_synonym pointer = "addr option"

record 'm storage_spec_mem =
  mstorage_size :: 'm
  mstorage_className :: pointer

record config_value_mem =
  mcv_value :: string
  mcv_secretKeyRef :: pointer

record server_spec_mem =
  mss_gameDefinition :: string
  mss_config :: pointer
  mss_appId :: pointer
  mss_image :: string
  mss_ports :: slice
  mss_command :: slice
  mss_args :: slice
  mss_env :: slice
  mss_configFiles :: slice
  mss_storage :: pointer
  mss_resources :: pointer
  mss_serviceType :: string
  mss_beta :: string
  mss_validate :: pointer
  mss_anonymous :: pointer
  mss_steamCredentialsSecret :: string

record server_status_mem =
  mst_state :: server_state
  mst_address :: string
  mst_ports :: slice
  mst_lastUpdated :: pointer
  mst_appBuildId :: string
  mst_message :: string
  mst_conditions :: slice

text \<open>\<open>TypeMeta\<close> is the kind and the API version.\<close>

record 'm server_mem =
  mserver_type :: "string \<times> string"
  mserver_meta :: 'm
  mserver_spec :: server_spec_mem
  mserver_status :: server_status_mem

record 'm server_list_mem =
  mservers_type :: "string \<times> string"
  mservers_meta :: 'm
  mservers_items :: slice

record schema_entry_mem =
  mcse_description :: string
  mcse_default :: string
  mcse_required :: bool
  mcse_secret :: bool
  mcse_enum :: slice
  mcse_array :: bool
  mcse_mapTo :: pointer

record health_check_mem =
  mhc_tcpSocket :: pointer
  mhc_initialDelaySeconds :: int32
  mhc_periodSeconds :: int32

record 'm gamedef_spec_mem =
  mgd_appId :: int32
  mgd_image :: string
  mgd_installDir :: string
  mgd_command :: string
  mgd_args :: slice
  mgd_ports :: slice
  mgd_env :: slice
  mgd_configSchema :: pointer
  mgd_configFiles :: slice
  mgd_defaultResources :: 'm
  mgd_defaultStorage :: string
  mgd_healthCheck :: pointer

record gamedef_status_mem =
  mgds_ready :: bool
  mgds_message :: string
  mgds_conditions :: slice

record 'm gamedef_mem =
  mgamedef_type :: "string \<times> string"
  mgamedef_meta :: 'm
  mgamedef_spec :: "'m gamedef_spec_mem"
  mgamedef_status :: gamedef_status_mem

record 'm gamedef_list_mem =
  mgamedefs_type :: "string \<times> string"
  mgamedefs_meta :: 'm
  mgamedefs_items :: slice

section \<open>Cells\<close>

text \<open>
  A cell is an array of one type, or the table of a map.  \<open>CImages\<close> are the arrays of library structs
  and the cells the libraries make for themselves.
\<close>

datatype 'm cell =
    CStrings "string list"
  | CInt32s "int32 list"
  | CBools "bool list"
  | CSockets "string list"
  | CServerPorts "server_port list"
  | CConfigFiles "config_file list"
  | CPortStatuses "port_status list"
  | CConfigMappings "config_mapping list"
  | CConfigFileTemplates "config_file_template list"
  | CConfigValues "config_value_mem list"
  | CConfig "(string \<times> config_value_mem) list"
  | CSchemaEntries "schema_entry_mem list"
  | CSchema "(string \<times> schema_entry_mem) list"
  | CHealthChecks "health_check_mem list"
  | CStorageSpecs "'m storage_spec_mem list"
  | CServerSpecs "server_spec_mem list"
  | CServerStatuses "server_status_mem list"
  | CServers "'m server_mem list"
  | CServerLists "'m server_list_mem list"
  | CGamedefSpecs "'m gamedef_spec_mem list"
  | CGamedefStatuses "gamedef_status_mem list"
  | CGamedefs "'m gamedef_mem list"
  | CGamedefLists "'m gamedef_list_mem list"
  | CImages "'m list"

type_synonym 'm heap = "'m cell list"

definition "as_strings c = (case c of CStrings xs \<Rightarrow> xs | _ \<Rightarrow> [])"
definition "as_int32s c = (case c of CInt32s xs \<Rightarrow> xs | _ \<Rightarrow> [])"
definition "as_bools c = (case c of CBools xs \<Rightarrow> xs | _ \<Rightarrow> [])"
definition "as_sockets c = (case c of CSockets xs \<Rightarrow> xs | _ \<Rightarrow> [])"
definition "as_server_ports c = (case c of CServerPorts xs \<Rightarrow> xs | _ \<Rightarrow> [])"
definition "as_config_files c = (case c of CConfigFiles xs \<Rightarrow> xs | _ \<Rightarrow> [])"
definition "as_port_statuses c = (case c of CPortStatuses xs \<Rightarrow> xs | _ \<Rightarrow> [])"
definition "as_config_mappings c = (case c of CConfigMappings xs \<Rightarrow> xs | _ \<Rightarrow> [])"
definition "as_config_file_templates c = (case c of CConfigFileTemplates xs \<Rightarrow> xs | _ \<Rightarrow> [])"
definition "as_config_values c = (case c of CConfigValues xs \<Rightarrow> xs | _ \<Rightarrow> [])"
definition "as_config c = (case c of CConfig xs \<Rightarrow> xs | _ \<Rightarrow> [])"
definition "as_schema_entries c = (case c of CSchemaEntries xs \<Rightarrow> xs | _ \<Rightarrow> [])"
definition "as_schema c = (case c of CSchema xs \<Rightarrow> xs | _ \<Rightarrow> [])"
definition "as_health_checks c = (case c of CHealthChecks xs \<Rightarrow> xs | _ \<Rightarrow> [])"
definition "as_storage_specs c = (case c of CStorageSpecs xs \<Rightarrow> xs | _ \<Rightarrow> [])"
definition "as_server_specs c = (case c of CServerSpecs xs \<Rightarrow> xs | _ \<Rightarrow> [])"
definition "as_server_statuses c = (case c of CServerStatuses xs \<Rightarrow> xs | _ \<Rightarrow> [])"
definition "as_servers c = (case c of CServers xs \<Rightarrow> xs | _ \<Rightarrow> [])"
definition "as_server_lists c = (case c of CServerLists xs \<Rightarrow> xs | _ \<Rightarrow> [])"
definition "as_gamedef_specs c = (case c of CGamedefSpecs xs \<Rightarrow> xs | _ \<Rightarrow> [])"
definition "as_gamedef_statuses c = (case c of CGamedefStatuses xs \<Rightarrow> xs | _ \<Rightarrow> [])"
definition "as_gamedefs c = (case c of CGamedefs xs \<Rightarrow> xs | _ \<Rightarrow> [])"
definition "as_gamedef_lists c = (case c of CGamedefLists xs \<Rightarrow> xs | _ \<Rightarrow> [])"
definition "as_images c = (case c of CImages xs \<Rightarrow> xs | _ \<Rightarrow> [])"

interpretation strings_cell: cells CStrings as_strings
  by unfold_locales (simp add: as_strings_def)
interpretation int32s_cell: cells CInt32s as_int32s
  by unfold_locales (simp add: as_int32s_def)
interpretation bools_cell: cells CBools as_bools
  by unfold_locales (simp add: as_bools_def)
interpretation sockets_cell: cells CSockets as_sockets
  by unfold_locales (simp add: as_sockets_def)
interpretation server_ports_cell: cells CServerPorts as_server_ports
  by unfold_locales (simp add: as_server_ports_def)
interpretation config_files_cell: cells CConfigFiles as_config_files
  by unfold_locales (simp add: as_config_files_def)
interpretation port_statuses_cell: cells CPortStatuses as_port_statuses
  by unfold_locales (simp add: as_port_statuses_def)
interpretation config_mappings_cell: cells CConfigMappings as_config_mappings
  by unfold_locales (simp add: as_config_mappings_def)
interpretation config_file_templates_cell: cells CConfigFileTemplates as_config_file_templates
  by unfold_locales (simp add: as_config_file_templates_def)
interpretation config_values_cell: cells CConfigValues as_config_values
  by unfold_locales (simp add: as_config_values_def)
interpretation config_cell: cells CConfig as_config
  by unfold_locales (simp add: as_config_def)
interpretation schema_entries_cell: cells CSchemaEntries as_schema_entries
  by unfold_locales (simp add: as_schema_entries_def)
interpretation schema_cell: cells CSchema as_schema
  by unfold_locales (simp add: as_schema_def)
interpretation health_checks_cell: cells CHealthChecks as_health_checks
  by unfold_locales (simp add: as_health_checks_def)
interpretation storage_specs_cell: cells CStorageSpecs as_storage_specs
  by unfold_locales (simp add: as_storage_specs_def)
interpretation server_specs_cell: cells CServerSpecs as_server_specs
  by unfold_locales (simp add: as_server_specs_def)
interpretation server_statuses_cell: cells CServerStatuses as_server_statuses
  by unfold_locales (simp add: as_server_statuses_def)
interpretation servers_cell: cells CServers as_servers
  by unfold_locales (simp add: as_servers_def)
interpretation server_lists_cell: cells CServerLists as_server_lists
  by unfold_locales (simp add: as_server_lists_def)
interpretation gamedef_specs_cell: cells CGamedefSpecs as_gamedef_specs
  by unfold_locales (simp add: as_gamedef_specs_def)
interpretation gamedef_statuses_cell: cells CGamedefStatuses as_gamedef_statuses
  by unfold_locales (simp add: as_gamedef_statuses_def)
interpretation gamedefs_cell: cells CGamedefs as_gamedefs
  by unfold_locales (simp add: as_gamedefs_def)
interpretation gamedef_lists_cell: cells CGamedefLists as_gamedef_lists
  by unfold_locales (simp add: as_gamedef_lists_def)
interpretation images_cell: cells CImages as_images
  by unfold_locales (simp add: as_images_def)

end
