(* ===== verification/Deep_Copy.thy ===== *)
theory Deep_Copy
  imports Api_Memory
begin

text \<open>
  The copying functions of \<^verbatim>\<open>api/v1alpha1/zz_generated.deepcopy.go\<close>, statement by statement.  The client
  hands out copies that these functions make of the objects in its cache, and the controllers write
  into them.  \<open>DeepCopyInto\<close> takes the struct \<open>*in\<close> and returns what it leaves in \<open>*out\<close>.
\<close>

section \<open>The library's structs\<close>

text \<open>
  The library structs the types contain, each with its own copying function, the value of an image
  and the cells it is spread over.
\<close>

datatype library_type =
  ObjectMeta | ListMeta | EnvVar | ResourceRequirements | SecretKeySelector | Condition | Quantity | Time

record 'm copylib =
  lib_copy :: "library_type \<Rightarrow> 'm heap \<Rightarrow> 'm \<Rightarrow> 'm heap \<times> 'm"
  lib_reach :: "'m heap \<Rightarrow> 'm \<Rightarrow> addr set"
  ObjectMeta_value :: "'m heap \<Rightarrow> 'm \<Rightarrow> object_meta"
  ListMeta_value :: "'m heap \<Rightarrow> 'm \<Rightarrow> string"
  EnvVar_value :: "'m heap \<Rightarrow> 'm \<Rightarrow> env_var"
  ResourceRequirements_value :: "'m heap \<Rightarrow> 'm \<Rightarrow> resource_requirements"
  SecretKeySelector_value :: "'m heap \<Rightarrow> 'm \<Rightarrow> secret_key_selector"
  Condition_value :: "'m heap \<Rightarrow> 'm \<Rightarrow> string"
  Quantity_value :: "'m heap \<Rightarrow> 'm \<Rightarrow> quantity"
  Time_value :: "'m heap \<Rightarrow> 'm \<Rightarrow> nat"

section \<open>The copying functions\<close>

text \<open>Structs without references are copied by \<open>*out = *in\<close>.\<close>

definition ConfigFile_DeepCopyInto :: "'m heap \<Rightarrow> config_file \<Rightarrow> 'm heap \<times> config_file" where
  "ConfigFile_DeepCopyInto h inn = (h, inn)"

definition ConfigFile_DeepCopy :: "'m heap \<Rightarrow> config_file option \<Rightarrow> 'm heap \<times> pointer" where
  "ConfigFile_DeepCopy = DeepCopy CConfigFiles ConfigFile_DeepCopyInto"

definition ConfigFileTemplate_DeepCopyInto :: "'m heap \<Rightarrow> config_file_template \<Rightarrow> 'm heap \<times> config_file_template" where
  "ConfigFileTemplate_DeepCopyInto h inn = (h, inn)"

definition ConfigFileTemplate_DeepCopy :: "'m heap \<Rightarrow> config_file_template option \<Rightarrow> 'm heap \<times> pointer" where
  "ConfigFileTemplate_DeepCopy = DeepCopy CConfigFileTemplates ConfigFileTemplate_DeepCopyInto"

definition ConfigMapping_DeepCopyInto :: "'m heap \<Rightarrow> config_mapping \<Rightarrow> 'm heap \<times> config_mapping" where
  "ConfigMapping_DeepCopyInto h inn = (h, inn)"

definition ConfigMapping_DeepCopy :: "'m heap \<Rightarrow> config_mapping option \<Rightarrow> 'm heap \<times> pointer" where
  "ConfigMapping_DeepCopy = DeepCopy CConfigMappings ConfigMapping_DeepCopyInto"

definition ConfigSchemaEntry_DeepCopyInto :: "'m heap \<Rightarrow> schema_entry_mem \<Rightarrow> 'm heap \<times> schema_entry_mem" where
  "ConfigSchemaEntry_DeepCopyInto h inn =
     (let (h, enum) = copy_slice CStrings as_strings h (mcse_enum inn);
          (h, mapTo) = copy_ptr CConfigMappings as_config_mappings plain_copy h (mcse_mapTo inn)
      in (h, inn\<lparr>mcse_enum := enum, mcse_mapTo := mapTo\<rparr>))"

definition ConfigSchemaEntry_DeepCopy :: "'m heap \<Rightarrow> schema_entry_mem option \<Rightarrow> 'm heap \<times> pointer" where
  "ConfigSchemaEntry_DeepCopy = DeepCopy CSchemaEntries ConfigSchemaEntry_DeepCopyInto"

definition ConfigValue_DeepCopyInto :: "'m copylib \<Rightarrow> 'm heap \<Rightarrow> config_value_mem \<Rightarrow> 'm heap \<times> config_value_mem" where
  "ConfigValue_DeepCopyInto D h inn =
     (let (h, ref) = copy_ptr CImages as_images (lib_copy D SecretKeySelector) h (mcv_secretKeyRef inn)
      in (h, inn\<lparr>mcv_secretKeyRef := ref\<rparr>))"

definition ConfigValue_DeepCopy :: "'m copylib \<Rightarrow> 'm heap \<Rightarrow> config_value_mem option \<Rightarrow> 'm heap \<times> pointer" where
  "ConfigValue_DeepCopy D = DeepCopy CConfigValues (ConfigValue_DeepCopyInto D)"

definition HealthCheckSpec_DeepCopyInto :: "'m heap \<Rightarrow> health_check_mem \<Rightarrow> 'm heap \<times> health_check_mem" where
  "HealthCheckSpec_DeepCopyInto h inn =
     (let (h, tcpSocket) = copy_ptr CSockets as_sockets plain_copy h (mhc_tcpSocket inn)
      in (h, inn\<lparr>mhc_tcpSocket := tcpSocket\<rparr>))"

definition HealthCheckSpec_DeepCopy :: "'m heap \<Rightarrow> health_check_mem option \<Rightarrow> 'm heap \<times> pointer" where
  "HealthCheckSpec_DeepCopy = DeepCopy CHealthChecks HealthCheckSpec_DeepCopyInto"

definition GameDefinitionSpec_DeepCopyInto ::
  "'m copylib \<Rightarrow> range_order \<Rightarrow> 'm heap \<Rightarrow> 'm gamedef_spec_mem \<Rightarrow> 'm heap \<times> 'm gamedef_spec_mem" where
  "GameDefinitionSpec_DeepCopyInto D it h inn =
     (let (h, args) = copy_slice CStrings as_strings h (mgd_args inn);
          (h, ports) = copy_slice CServerPorts as_server_ports h (mgd_ports inn);
          (h, env) = copy_each CImages as_images (lib_copy D EnvVar) h (mgd_env inn);
          (h, configSchema) = copy_map (it RangeCopySchema) CSchema as_schema
             ConfigSchemaEntry_DeepCopy as_schema_entries h (mgd_configSchema inn);
          (h, configFiles) = copy_slice CConfigFileTemplates as_config_file_templates h (mgd_configFiles inn);
          (h, defaultResources) = lib_copy D ResourceRequirements h (mgd_defaultResources inn);
          (h, healthCheck) = copy_ptr CHealthChecks as_health_checks HealthCheckSpec_DeepCopyInto h (mgd_healthCheck inn)
      in (h, inn\<lparr>mgd_args := args, mgd_ports := ports, mgd_env := env, mgd_configSchema := configSchema,
                 mgd_configFiles := configFiles, mgd_defaultResources := defaultResources,
                 mgd_healthCheck := healthCheck\<rparr>))"

definition GameDefinitionSpec_DeepCopy ::
  "'m copylib \<Rightarrow> range_order \<Rightarrow> 'm heap \<Rightarrow> 'm gamedef_spec_mem option \<Rightarrow> 'm heap \<times> pointer" where
  "GameDefinitionSpec_DeepCopy D it = DeepCopy CGamedefSpecs (GameDefinitionSpec_DeepCopyInto D it)"

definition GameDefinitionStatus_DeepCopyInto ::
  "'m copylib \<Rightarrow> 'm heap \<Rightarrow> gamedef_status_mem \<Rightarrow> 'm heap \<times> gamedef_status_mem" where
  "GameDefinitionStatus_DeepCopyInto D h inn =
     (let (h, conditions) = copy_each CImages as_images (lib_copy D Condition) h (mgds_conditions inn)
      in (h, inn\<lparr>mgds_conditions := conditions\<rparr>))"

definition GameDefinitionStatus_DeepCopy ::
  "'m copylib \<Rightarrow> 'm heap \<Rightarrow> gamedef_status_mem option \<Rightarrow> 'm heap \<times> pointer" where
  "GameDefinitionStatus_DeepCopy D = DeepCopy CGamedefStatuses (GameDefinitionStatus_DeepCopyInto D)"

definition GameDefinition_DeepCopyInto ::
  "'m copylib \<Rightarrow> range_order \<Rightarrow> 'm heap \<Rightarrow> 'm gamedef_mem \<Rightarrow> 'm heap \<times> 'm gamedef_mem" where
  "GameDefinition_DeepCopyInto D it h inn =
     (let (h, objectMeta) = lib_copy D ObjectMeta h (mgamedef_meta inn);
          (h, spec) = GameDefinitionSpec_DeepCopyInto D it h (mgamedef_spec inn);
          (h, status) = GameDefinitionStatus_DeepCopyInto D h (mgamedef_status inn)
      in (h, inn\<lparr>mgamedef_type := mgamedef_type inn, mgamedef_meta := objectMeta, mgamedef_spec := spec,
                 mgamedef_status := status\<rparr>))"

definition GameDefinition_DeepCopy ::
  "'m copylib \<Rightarrow> range_order \<Rightarrow> 'm heap \<Rightarrow> 'm gamedef_mem option \<Rightarrow> 'm heap \<times> pointer" where
  "GameDefinition_DeepCopy D it = DeepCopy CGamedefs (GameDefinition_DeepCopyInto D it)"

text \<open>
  A \<open>runtime.Object\<close> is nil or a pointer with its type; a nil pointer of a type would not be nil.
\<close>

datatype runtime_object =
    GameDefinitionObject pointer | GameDefinitionListObject pointer
  | SteamServerObject pointer | SteamServerListObject pointer

definition as_object :: "(pointer \<Rightarrow> runtime_object) \<Rightarrow> 'm heap \<times> pointer \<Rightarrow> 'm heap \<times> runtime_object option" where
  "as_object T r = (case r of (h, c) \<Rightarrow> (h, if c \<noteq> None then Some (T c) else None))"

definition GameDefinition_DeepCopyObject ::
  "'m copylib \<Rightarrow> range_order \<Rightarrow> 'm heap \<Rightarrow> 'm gamedef_mem option \<Rightarrow> 'm heap \<times> runtime_object option" where
  "GameDefinition_DeepCopyObject D it h inn = as_object GameDefinitionObject (GameDefinition_DeepCopy D it h inn)"

definition GameDefinitionList_DeepCopyInto ::
  "'m copylib \<Rightarrow> range_order \<Rightarrow> 'm heap \<Rightarrow> 'm gamedef_list_mem \<Rightarrow> 'm heap \<times> 'm gamedef_list_mem" where
  "GameDefinitionList_DeepCopyInto D it h inn =
     (let (h, listMeta) = lib_copy D ListMeta h (mgamedefs_meta inn);
          (h, items) = copy_each CGamedefs as_gamedefs (GameDefinition_DeepCopyInto D it) h (mgamedefs_items inn)
      in (h, inn\<lparr>mgamedefs_type := mgamedefs_type inn, mgamedefs_meta := listMeta, mgamedefs_items := items\<rparr>))"

definition GameDefinitionList_DeepCopy ::
  "'m copylib \<Rightarrow> range_order \<Rightarrow> 'm heap \<Rightarrow> 'm gamedef_list_mem option \<Rightarrow> 'm heap \<times> pointer" where
  "GameDefinitionList_DeepCopy D it = DeepCopy CGamedefLists (GameDefinitionList_DeepCopyInto D it)"

definition GameDefinitionList_DeepCopyObject ::
  "'m copylib \<Rightarrow> range_order \<Rightarrow> 'm heap \<Rightarrow> 'm gamedef_list_mem option \<Rightarrow> 'm heap \<times> runtime_object option" where
  "GameDefinitionList_DeepCopyObject D it h inn =
     as_object GameDefinitionListObject (GameDefinitionList_DeepCopy D it h inn)"

definition PortStatus_DeepCopyInto :: "'m heap \<Rightarrow> port_status \<Rightarrow> 'm heap \<times> port_status" where
  "PortStatus_DeepCopyInto h inn = (h, inn)"

definition PortStatus_DeepCopy :: "'m heap \<Rightarrow> port_status option \<Rightarrow> 'm heap \<times> pointer" where
  "PortStatus_DeepCopy = DeepCopy CPortStatuses PortStatus_DeepCopyInto"

definition ServerPort_DeepCopyInto :: "'m heap \<Rightarrow> server_port \<Rightarrow> 'm heap \<times> server_port" where
  "ServerPort_DeepCopyInto h inn = (h, inn)"

definition ServerPort_DeepCopy :: "'m heap \<Rightarrow> server_port option \<Rightarrow> 'm heap \<times> pointer" where
  "ServerPort_DeepCopy = DeepCopy CServerPorts ServerPort_DeepCopyInto"

definition StorageSpec_DeepCopyInto ::
  "'m copylib \<Rightarrow> 'm heap \<Rightarrow> 'm storage_spec_mem \<Rightarrow> 'm heap \<times> 'm storage_spec_mem" where
  "StorageSpec_DeepCopyInto D h inn =
     (let (h, size) = lib_copy D Quantity h (mstorage_size inn);
          (h, className) = copy_ptr CStrings as_strings plain_copy h (mstorage_className inn)
      in (h, inn\<lparr>mstorage_size := size, mstorage_className := className\<rparr>))"

definition StorageSpec_DeepCopy ::
  "'m copylib \<Rightarrow> 'm heap \<Rightarrow> 'm storage_spec_mem option \<Rightarrow> 'm heap \<times> pointer" where
  "StorageSpec_DeepCopy D = DeepCopy CStorageSpecs (StorageSpec_DeepCopyInto D)"

definition SteamServerSpec_DeepCopyInto ::
  "'m copylib \<Rightarrow> range_order \<Rightarrow> 'm heap \<Rightarrow> server_spec_mem \<Rightarrow> 'm heap \<times> server_spec_mem" where
  "SteamServerSpec_DeepCopyInto D it h inn =
     (let (h, config) = copy_map (it RangeCopyConfig) CConfig as_config
             (ConfigValue_DeepCopy D) as_config_values h (mss_config inn);
          (h, appId) = copy_ptr CInt32s as_int32s plain_copy h (mss_appId inn);
          (h, ports) = copy_slice CServerPorts as_server_ports h (mss_ports inn);
          (h, command) = copy_slice CStrings as_strings h (mss_command inn);
          (h, args) = copy_slice CStrings as_strings h (mss_args inn);
          (h, env) = copy_each CImages as_images (lib_copy D EnvVar) h (mss_env inn);
          (h, configFiles) = copy_slice CConfigFiles as_config_files h (mss_configFiles inn);
          (h, storage) = copy_ptr CStorageSpecs as_storage_specs (StorageSpec_DeepCopyInto D) h (mss_storage inn);
          (h, resources) = copy_ptr CImages as_images (lib_copy D ResourceRequirements) h (mss_resources inn);
          (h, validate) = copy_ptr CBools as_bools plain_copy h (mss_validate inn);
          (h, anonymous) = copy_ptr CBools as_bools plain_copy h (mss_anonymous inn)
      in (h, inn\<lparr>mss_config := config, mss_appId := appId, mss_ports := ports, mss_command := command,
                 mss_args := args, mss_env := env, mss_configFiles := configFiles, mss_storage := storage,
                 mss_resources := resources, mss_validate := validate, mss_anonymous := anonymous\<rparr>))"

definition SteamServerSpec_DeepCopy ::
  "'m copylib \<Rightarrow> range_order \<Rightarrow> 'm heap \<Rightarrow> server_spec_mem option \<Rightarrow> 'm heap \<times> pointer" where
  "SteamServerSpec_DeepCopy D it = DeepCopy CServerSpecs (SteamServerSpec_DeepCopyInto D it)"

definition SteamServerStatus_DeepCopyInto ::
  "'m copylib \<Rightarrow> 'm heap \<Rightarrow> server_status_mem \<Rightarrow> 'm heap \<times> server_status_mem" where
  "SteamServerStatus_DeepCopyInto D h inn =
     (let (h, ports) = copy_slice CPortStatuses as_port_statuses h (mst_ports inn);
          (h, lastUpdated) = copy_ptr CImages as_images (lib_copy D Time) h (mst_lastUpdated inn);
          (h, conditions) = copy_each CImages as_images (lib_copy D Condition) h (mst_conditions inn)
      in (h, inn\<lparr>mst_ports := ports, mst_lastUpdated := lastUpdated, mst_conditions := conditions\<rparr>))"

definition SteamServerStatus_DeepCopy ::
  "'m copylib \<Rightarrow> 'm heap \<Rightarrow> server_status_mem option \<Rightarrow> 'm heap \<times> pointer" where
  "SteamServerStatus_DeepCopy D = DeepCopy CServerStatuses (SteamServerStatus_DeepCopyInto D)"

definition SteamServer_DeepCopyInto ::
  "'m copylib \<Rightarrow> range_order \<Rightarrow> 'm heap \<Rightarrow> 'm server_mem \<Rightarrow> 'm heap \<times> 'm server_mem" where
  "SteamServer_DeepCopyInto D it h inn =
     (let (h, objectMeta) = lib_copy D ObjectMeta h (mserver_meta inn);
          (h, spec) = SteamServerSpec_DeepCopyInto D it h (mserver_spec inn);
          (h, status) = SteamServerStatus_DeepCopyInto D h (mserver_status inn)
      in (h, inn\<lparr>mserver_type := mserver_type inn, mserver_meta := objectMeta, mserver_spec := spec,
                 mserver_status := status\<rparr>))"

definition SteamServer_DeepCopy ::
  "'m copylib \<Rightarrow> range_order \<Rightarrow> 'm heap \<Rightarrow> 'm server_mem option \<Rightarrow> 'm heap \<times> pointer" where
  "SteamServer_DeepCopy D it = DeepCopy CServers (SteamServer_DeepCopyInto D it)"

definition SteamServer_DeepCopyObject ::
  "'m copylib \<Rightarrow> range_order \<Rightarrow> 'm heap \<Rightarrow> 'm server_mem option \<Rightarrow> 'm heap \<times> runtime_object option" where
  "SteamServer_DeepCopyObject D it h inn = as_object SteamServerObject (SteamServer_DeepCopy D it h inn)"

definition SteamServerList_DeepCopyInto ::
  "'m copylib \<Rightarrow> range_order \<Rightarrow> 'm heap \<Rightarrow> 'm server_list_mem \<Rightarrow> 'm heap \<times> 'm server_list_mem" where
  "SteamServerList_DeepCopyInto D it h inn =
     (let (h, listMeta) = lib_copy D ListMeta h (mservers_meta inn);
          (h, items) = copy_each CServers as_servers (SteamServer_DeepCopyInto D it) h (mservers_items inn)
      in (h, inn\<lparr>mservers_type := mservers_type inn, mservers_meta := listMeta, mservers_items := items\<rparr>))"

definition SteamServerList_DeepCopy ::
  "'m copylib \<Rightarrow> range_order \<Rightarrow> 'm heap \<Rightarrow> 'm server_list_mem option \<Rightarrow> 'm heap \<times> pointer" where
  "SteamServerList_DeepCopy D it = DeepCopy CServerLists (SteamServerList_DeepCopyInto D it)"

definition SteamServerList_DeepCopyObject ::
  "'m copylib \<Rightarrow> range_order \<Rightarrow> 'm heap \<Rightarrow> 'm server_list_mem option \<Rightarrow> 'm heap \<times> runtime_object option" where
  "SteamServerList_DeepCopyObject D it h inn = as_object SteamServerListObject (SteamServerList_DeepCopy D it h inn)"

end
