(* ===== verification/Deep_Copy_Laws.thy ===== *)
theory Deep_Copy_Laws
  imports Deep_Copy
begin

text \<open>
  The copying functions of \<^theory_text>\<open>Deep_Copy\<close> make deep copies: the value of the copy is that of the
  original, and the two share no cell.  This is why the rest of the development may treat the
  objects a client returns as values.
\<close>

section \<open>Values\<close>

definition ConfigSchemaEntry_value :: "'m heap \<Rightarrow> schema_entry_mem \<Rightarrow> config_schema_entry" where
  "ConfigSchemaEntry_value h x =
     \<lparr>cse_description = mcse_description x, cse_default = mcse_default x, cse_required = mcse_required x,
      cse_secret = mcse_secret x, cse_enum = slice_val as_strings plain_val h (mcse_enum x),
      cse_array = mcse_array x, cse_mapTo = ptr_val as_config_mappings plain_val h (mcse_mapTo x)\<rparr>"

definition ConfigSchemaEntry_reach :: "'m heap \<Rightarrow> schema_entry_mem \<Rightarrow> addr set" where
  "ConfigSchemaEntry_reach h x =
     slice_reach as_strings plain_reach h (mcse_enum x) \<union>
     ptr_reach as_config_mappings plain_reach h (mcse_mapTo x)"

definition ConfigValue_value :: "'m copylib \<Rightarrow> 'm heap \<Rightarrow> config_value_mem \<Rightarrow> config_value" where
  "ConfigValue_value D h x =
     \<lparr>cv_value = mcv_value x, cv_secretKeyRef = ptr_val as_images (SecretKeySelector_value D) h (mcv_secretKeyRef x)\<rparr>"

definition ConfigValue_reach :: "'m copylib \<Rightarrow> 'm heap \<Rightarrow> config_value_mem \<Rightarrow> addr set" where
  "ConfigValue_reach D h x = ptr_reach as_images (lib_reach D) h (mcv_secretKeyRef x)"

definition HealthCheckSpec_value :: "'m heap \<Rightarrow> health_check_mem \<Rightarrow> health_check_spec" where
  "HealthCheckSpec_value h x =
     \<lparr>hc_tcpSocket = ptr_val as_sockets plain_val h (mhc_tcpSocket x),
      hc_initialDelaySeconds = mhc_initialDelaySeconds x, hc_periodSeconds = mhc_periodSeconds x\<rparr>"

definition HealthCheckSpec_reach :: "'m heap \<Rightarrow> health_check_mem \<Rightarrow> addr set" where
  "HealthCheckSpec_reach h x = ptr_reach as_sockets plain_reach h (mhc_tcpSocket x)"

definition GameDefinitionSpec_value :: "'m copylib \<Rightarrow> 'm heap \<Rightarrow> 'm gamedef_spec_mem \<Rightarrow> game_definition_spec" where
  "GameDefinitionSpec_value D h x =
     \<lparr>gd_appId = mgd_appId x, gd_image = mgd_image x, gd_installDir = mgd_installDir x,
      gd_command = mgd_command x, gd_args = slice_val as_strings plain_val h (mgd_args x),
      gd_ports = slice_val as_server_ports plain_val h (mgd_ports x),
      gd_env = slice_val as_images (EnvVar_value D) h (mgd_env x),
      gd_configSchema = map_val as_schema ConfigSchemaEntry_value h (mgd_configSchema x),
      gd_configFiles = slice_val as_config_file_templates plain_val h (mgd_configFiles x),
      gd_defaultResources = ResourceRequirements_value D h (mgd_defaultResources x),
      gd_defaultStorage = mgd_defaultStorage x,
      gd_healthCheck = ptr_val as_health_checks HealthCheckSpec_value h (mgd_healthCheck x)\<rparr>"

definition GameDefinitionSpec_reach :: "'m copylib \<Rightarrow> 'm heap \<Rightarrow> 'm gamedef_spec_mem \<Rightarrow> addr set" where
  "GameDefinitionSpec_reach D h x =
     slice_reach as_strings plain_reach h (mgd_args x) \<union>
     (slice_reach as_server_ports plain_reach h (mgd_ports x) \<union>
     (slice_reach as_images (lib_reach D) h (mgd_env x) \<union>
     (map_reach as_schema ConfigSchemaEntry_reach h (mgd_configSchema x) \<union>
     (slice_reach as_config_file_templates plain_reach h (mgd_configFiles x) \<union>
     (lib_reach D h (mgd_defaultResources x) \<union>
      ptr_reach as_health_checks HealthCheckSpec_reach h (mgd_healthCheck x))))))"

definition GameDefinitionStatus_value :: "'m copylib \<Rightarrow> 'm heap \<Rightarrow> gamedef_status_mem \<Rightarrow> game_definition_status" where
  "GameDefinitionStatus_value D h x =
     \<lparr>gds_ready = mgds_ready x, gds_message = mgds_message x,
      gds_conditions = slice_val as_images (Condition_value D) h (mgds_conditions x)\<rparr>"

definition GameDefinitionStatus_reach :: "'m copylib \<Rightarrow> 'm heap \<Rightarrow> gamedef_status_mem \<Rightarrow> addr set" where
  "GameDefinitionStatus_reach D h x = slice_reach as_images (lib_reach D) h (mgds_conditions x)"

text \<open>The records of \<^theory_text>\<open>Api_Types\<close> leave out \<open>TypeMeta\<close>; it is the first part of the value.\<close>

definition GameDefinition_value :: "'m copylib \<Rightarrow> 'm heap \<Rightarrow> 'm gamedef_mem \<Rightarrow> (string \<times> string) \<times> game_definition" where
  "GameDefinition_value D h x =
     (mgamedef_type x,
      \<lparr>gamedef_meta = ObjectMeta_value D h (mgamedef_meta x),
       gamedef_spec = GameDefinitionSpec_value D h (mgamedef_spec x),
       gamedef_status = GameDefinitionStatus_value D h (mgamedef_status x)\<rparr>)"

definition GameDefinition_reach :: "'m copylib \<Rightarrow> 'm heap \<Rightarrow> 'm gamedef_mem \<Rightarrow> addr set" where
  "GameDefinition_reach D h x =
     lib_reach D h (mgamedef_meta x) \<union>
     (GameDefinitionSpec_reach D h (mgamedef_spec x) \<union> GameDefinitionStatus_reach D h (mgamedef_status x))"

text \<open>A list has the value of its type, its metadata and its items.\<close>

definition GameDefinitionList_value ::
  "'m copylib \<Rightarrow> 'm heap \<Rightarrow> 'm gamedef_list_mem \<Rightarrow> (string \<times> string) \<times> string \<times> ((string \<times> string) \<times> game_definition) list" where
  "GameDefinitionList_value D h x =
     (mgamedefs_type x, ListMeta_value D h (mgamedefs_meta x),
      slice_val as_gamedefs (GameDefinition_value D) h (mgamedefs_items x))"

definition GameDefinitionList_reach :: "'m copylib \<Rightarrow> 'm heap \<Rightarrow> 'm gamedef_list_mem \<Rightarrow> addr set" where
  "GameDefinitionList_reach D h x =
     lib_reach D h (mgamedefs_meta x) \<union> slice_reach as_gamedefs (GameDefinition_reach D) h (mgamedefs_items x)"

definition StorageSpec_value :: "'m copylib \<Rightarrow> 'm heap \<Rightarrow> 'm storage_spec_mem \<Rightarrow> storage_spec" where
  "StorageSpec_value D h x =
     \<lparr>storage_size = Quantity_value D h (mstorage_size x),
      storage_className = ptr_val as_strings plain_val h (mstorage_className x)\<rparr>"

definition StorageSpec_reach :: "'m copylib \<Rightarrow> 'm heap \<Rightarrow> 'm storage_spec_mem \<Rightarrow> addr set" where
  "StorageSpec_reach D h x =
     lib_reach D h (mstorage_size x) \<union> ptr_reach as_strings plain_reach h (mstorage_className x)"

text \<open>The configuration is the empty map when it is nil.\<close>

definition SteamServerSpec_value :: "'m copylib \<Rightarrow> 'm heap \<Rightarrow> server_spec_mem \<Rightarrow> steam_server_spec" where
  "SteamServerSpec_value D h x =
     \<lparr>ss_gameDefinition = mss_gameDefinition x,
      ss_config = (case map_val as_config (ConfigValue_value D) h (mss_config x) of None \<Rightarrow> [] | Some m \<Rightarrow> m),
      ss_appId = ptr_val as_int32s plain_val h (mss_appId x), ss_image = mss_image x,
      ss_ports = slice_val as_server_ports plain_val h (mss_ports x),
      ss_command = slice_val as_strings plain_val h (mss_command x),
      ss_args = slice_val as_strings plain_val h (mss_args x),
      ss_env = slice_val as_images (EnvVar_value D) h (mss_env x),
      ss_configFiles = slice_val as_config_files plain_val h (mss_configFiles x),
      ss_storage = ptr_val as_storage_specs (StorageSpec_value D) h (mss_storage x),
      ss_resources = ptr_val as_images (ResourceRequirements_value D) h (mss_resources x),
      ss_serviceType = mss_serviceType x, ss_beta = mss_beta x,
      ss_validate = ptr_val as_bools plain_val h (mss_validate x),
      ss_anonymous = ptr_val as_bools plain_val h (mss_anonymous x),
      ss_steamCredentialsSecret = mss_steamCredentialsSecret x\<rparr>"

definition SteamServerSpec_reach :: "'m copylib \<Rightarrow> 'm heap \<Rightarrow> server_spec_mem \<Rightarrow> addr set" where
  "SteamServerSpec_reach D h x =
     map_reach as_config (ConfigValue_reach D) h (mss_config x) \<union>
     (ptr_reach as_int32s plain_reach h (mss_appId x) \<union>
     (slice_reach as_server_ports plain_reach h (mss_ports x) \<union>
     (slice_reach as_strings plain_reach h (mss_command x) \<union>
     (slice_reach as_strings plain_reach h (mss_args x) \<union>
     (slice_reach as_images (lib_reach D) h (mss_env x) \<union>
     (slice_reach as_config_files plain_reach h (mss_configFiles x) \<union>
     (ptr_reach as_storage_specs (StorageSpec_reach D) h (mss_storage x) \<union>
     (ptr_reach as_images (lib_reach D) h (mss_resources x) \<union>
     (ptr_reach as_bools plain_reach h (mss_validate x) \<union>
      ptr_reach as_bools plain_reach h (mss_anonymous x))))))))))"

definition SteamServerStatus_value :: "'m copylib \<Rightarrow> 'm heap \<Rightarrow> server_status_mem \<Rightarrow> steam_server_status" where
  "SteamServerStatus_value D h x =
     \<lparr>st_state = mst_state x, st_address = mst_address x,
      st_ports = slice_val as_port_statuses plain_val h (mst_ports x),
      st_lastUpdated = ptr_val as_images (Time_value D) h (mst_lastUpdated x),
      st_appBuildId = mst_appBuildId x, st_message = mst_message x,
      st_conditions = slice_val as_images (Condition_value D) h (mst_conditions x)\<rparr>"

definition SteamServerStatus_reach :: "'m copylib \<Rightarrow> 'm heap \<Rightarrow> server_status_mem \<Rightarrow> addr set" where
  "SteamServerStatus_reach D h x =
     slice_reach as_port_statuses plain_reach h (mst_ports x) \<union>
     (ptr_reach as_images (lib_reach D) h (mst_lastUpdated x) \<union>
      slice_reach as_images (lib_reach D) h (mst_conditions x))"

definition SteamServer_value :: "'m copylib \<Rightarrow> 'm heap \<Rightarrow> 'm server_mem \<Rightarrow> (string \<times> string) \<times> steam_server" where
  "SteamServer_value D h x =
     (mserver_type x,
      \<lparr>server_meta = ObjectMeta_value D h (mserver_meta x),
       server_spec = SteamServerSpec_value D h (mserver_spec x),
       server_status = SteamServerStatus_value D h (mserver_status x)\<rparr>)"

definition SteamServer_reach :: "'m copylib \<Rightarrow> 'm heap \<Rightarrow> 'm server_mem \<Rightarrow> addr set" where
  "SteamServer_reach D h x =
     lib_reach D h (mserver_meta x) \<union>
     (SteamServerSpec_reach D h (mserver_spec x) \<union> SteamServerStatus_reach D h (mserver_status x))"

definition SteamServerList_value ::
  "'m copylib \<Rightarrow> 'm heap \<Rightarrow> 'm server_list_mem \<Rightarrow> (string \<times> string) \<times> string \<times> ((string \<times> string) \<times> steam_server) list" where
  "SteamServerList_value D h x =
     (mservers_type x, ListMeta_value D h (mservers_meta x),
      slice_val as_servers (SteamServer_value D) h (mservers_items x))"

definition SteamServerList_reach :: "'m copylib \<Rightarrow> 'm heap \<Rightarrow> 'm server_list_mem \<Rightarrow> addr set" where
  "SteamServerList_reach D h x =
     lib_reach D h (mservers_meta x) \<union> slice_reach as_servers (SteamServer_reach D) h (mservers_items x)"

section \<open>Structs without library parts\<close>

lemma plain_stored: "cells emb prj \<Longrightarrow> stored plain_val plain_reach plain_copy emb prj"
  by (intro stored.intro plain.deep_copy_axioms)

interpretation mappings: stored plain_val plain_reach plain_copy CConfigMappings as_config_mappings
  by (intro plain_stored config_mappings_cell.cells_axioms)

interpretation sockets: stored plain_val plain_reach plain_copy CSockets as_sockets
  by (intro plain_stored sockets_cell.cells_axioms)

interpretation strings: stored plain_val plain_reach plain_copy CStrings as_strings
  by (intro plain_stored strings_cell.cells_axioms)

interpretation int32s: stored plain_val plain_reach plain_copy CInt32s as_int32s
  by (intro plain_stored int32s_cell.cells_axioms)

interpretation bools: stored plain_val plain_reach plain_copy CBools as_bools
  by (intro plain_stored bools_cell.cells_axioms)

lemmas pair_defs = pair_val_def pair_reach_def pair_copy_def plain_val_def

interpretation schema_entry: stored_map ConfigSchemaEntry_value ConfigSchemaEntry_reach
  ConfigSchemaEntry_DeepCopyInto CSchemaEntries as_schema_entries CSchema as_schema
proof (intro stored_map.intro stored.intro schema_cell.cells_axioms schema_entries_cell.cells_axioms)
  show "deep_copy ConfigSchemaEntry_value ConfigSchemaEntry_reach ConfigSchemaEntry_DeepCopyInto"
    by (rule deep_copy_struct
        [OF deep_copy_pair [OF strings_cell.deep_copy_slice mappings.deep_copy_ptr],
          where get = "\<lambda>x. (mcse_enum x, mcse_mapTo x)"
            and upd = "\<lambda>(e, m) x. x\<lparr>mcse_enum := e, mcse_mapTo := m\<rparr>"
            and mk = "\<lambda>x (e, m). \<lparr>cse_description = mcse_description x, cse_default = mcse_default x,
              cse_required = mcse_required x, cse_secret = mcse_secret x, cse_enum = e,
              cse_array = mcse_array x, cse_mapTo = m\<rparr>"])
      (auto simp: pair_defs ConfigSchemaEntry_value_def ConfigSchemaEntry_reach_def
        ConfigSchemaEntry_DeepCopyInto_def split: prod.splits)
qed

interpretation health_check: stored HealthCheckSpec_value HealthCheckSpec_reach
  HealthCheckSpec_DeepCopyInto CHealthChecks as_health_checks
proof (intro stored.intro health_checks_cell.cells_axioms)
  show "deep_copy HealthCheckSpec_value HealthCheckSpec_reach HealthCheckSpec_DeepCopyInto"
    by (rule deep_copy_struct [OF sockets.deep_copy_ptr,
          where get = mhc_tcpSocket and upd = "\<lambda>t x. x\<lparr>mhc_tcpSocket := t\<rparr>"
            and mk = "\<lambda>x t. \<lparr>hc_tcpSocket = t, hc_initialDelaySeconds = mhc_initialDelaySeconds x,
              hc_periodSeconds = mhc_periodSeconds x\<rparr>"])
      (auto simp: HealthCheckSpec_value_def HealthCheckSpec_reach_def HealthCheckSpec_DeepCopyInto_def
        split: prod.splits)
qed

interpretation config_file: stored plain_val plain_reach ConfigFile_DeepCopyInto CConfigFiles as_config_files
  by (simp add: ConfigFile_DeepCopyInto_def [abs_def] plain_stored config_files_cell.cells_axioms flip: plain_copy_def [abs_def])

interpretation config_file_template: stored plain_val plain_reach ConfigFileTemplate_DeepCopyInto CConfigFileTemplates as_config_file_templates
  by (simp add: ConfigFileTemplate_DeepCopyInto_def [abs_def] plain_stored config_file_templates_cell.cells_axioms flip: plain_copy_def [abs_def])

interpretation config_mapping: stored plain_val plain_reach ConfigMapping_DeepCopyInto CConfigMappings as_config_mappings
  by (simp add: ConfigMapping_DeepCopyInto_def [abs_def] plain_stored config_mappings_cell.cells_axioms flip: plain_copy_def [abs_def])

interpretation port_status: stored plain_val plain_reach PortStatus_DeepCopyInto CPortStatuses as_port_statuses
  by (simp add: PortStatus_DeepCopyInto_def [abs_def] plain_stored port_statuses_cell.cells_axioms flip: plain_copy_def [abs_def])

interpretation server_port: stored plain_val plain_reach ServerPort_DeepCopyInto CServerPorts as_server_ports
  by (simp add: ServerPort_DeepCopyInto_def [abs_def] plain_stored server_ports_cell.cells_axioms flip: plain_copy_def [abs_def])

section \<open>Structs with library parts\<close>

text \<open>
  What the program relies on of the copying functions of the Kubernetes libraries: each is a deep
  copy.  The order of the two loops over maps is any order.
\<close>

locale library_copies =
  fixes D :: "'m copylib" and it :: range_order
  assumes order: "permuting it"
    and meta: "deep_copy (ObjectMeta_value D) (lib_reach D) (lib_copy D ObjectMeta)"
    and list_meta: "deep_copy (ListMeta_value D) (lib_reach D) (lib_copy D ListMeta)"
    and env: "deep_copy (EnvVar_value D) (lib_reach D) (lib_copy D EnvVar)"
    and resources: "deep_copy (ResourceRequirements_value D) (lib_reach D) (lib_copy D ResourceRequirements)"
    and selector: "deep_copy (SecretKeySelector_value D) (lib_reach D) (lib_copy D SecretKeySelector)"
    and condition: "deep_copy (Condition_value D) (lib_reach D) (lib_copy D Condition)"
    and quantity: "deep_copy (Quantity_value D) (lib_reach D) (lib_copy D Quantity)"
    and time: "deep_copy (Time_value D) (lib_reach D) (lib_copy D Time)"
begin

lemmas images = stored.intro [OF _ images_cell.cells_axioms]
lemmas config_order = permuting_set [OF order, of RangeCopyConfig]
lemmas schema_order = permuting_set [OF order, of RangeCopySchema]

end

sublocale library_copies \<subseteq> envs: stored "EnvVar_value D" "lib_reach D" "lib_copy D EnvVar" CImages as_images
  by (rule images [OF env])

sublocale library_copies \<subseteq> resources: stored "ResourceRequirements_value D" "lib_reach D"
    "lib_copy D ResourceRequirements" CImages as_images
  by (rule images [OF resources])

sublocale library_copies \<subseteq> selectors: stored "SecretKeySelector_value D" "lib_reach D"
    "lib_copy D SecretKeySelector" CImages as_images
  by (rule images [OF selector])

sublocale library_copies \<subseteq> conditions: stored "Condition_value D" "lib_reach D" "lib_copy D Condition"
    CImages as_images
  by (rule images [OF condition])

sublocale library_copies \<subseteq> times: stored "Time_value D" "lib_reach D" "lib_copy D Time" CImages as_images
  by (rule images [OF time])

sublocale library_copies \<subseteq> config_value: stored_map "ConfigValue_value D" "ConfigValue_reach D"
    "ConfigValue_DeepCopyInto D" CConfigValues as_config_values CConfig as_config
proof (intro stored_map.intro stored.intro config_cell.cells_axioms config_values_cell.cells_axioms)
  show "deep_copy (ConfigValue_value D) (ConfigValue_reach D) (ConfigValue_DeepCopyInto D)"
    by (rule deep_copy_struct [OF selectors.deep_copy_ptr,
          where get = mcv_secretKeyRef and upd = "\<lambda>r x. x\<lparr>mcv_secretKeyRef := r\<rparr>"
            and mk = "\<lambda>x r. \<lparr>cv_value = mcv_value x, cv_secretKeyRef = r\<rparr>"])
      (auto simp: ConfigValue_value_def ConfigValue_reach_def ConfigValue_DeepCopyInto_def split: prod.splits)
qed

sublocale library_copies \<subseteq> storage: stored "StorageSpec_value D" "StorageSpec_reach D"
    "StorageSpec_DeepCopyInto D" CStorageSpecs as_storage_specs
proof (intro stored.intro storage_specs_cell.cells_axioms)
  show "deep_copy (StorageSpec_value D) (StorageSpec_reach D) (StorageSpec_DeepCopyInto D)"
    by (rule deep_copy_struct [OF deep_copy_pair [OF quantity strings.deep_copy_ptr],
          where get = "\<lambda>x. (mstorage_size x, mstorage_className x)"
            and upd = "\<lambda>(s, c) x. x\<lparr>mstorage_size := s, mstorage_className := c\<rparr>"
            and mk = "\<lambda>x (s, c). \<lparr>storage_size = s, storage_className = c\<rparr>"])
      (auto simp: pair_defs StorageSpec_value_def StorageSpec_reach_def StorageSpec_DeepCopyInto_def
        split: prod.splits)
qed

sublocale library_copies \<subseteq> server_status: stored "SteamServerStatus_value D" "SteamServerStatus_reach D"
    "SteamServerStatus_DeepCopyInto D" CServerStatuses as_server_statuses
proof (intro stored.intro server_statuses_cell.cells_axioms)
  show "deep_copy (SteamServerStatus_value D) (SteamServerStatus_reach D) (SteamServerStatus_DeepCopyInto D)"
    by (rule deep_copy_struct
        [OF deep_copy_pair [OF port_statuses_cell.deep_copy_slice
            deep_copy_pair [OF times.deep_copy_ptr conditions.deep_copy_each]],
          where get = "\<lambda>x. (mst_ports x, mst_lastUpdated x, mst_conditions x)"
            and upd = "\<lambda>(p, t, c) x. x\<lparr>mst_ports := p, mst_lastUpdated := t, mst_conditions := c\<rparr>"
            and mk = "\<lambda>x (p, t, c). \<lparr>st_state = mst_state x, st_address = mst_address x, st_ports = p,
              st_lastUpdated = t, st_appBuildId = mst_appBuildId x, st_message = mst_message x, st_conditions = c\<rparr>"])
      (auto simp: pair_defs SteamServerStatus_value_def SteamServerStatus_reach_def
        SteamServerStatus_DeepCopyInto_def split: prod.splits)
qed

sublocale library_copies \<subseteq> server_spec: stored "SteamServerSpec_value D" "SteamServerSpec_reach D"
    "SteamServerSpec_DeepCopyInto D it" CServerSpecs as_server_specs
proof (intro stored.intro server_specs_cell.cells_axioms)
  show "deep_copy (SteamServerSpec_value D) (SteamServerSpec_reach D) (SteamServerSpec_DeepCopyInto D it)"
    by (rule deep_copy_struct
        [OF deep_copy_pair [OF config_value.deep_copy_map [OF config_order]
            deep_copy_pair [OF int32s.deep_copy_ptr
            deep_copy_pair [OF server_ports_cell.deep_copy_slice
            deep_copy_pair [OF strings_cell.deep_copy_slice
            deep_copy_pair [OF strings_cell.deep_copy_slice
            deep_copy_pair [OF envs.deep_copy_each
            deep_copy_pair [OF config_files_cell.deep_copy_slice
            deep_copy_pair [OF storage.deep_copy_ptr
            deep_copy_pair [OF resources.deep_copy_ptr
            deep_copy_pair [OF bools.deep_copy_ptr bools.deep_copy_ptr]]]]]]]]]],
          where get = "\<lambda>x. (mss_config x, mss_appId x, mss_ports x, mss_command x, mss_args x, mss_env x,
              mss_configFiles x, mss_storage x, mss_resources x, mss_validate x, mss_anonymous x)"
            and upd = "\<lambda>(c, i, p, m, a, e, f, s, r, v, n) x. x\<lparr>mss_config := c, mss_appId := i, mss_ports := p,
              mss_command := m, mss_args := a, mss_env := e, mss_configFiles := f, mss_storage := s,
              mss_resources := r, mss_validate := v, mss_anonymous := n\<rparr>"
            and mk = "\<lambda>x (c, i, p, m, a, e, f, s, r, v, n). \<lparr>ss_gameDefinition = mss_gameDefinition x,
              ss_config = (case c of None \<Rightarrow> [] | Some m \<Rightarrow> m), ss_appId = i, ss_image = mss_image x, ss_ports = p,
              ss_command = m, ss_args = a, ss_env = e, ss_configFiles = f, ss_storage = s, ss_resources = r,
              ss_serviceType = mss_serviceType x, ss_beta = mss_beta x, ss_validate = v, ss_anonymous = n,
              ss_steamCredentialsSecret = mss_steamCredentialsSecret x\<rparr>"])
      (auto simp: pair_defs SteamServerSpec_value_def SteamServerSpec_reach_def ConfigValue_DeepCopy_def
        SteamServerSpec_DeepCopyInto_def split: prod.splits)
qed

sublocale library_copies \<subseteq> server: stored "SteamServer_value D" "SteamServer_reach D"
    "SteamServer_DeepCopyInto D it" CServers as_servers
proof (intro stored.intro servers_cell.cells_axioms)
  show "deep_copy (SteamServer_value D) (SteamServer_reach D) (SteamServer_DeepCopyInto D it)"
    by (rule deep_copy_struct
        [OF deep_copy_pair [OF meta deep_copy_pair [OF server_spec.deep_copy_axioms server_status.deep_copy_axioms]],
          where get = "\<lambda>x. (mserver_meta x, mserver_spec x, mserver_status x)"
            and upd = "\<lambda>(m, s, t) x. x\<lparr>mserver_meta := m, mserver_spec := s, mserver_status := t\<rparr>"
            and mk = "\<lambda>x (m, s, t). (mserver_type x, \<lparr>server_meta = m, server_spec = s, server_status = t\<rparr>)"])
      (auto simp: pair_defs SteamServer_value_def SteamServer_reach_def SteamServer_DeepCopyInto_def
        split: prod.splits)
qed

sublocale library_copies \<subseteq> server_list: stored "SteamServerList_value D" "SteamServerList_reach D"
    "SteamServerList_DeepCopyInto D it" CServerLists as_server_lists
proof (intro stored.intro server_lists_cell.cells_axioms)
  show "deep_copy (SteamServerList_value D) (SteamServerList_reach D) (SteamServerList_DeepCopyInto D it)"
    by (rule deep_copy_struct [OF deep_copy_pair [OF list_meta server.deep_copy_each],
          where get = "\<lambda>x. (mservers_meta x, mservers_items x)"
            and upd = "\<lambda>(m, i) x. x\<lparr>mservers_meta := m, mservers_items := i\<rparr>"
            and mk = "\<lambda>x (m, i). (mservers_type x, m, i)"])
      (auto simp: pair_defs SteamServerList_value_def SteamServerList_reach_def
        SteamServerList_DeepCopyInto_def split: prod.splits)
qed

sublocale library_copies \<subseteq> gamedef_status: stored "GameDefinitionStatus_value D" "GameDefinitionStatus_reach D"
    "GameDefinitionStatus_DeepCopyInto D" CGamedefStatuses as_gamedef_statuses
proof (intro stored.intro gamedef_statuses_cell.cells_axioms)
  show "deep_copy (GameDefinitionStatus_value D) (GameDefinitionStatus_reach D) (GameDefinitionStatus_DeepCopyInto D)"
    by (rule deep_copy_struct [OF conditions.deep_copy_each,
          where get = mgds_conditions and upd = "\<lambda>c x. x\<lparr>mgds_conditions := c\<rparr>"
            and mk = "\<lambda>x c. \<lparr>gds_ready = mgds_ready x, gds_message = mgds_message x, gds_conditions = c\<rparr>"])
      (auto simp: GameDefinitionStatus_value_def GameDefinitionStatus_reach_def
        GameDefinitionStatus_DeepCopyInto_def split: prod.splits)
qed

sublocale library_copies \<subseteq> gamedef_spec: stored "GameDefinitionSpec_value D" "GameDefinitionSpec_reach D"
    "GameDefinitionSpec_DeepCopyInto D it" CGamedefSpecs as_gamedef_specs
proof (intro stored.intro gamedef_specs_cell.cells_axioms)
  show "deep_copy (GameDefinitionSpec_value D) (GameDefinitionSpec_reach D) (GameDefinitionSpec_DeepCopyInto D it)"
    by (rule deep_copy_struct
        [OF deep_copy_pair [OF strings_cell.deep_copy_slice
            deep_copy_pair [OF server_ports_cell.deep_copy_slice
            deep_copy_pair [OF envs.deep_copy_each
            deep_copy_pair [OF schema_entry.deep_copy_map [OF schema_order]
            deep_copy_pair [OF config_file_templates_cell.deep_copy_slice
            deep_copy_pair [OF resources health_check.deep_copy_ptr]]]]]],
          where get = "\<lambda>x. (mgd_args x, mgd_ports x, mgd_env x, mgd_configSchema x, mgd_configFiles x,
              mgd_defaultResources x, mgd_healthCheck x)"
            and upd = "\<lambda>(a, p, e, s, f, r, c) x. x\<lparr>mgd_args := a, mgd_ports := p, mgd_env := e,
              mgd_configSchema := s, mgd_configFiles := f, mgd_defaultResources := r, mgd_healthCheck := c\<rparr>"
            and mk = "\<lambda>x (a, p, e, s, f, r, c). \<lparr>gd_appId = mgd_appId x, gd_image = mgd_image x,
              gd_installDir = mgd_installDir x, gd_command = mgd_command x, gd_args = a, gd_ports = p, gd_env = e,
              gd_configSchema = s, gd_configFiles = f, gd_defaultResources = r,
              gd_defaultStorage = mgd_defaultStorage x, gd_healthCheck = c\<rparr>"])
      (auto simp: pair_defs GameDefinitionSpec_value_def GameDefinitionSpec_reach_def ConfigSchemaEntry_DeepCopy_def
        GameDefinitionSpec_DeepCopyInto_def split: prod.splits)
qed

sublocale library_copies \<subseteq> gamedef: stored "GameDefinition_value D" "GameDefinition_reach D"
    "GameDefinition_DeepCopyInto D it" CGamedefs as_gamedefs
proof (intro stored.intro gamedefs_cell.cells_axioms)
  show "deep_copy (GameDefinition_value D) (GameDefinition_reach D) (GameDefinition_DeepCopyInto D it)"
    by (rule deep_copy_struct
        [OF deep_copy_pair [OF meta deep_copy_pair [OF gamedef_spec.deep_copy_axioms gamedef_status.deep_copy_axioms]],
          where get = "\<lambda>x. (mgamedef_meta x, mgamedef_spec x, mgamedef_status x)"
            and upd = "\<lambda>(m, s, t) x. x\<lparr>mgamedef_meta := m, mgamedef_spec := s, mgamedef_status := t\<rparr>"
            and mk = "\<lambda>x (m, s, t). (mgamedef_type x, \<lparr>gamedef_meta = m, gamedef_spec = s, gamedef_status = t\<rparr>)"])
      (auto simp: pair_defs GameDefinition_value_def GameDefinition_reach_def GameDefinition_DeepCopyInto_def
        split: prod.splits)
qed

sublocale library_copies \<subseteq> gamedef_list: stored "GameDefinitionList_value D" "GameDefinitionList_reach D"
    "GameDefinitionList_DeepCopyInto D it" CGamedefLists as_gamedef_lists
proof (intro stored.intro gamedef_lists_cell.cells_axioms)
  show "deep_copy (GameDefinitionList_value D) (GameDefinitionList_reach D) (GameDefinitionList_DeepCopyInto D it)"
    by (rule deep_copy_struct [OF deep_copy_pair [OF list_meta gamedef.deep_copy_each],
          where get = "\<lambda>x. (mgamedefs_meta x, mgamedefs_items x)"
            and upd = "\<lambda>(m, i) x. x\<lparr>mgamedefs_meta := m, mgamedefs_items := i\<rparr>"
            and mk = "\<lambda>x (m, i). (mgamedefs_type x, m, i)"])
      (auto simp: pair_defs GameDefinitionList_value_def GameDefinitionList_reach_def
        GameDefinitionList_DeepCopyInto_def split: prod.splits)
qed

section \<open>What the functions return\<close>

context library_copies begin

lemmas stored_parts = server_spec.stored_axioms server_status.stored_axioms gamedef_spec.stored_axioms
  gamedef_status.stored_axioms storage.stored_axioms config_value.stored_axioms

lemmas server_fresh = server.DeepCopy_fresh [folded SteamServer_DeepCopy_def]
lemmas server_list_fresh = server_list.DeepCopy_fresh [folded SteamServerList_DeepCopy_def]
lemmas gamedef_fresh = gamedef.DeepCopy_fresh [folded GameDefinition_DeepCopy_def]
lemmas gamedef_list_fresh = gamedef_list.DeepCopy_fresh [folded GameDefinitionList_DeepCopy_def]

end

lemma fresh_object_Some: "fresh_object val reach prj h x h' p \<Longrightarrow> p \<noteq> None"
  by (auto simp: fresh_object_def)

lemma as_object_fresh:
  assumes "as_object T r = (h', ob)"
    and "\<And>p. r = (h', p) \<Longrightarrow> fresh_object val reach prj h x h' p"
  shows "\<exists>p. ob = Some (T p) \<and> fresh_object val reach prj h x h' p"
proof -
  obtain p where r: "r = (h', p)" and ob: "ob = (if p \<noteq> None then Some (T p) else None)"
    using assms(1) by (auto simp: as_object_def split: prod.splits)
  from assms(2) [OF r] show ?thesis by (auto simp: ob dest: fresh_object_Some)
qed

text \<open>The structs that are parts of others have a \<open>DeepCopy\<close> of their own.\<close>

lemma parts_DeepCopy_fresh:
  assumes "library_copies D it"
  shows "SteamServerSpec_reach D h x1 \<subseteq> {..<length h} \<Longrightarrow> SteamServerSpec_DeepCopy D it h (Some x1) = (h', p) \<Longrightarrow>
      fresh_object (SteamServerSpec_value D) (SteamServerSpec_reach D) as_server_specs h x1 h' p"
    and "SteamServerStatus_reach D h x2 \<subseteq> {..<length h} \<Longrightarrow> SteamServerStatus_DeepCopy D h (Some x2) = (h', p) \<Longrightarrow>
      fresh_object (SteamServerStatus_value D) (SteamServerStatus_reach D) as_server_statuses h x2 h' p"
    and "GameDefinitionSpec_reach D h x3 \<subseteq> {..<length h} \<Longrightarrow> GameDefinitionSpec_DeepCopy D it h (Some x3) = (h', p) \<Longrightarrow>
      fresh_object (GameDefinitionSpec_value D) (GameDefinitionSpec_reach D) as_gamedef_specs h x3 h' p"
    and "GameDefinitionStatus_reach D h x4 \<subseteq> {..<length h} \<Longrightarrow> GameDefinitionStatus_DeepCopy D h (Some x4) = (h', p) \<Longrightarrow>
      fresh_object (GameDefinitionStatus_value D) (GameDefinitionStatus_reach D) as_gamedef_statuses h x4 h' p"
    and "StorageSpec_reach D h x5 \<subseteq> {..<length h} \<Longrightarrow> StorageSpec_DeepCopy D h (Some x5) = (h', p) \<Longrightarrow>
      fresh_object (StorageSpec_value D) (StorageSpec_reach D) as_storage_specs h x5 h' p"
    and "ConfigValue_reach D h x6 \<subseteq> {..<length h} \<Longrightarrow> ConfigValue_DeepCopy D h (Some x6) = (h', p) \<Longrightarrow>
      fresh_object (ConfigValue_value D) (ConfigValue_reach D) as_config_values h x6 h' p"
    and "ConfigSchemaEntry_reach h x7 \<subseteq> {..<length h} \<Longrightarrow> ConfigSchemaEntry_DeepCopy h (Some x7) = (h', p) \<Longrightarrow>
      fresh_object ConfigSchemaEntry_value ConfigSchemaEntry_reach as_schema_entries h x7 h' p"
    and "HealthCheckSpec_reach h x8 \<subseteq> {..<length h} \<Longrightarrow> HealthCheckSpec_DeepCopy h (Some x8) = (h', p) \<Longrightarrow>
      fresh_object HealthCheckSpec_value HealthCheckSpec_reach as_health_checks h x8 h' p"
    and "ServerPort_DeepCopy h (Some x9) = (h', p) \<Longrightarrow> fresh_object plain_val plain_reach as_server_ports h x9 h' p"
    and "ConfigFile_DeepCopy h (Some y1) = (h', p) \<Longrightarrow> fresh_object plain_val plain_reach as_config_files h y1 h' p"
    and "ConfigFileTemplate_DeepCopy h (Some y2) = (h', p) \<Longrightarrow>
      fresh_object plain_val plain_reach as_config_file_templates h y2 h' p"
    and "ConfigMapping_DeepCopy h (Some y3) = (h', p) \<Longrightarrow> fresh_object plain_val plain_reach as_config_mappings h y3 h' p"
    and "PortStatus_DeepCopy h (Some y4) = (h', p) \<Longrightarrow> fresh_object plain_val plain_reach as_port_statuses h y4 h' p"
  by (simp_all add: SteamServerSpec_DeepCopy_def SteamServerStatus_DeepCopy_def GameDefinitionSpec_DeepCopy_def
      GameDefinitionStatus_DeepCopy_def StorageSpec_DeepCopy_def ConfigValue_DeepCopy_def
      ConfigSchemaEntry_DeepCopy_def HealthCheckSpec_DeepCopy_def ServerPort_DeepCopy_def ConfigFile_DeepCopy_def
      ConfigFileTemplate_DeepCopy_def ConfigMapping_DeepCopy_def PortStatus_DeepCopy_def
      stored.DeepCopy_fresh [OF library_copies.stored_parts(1) [OF assms]]
      stored.DeepCopy_fresh [OF library_copies.stored_parts(2) [OF assms]]
      stored.DeepCopy_fresh [OF library_copies.stored_parts(3) [OF assms]]
      stored.DeepCopy_fresh [OF library_copies.stored_parts(4) [OF assms]]
      stored.DeepCopy_fresh [OF library_copies.stored_parts(5) [OF assms]]
      stored.DeepCopy_fresh [OF library_copies.stored_parts(6) [OF assms]]
      schema_entry.DeepCopy_fresh health_check.DeepCopy_fresh server_port.DeepCopy_fresh config_file.DeepCopy_fresh
      config_file_template.DeepCopy_fresh config_mapping.DeepCopy_fresh port_status.DeepCopy_fresh plain_reach_def)

end
