(* ===== verification/Demo_Input.thy ===== *)
theory Demo_Input
  imports Api_Types
begin

text \<open>
  The two objects \<^verbatim>\<open>demo_manifest_generation.go\<close> builds its manifests from.  \<^verbatim>\<open>resource.MustParse\<close>
  panics on a string \<open>ParseQuantity\<close> rejects; the panic is \<^const>\<open>None\<close>.  The record \<open>sample_lib\<close> is one
  concrete choice of the library functions, used where a property about all of them is applied to
  concrete objects.
\<close>

definition demo_gameDef :: game_definition where
  "demo_gameDef =
     \<lparr>gamedef_meta = new_meta ''valheim'' [] [],
      gamedef_spec =
        \<lparr>gd_appId = 896660, gd_image = [], gd_installDir = [],
         gd_command = ''./valheim_server.x86_64'',
         gd_args =
           [''-nographics'', ''-batchmode'',
            ''-port'', ''{{.Config.port}}'',
            ''-name'', ''{{.Config.serverName}}'',
            ''-world'', ''{{.Config.worldName}}'',
            ''-password'', ''{{.Config.password}}''],
         gd_ports =
           [\<lparr>port_name = ''game'', port_containerPort = 2456, port_servicePort = 0,
             port_protocol = ProtocolUDP\<rparr>,
            \<lparr>port_name = ''query'', port_containerPort = 2457, port_servicePort = 0,
             port_protocol = ProtocolUDP\<rparr>],
         gd_env = [], gd_configSchema = None, gd_configFiles = [],
         gd_defaultResources = no_resources, gd_defaultStorage = ''20Gi'', gd_healthCheck = None\<rparr>,
      gamedef_status = \<lparr>gds_ready = False, gds_message = [], gds_conditions = []\<rparr>\<rparr>"

definition demo_config :: "config_value gomap" where
  "demo_config =
     [(''serverName'', \<lparr>cv_value = ''Vikings Valhalla'', cv_secretKeyRef = None\<rparr>),
      (''worldName'', \<lparr>cv_value = ''Midgard'', cv_secretKeyRef = None\<rparr>),
      (''password'',
       \<lparr>cv_value = [],
        cv_secretKeyRef =
          Some \<lparr>sks_name = ''valheim-secrets'', sks_key = ''password'', sks_optional = None\<rparr>\<rparr>),
      (''port'', \<lparr>cv_value = ''2456'', cv_secretKeyRef = None\<rparr>)]"

definition unset_status :: steam_server_status where
  "unset_status =
     \<lparr>st_state = ServerStateUnset, st_address = [], st_ports = [], st_lastUpdated = None,
      st_appBuildId = [], st_message = [], st_conditions = []\<rparr>"

definition demo_server_with :: "quantity \<Rightarrow> steam_server" where
  "demo_server_with sz =
     \<lparr>server_meta = new_meta ''my-valheim'' ''default'' [],
      server_spec =
        \<lparr>ss_gameDefinition = ''valheim'', ss_config = demo_config, ss_appId = None, ss_image = [],
         ss_ports = [], ss_command = [], ss_args = [], ss_env = [], ss_configFiles = [],
         ss_storage = Some \<lparr>storage_size = sz, storage_className = None\<rparr>,
         ss_resources = None, ss_serviceType = ServiceTypeLoadBalancer, ss_beta = [],
         ss_validate = None, ss_anonymous = None, ss_steamCredentialsSecret = []\<rparr>,
      server_status = unset_status\<rparr>"

definition demo_server :: "golib \<Rightarrow> steam_server option" where
  "demo_server L =
     (case ParseQuantity L ''30Gi'' of Inl _ \<Rightarrow> None | Inr q \<Rightarrow> Some (demo_server_with q))"

section \<open>A concrete choice of the library functions\<close>

definition gibi :: "int \<Rightarrow> quantity" where
  "gibi n = \<lparr>q_nano = n * 1073741824 * 1000000000, q_format = BinarySI\<rparr>"

definition sample_parse :: "string \<Rightarrow> go_error + quantity" where
  "sample_parse s =
     (if s = ''20Gi'' then Inr (gibi 20) else if s = ''30Gi'' then Inr (gibi 30)
      else Inl (PlainError ''quantities must match the regular expression''))"

definition sample_lib :: golib where
  "sample_lib =
     \<lparr>unicode_upper = (\<lambda>s. s), unicode_quote = (\<lambda>s. s),
      template_rest = (\<lambda>_ _. Inl TemplateParseError), ParseQuantity = sample_parse,
      IsZero = (\<lambda>q. q_nano q = 0)\<rparr>"

abbreviation sample_server :: steam_server where
  "sample_server \<equiv> demo_server_with (gibi 30)"

lemma demo_server_sample: "demo_server sample_lib = Some sample_server"
  by (simp add: demo_server_def sample_lib_def sample_parse_def)

end
