(* ===== verification/Deep_Copy_Properties.thy ===== *)
theory Deep_Copy_Properties
  imports Deep_Copy_Laws Demo_Input
begin

text \<open>
  What the copying functions promise for the objects of the operator, applied to a concrete heap and
  a library whose structs keep their contents in cells of their own.
\<close>

section \<open>A library\<close>

datatype library_value =
    MetaValue object_meta | ListMetaValue string | EnvVarValue env_var
  | ResourcesValue resource_requirements | SelectorValue secret_key_selector
  | ConditionValue string | QuantityValue quantity | TimeValue nat

text \<open>An image is a value without references, or the address of its contents.\<close>

datatype image = Flat library_value | Boxed addr

fun contents :: "image heap \<Rightarrow> image \<Rightarrow> library_value" where
  "contents h (Flat v) = v"
| "contents h (Boxed a) = (case load as_images h a of [Flat v] \<Rightarrow> v | _ \<Rightarrow> ConditionValue [])"

fun image_reach :: "image heap \<Rightarrow> image \<Rightarrow> addr set" where
  "image_reach h (Flat v) = {}"
| "image_reach h (Boxed a) = {a}"

fun image_copy :: "image heap \<Rightarrow> image \<Rightarrow> image heap \<times> image" where
  "image_copy h (Flat v) = (h, Flat v)"
| "image_copy h (Boxed a) =
     (let (h', b) = alloc (CImages [Flat (contents h (Boxed a))]) h in (h', Boxed b))"

definition read_image :: "(library_value \<Rightarrow> 'v) \<Rightarrow> image heap \<Rightarrow> image \<Rightarrow> 'v" where
  "read_image f h m = f (contents h m)"

definition sample_library :: "image copylib" where
  "sample_library =
     \<lparr>lib_copy = (\<lambda>_. image_copy), lib_reach = image_reach,
      ObjectMeta_value = read_image (\<lambda>c. case c of MetaValue v \<Rightarrow> v | _ \<Rightarrow> new_meta [] [] []),
      ListMeta_value = read_image (\<lambda>c. case c of ListMetaValue v \<Rightarrow> v | _ \<Rightarrow> []),
      EnvVar_value = read_image (\<lambda>c. case c of EnvVarValue v \<Rightarrow> v
         | _ \<Rightarrow> \<lparr>env_name = [], env_value = [], env_valueFrom = None\<rparr>),
      ResourceRequirements_value = read_image (\<lambda>c. case c of ResourcesValue v \<Rightarrow> v | _ \<Rightarrow> no_resources),
      SecretKeySelector_value = read_image (\<lambda>c. case c of SelectorValue v \<Rightarrow> v
         | _ \<Rightarrow> \<lparr>sks_name = [], sks_key = [], sks_optional = None\<rparr>),
      Condition_value = read_image (\<lambda>c. case c of ConditionValue v \<Rightarrow> v | _ \<Rightarrow> []),
      Quantity_value = read_image (\<lambda>c. case c of QuantityValue v \<Rightarrow> v | _ \<Rightarrow> zero_quantity),
      Time_value = read_image (\<lambda>c. case c of TimeValue v \<Rightarrow> v | _ \<Rightarrow> 0)\<rparr>"

lemma image_deep_copy: "deep_copy (read_image f) image_reach image_copy"
proof
  fix h m h'
  assume "agree (image_reach h m) h (h' :: image heap)"
  thus "read_image f h' m = read_image f h m" "image_reach h' m = image_reach h m"
    by (cases m; auto simp: read_image_def dest: agree_load [where prj = as_images])+
next
  fix h m h' m'
  assume "image_copy h m = (h', m')"
  thus "copied (read_image f) image_reach h m h' m'"
    by (cases m) (auto simp: copied_def read_image_def alloc_def load_append)
qed

interpretation sample: library_copies sample_library "\<lambda>_. rev"
  by (intro library_copies.intro permuting_rev) (simp_all add: sample_library_def image_deep_copy)

section \<open>Sample objects\<close>

definition sample_server_mem :: "image server_mem" where
  "sample_server_mem =
     \<lparr>mserver_type = (''SteamServer'', ''boilerr.dev/v1alpha1''), mserver_meta = Boxed 4,
      mserver_spec = \<lparr>mss_gameDefinition = ''valheim'', mss_config = Some 1, mss_appId = Some 3, mss_image = [],
        mss_ports = NilSlice, mss_command = NilSlice, mss_args = Slice 0 1 2, mss_env = NilSlice,
        mss_configFiles = NilSlice, mss_storage = None, mss_resources = None, mss_serviceType = [],
        mss_beta = [], mss_validate = None, mss_anonymous = None, mss_steamCredentialsSecret = []\<rparr>,
      mserver_status = \<lparr>mst_state = ServerStateRunning, mst_address = [], mst_ports = NilSlice,
        mst_lastUpdated = Some 2, mst_appBuildId = [], mst_message = [], mst_conditions = NilSlice\<rparr>\<rparr>"

definition sample_gamedef_mem :: "image gamedef_mem" where
  "sample_gamedef_mem =
     \<lparr>mgamedef_type = (''GameDefinition'', ''boilerr.dev/v1alpha1''), mgamedef_meta = Boxed 4,
      mgamedef_spec = \<lparr>mgd_appId = 896660, mgd_image = ''ubuntu'', mgd_installDir = [], mgd_command = [],
        mgd_args = Slice 0 0 3, mgd_ports = NilSlice, mgd_env = NilSlice, mgd_configSchema = Some 6,
        mgd_configFiles = NilSlice, mgd_defaultResources = Flat (ResourcesValue no_resources),
        mgd_defaultStorage = [], mgd_healthCheck = None\<rparr>,
      mgamedef_status = \<lparr>mgds_ready = False, mgds_message = [], mgds_conditions = NilSlice\<rparr>\<rparr>"

text \<open>The server and the game definition share the array of their arguments and their metadata.\<close>

definition sample_heap :: "image heap" where
  "sample_heap =
     [CStrings [''-name'', ''-world'', ''-public''],
      CConfig [(''world'', \<lparr>mcv_value = ''Midgard'', mcv_secretKeyRef = None\<rparr>),
        (''password'', \<lparr>mcv_value = [], mcv_secretKeyRef = Some 5\<rparr>)],
      CImages [Flat (TimeValue 7)],
      CInt32s [896660],
      CImages [Flat (MetaValue (new_meta ''valheim'' ''games'' []))],
      CImages [Flat (SelectorValue \<lparr>sks_name = ''secret'', sks_key = ''pw'', sks_optional = None\<rparr>)],
      CSchema [(''world'', \<lparr>mcse_description = [], mcse_default = [], mcse_required = True, mcse_secret = False,
        mcse_enum = Slice 0 0 1, mcse_array = False, mcse_mapTo = None\<rparr>)],
      CServers [sample_server_mem],
      CGamedefs [sample_gamedef_mem]]"

definition sample_server_list_mem :: "image server_list_mem" where
  "sample_server_list_mem =
     \<lparr>mservers_type = (''SteamServerList'', ''boilerr.dev/v1alpha1''), mservers_meta = Flat (ListMetaValue []),
      mservers_items = Slice 7 0 1\<rparr>"

definition sample_gamedef_list_mem :: "image gamedef_list_mem" where
  "sample_gamedef_list_mem =
     \<lparr>mgamedefs_type = (''GameDefinitionList'', ''boilerr.dev/v1alpha1''), mgamedefs_meta = Flat (ListMetaValue []),
      mgamedefs_items = Slice 8 0 1\<rparr>"

lemmas sample_defs = sample_server_mem_def sample_gamedef_mem_def sample_heap_def sample_server_list_mem_def
  sample_gamedef_list_mem_def sample_library_def

lemmas reach_defs = slice_reach_def ptr_reach_def map_reach_def deref_def load_def plain_reach_def
  as_strings_def as_config_def as_images_def as_int32s_def as_schema_def as_servers_def as_gamedefs_def

lemma sample_heap_length: "length sample_heap = 9"
  by (simp add: sample_heap_def)

lemma sample_server_reach: "SteamServer_reach sample_library sample_heap sample_server_mem = {0..5}"
  by (auto simp: SteamServer_reach_def SteamServerSpec_reach_def SteamServerStatus_reach_def ConfigValue_reach_def
      sample_defs reach_defs)

lemma sample_gamedef_reach: "GameDefinition_reach sample_library sample_heap sample_gamedef_mem = {0, 4, 6}"
  by (auto simp: GameDefinition_reach_def GameDefinitionSpec_reach_def GameDefinitionStatus_reach_def
      ConfigSchemaEntry_reach_def sample_defs reach_defs)

lemma sample_list_reach:
  "SteamServerList_reach sample_library sample_heap sample_server_list_mem = insert 7 {0..5}"
  "GameDefinitionList_reach sample_library sample_heap sample_gamedef_list_mem = {0, 4, 6, 8}"
proof -
  have "elements as_servers sample_heap (Slice 7 0 1) = [sample_server_mem]"
    "elements as_gamedefs sample_heap (Slice 8 0 1) = [sample_gamedef_mem]"
    by (simp_all add: sample_heap_def load_def as_servers_def as_gamedefs_def)
  thus "SteamServerList_reach sample_library sample_heap sample_server_list_mem = insert 7 {0..5}"
    "GameDefinitionList_reach sample_library sample_heap sample_gamedef_list_mem = {0, 4, 6, 8}"
    by (auto simp: SteamServerList_reach_def GameDefinitionList_reach_def slice_reach_def
        sample_server_list_mem_def sample_gamedef_list_mem_def sample_server_reach sample_gamedef_reach)
      (simp_all add: sample_library_def)
qed

lemma sample_server_args:
  "ss_args (server_spec (snd (SteamServer_value sample_library sample_heap sample_server_mem))) = [''-world'', ''-public'']"
  by (simp add: SteamServer_value_def SteamServerSpec_value_def slice_val_def plain_val_def sample_defs reach_defs)

section \<open>Properties\<close>

text \<open>
  C22. The copy of a server that the client hands out is a new object with the value of the server,
  and writing to either leaves the other as it is; copying nil gives the nil object.
\<close>

theorem SteamServer_DeepCopyObject_fresh:
  assumes "library_copies D it" and "SteamServer_reach D h x \<subseteq> {..<length h}"
    and "SteamServer_DeepCopyObject D it h (Some x) = (h', ob)"
  shows "SteamServer_DeepCopyObject D it h None = (h, None) \<and>
    (\<exists>p. ob = Some (SteamServerObject p) \<and>
       fresh_object (SteamServer_value D) (SteamServer_reach D) as_servers h x h' p)"
  using as_object_fresh [OF assms(3) [unfolded SteamServer_DeepCopyObject_def] library_copies.server_fresh [OF assms(1,2)]]
  by (simp add: SteamServer_DeepCopyObject_def SteamServer_DeepCopy_def DeepCopy_def as_object_def)

theorem SteamServer_DeepCopyObject_fresh_witness:
  "\<exists>h' p. SteamServer_DeepCopyObject sample_library (\<lambda>_. rev) sample_heap (Some sample_server_mem) =
       (h', Some (SteamServerObject p)) \<and>
     fresh_object (SteamServer_value sample_library) (SteamServer_reach sample_library) as_servers
       sample_heap sample_server_mem h' p"
proof -
  obtain h' ob where c: "SteamServer_DeepCopyObject sample_library (\<lambda>_. rev) sample_heap (Some sample_server_mem) = (h', ob)"
    by (metis surj_pair)
  have "SteamServer_reach sample_library sample_heap sample_server_mem \<subseteq> {..<length sample_heap}"
    by (auto simp: sample_server_reach sample_heap_length)
  from SteamServer_DeepCopyObject_fresh [OF sample.library_copies_axioms this c] c show ?thesis by blast
qed

text \<open>
  C23. The same for a game definition: the copy is a new object with the value of the definition, its
  schema and the entries of the schema included, and shares nothing with it.
\<close>

theorem GameDefinition_DeepCopyObject_fresh:
  assumes "library_copies D it" and "GameDefinition_reach D h x \<subseteq> {..<length h}"
    and "GameDefinition_DeepCopyObject D it h (Some x) = (h', ob)"
  shows "GameDefinition_DeepCopyObject D it h None = (h, None) \<and>
    (\<exists>p. ob = Some (GameDefinitionObject p) \<and>
       fresh_object (GameDefinition_value D) (GameDefinition_reach D) as_gamedefs h x h' p)"
  using as_object_fresh [OF assms(3) [unfolded GameDefinition_DeepCopyObject_def] library_copies.gamedef_fresh [OF assms(1,2)]]
  by (simp add: GameDefinition_DeepCopyObject_def GameDefinition_DeepCopy_def DeepCopy_def as_object_def)

theorem GameDefinition_DeepCopyObject_fresh_witness:
  "\<exists>h' p. GameDefinition_DeepCopyObject sample_library (\<lambda>_. rev) sample_heap (Some sample_gamedef_mem) =
       (h', Some (GameDefinitionObject p)) \<and>
     fresh_object (GameDefinition_value sample_library) (GameDefinition_reach sample_library) as_gamedefs
       sample_heap sample_gamedef_mem h' p"
proof -
  obtain h' ob where c: "GameDefinition_DeepCopyObject sample_library (\<lambda>_. rev) sample_heap (Some sample_gamedef_mem) = (h', ob)"
    by (metis surj_pair)
  have "GameDefinition_reach sample_library sample_heap sample_gamedef_mem \<subseteq> {..<length sample_heap}"
    by (auto simp: sample_gamedef_reach sample_heap_length)
  from GameDefinition_DeepCopyObject_fresh [OF sample.library_copies_axioms this c] c show ?thesis by blast
qed

text \<open>
  C24. A list of servers and a list of game definitions are copied with all their items: the copies
  have the same items in the same order and share nothing with the originals.
\<close>

theorem list_DeepCopyObject_fresh:
  assumes "library_copies D it"
    and "SteamServerList_reach D h x \<subseteq> {..<length h}" and "GameDefinitionList_reach D h y \<subseteq> {..<length h}"
    and "SteamServerList_DeepCopyObject D it h (Some x) = (h1, ob1)"
    and "GameDefinitionList_DeepCopyObject D it h (Some y) = (h2, ob2)"
  shows "\<exists>p q. ob1 = Some (SteamServerListObject p) \<and>
      fresh_object (SteamServerList_value D) (SteamServerList_reach D) as_server_lists h x h1 p \<and>
    ob2 = Some (GameDefinitionListObject q) \<and>
      fresh_object (GameDefinitionList_value D) (GameDefinitionList_reach D) as_gamedef_lists h y h2 q"
  using as_object_fresh [OF assms(4) [unfolded SteamServerList_DeepCopyObject_def] library_copies.server_list_fresh [OF assms(1,2)]]
    as_object_fresh [OF assms(5) [unfolded GameDefinitionList_DeepCopyObject_def] library_copies.gamedef_list_fresh [OF assms(1,3)]]
  by blast

theorem list_DeepCopyObject_fresh_witness:
  "\<exists>h' p. SteamServerList_DeepCopyObject sample_library (\<lambda>_. rev) sample_heap (Some sample_server_list_mem) =
       (h', Some (SteamServerListObject p)) \<and>
     fresh_object (SteamServerList_value sample_library) (SteamServerList_reach sample_library) as_server_lists
       sample_heap sample_server_list_mem h' p"
proof -
  obtain h1 ob1 h2 ob2 where c:
    "SteamServerList_DeepCopyObject sample_library (\<lambda>_. rev) sample_heap (Some sample_server_list_mem) = (h1, ob1)"
    "GameDefinitionList_DeepCopyObject sample_library (\<lambda>_. rev) sample_heap (Some sample_gamedef_list_mem) = (h2, ob2)"
    by (metis surj_pair)
  have r: "SteamServerList_reach sample_library sample_heap sample_server_list_mem \<subseteq> {..<length sample_heap}"
    "GameDefinitionList_reach sample_library sample_heap sample_gamedef_list_mem \<subseteq> {..<length sample_heap}"
    by (auto simp: sample_list_reach sample_heap_length)
  from list_DeepCopyObject_fresh [OF sample.library_copies_axioms r c] c show ?thesis by blast
qed

end
