(* ===== verification/Interpolate.thy ===== *)
theory Interpolate
  imports Demo_Input
begin

text \<open>
  Package \<^verbatim>\<open>internal/config\<close> (\<^verbatim>\<open>interpolate.go\<close>): template interpolation of arguments, resolution
  of a server's configuration against the schema of its game, validation of that configuration,
  and the merge of environment variable lists.  Loops over Go maps follow the keys in the order an
  iteration oracle gives; the properties say what does and what does not depend on that order.
\<close>

section \<open>InterpolateArgs and InterpolateString\<close>

text \<open>
  The errors say which of the two calls failed; those of InterpolateArgs carry the argument as well.
\<close>

datatype interpolate_error = ParseArgError string | ExecuteArgError string

datatype string_error = StringParseError | StringExecuteError

definition interpolate_error_of :: "string \<Rightarrow> template_error \<Rightarrow> interpolate_error" where
  "interpolate_error_of arg e =
     (case e of TemplateParseError \<Rightarrow> ParseArgError arg | TemplateExecError \<Rightarrow> ExecuteArgError arg)"

definition InterpolateString ::
  "golib \<Rightarrow> string \<Rightarrow> (string \<rightharpoonup> string) \<Rightarrow> string_error + string" where
  "InterpolateString L s config =
     (case run_template (template_rest L) s config of
        Inl TemplateParseError \<Rightarrow> Inl StringParseError
      | Inl TemplateExecError \<Rightarrow> Inl StringExecuteError
      | Inr out \<Rightarrow> Inr out)"

fun InterpolateArgs ::
  "golib \<Rightarrow> string list \<Rightarrow> (string \<rightharpoonup> string) \<Rightarrow> interpolate_error + string list" where
  "InterpolateArgs L [] config = Inr []"
| "InterpolateArgs L (arg # args) config =
     (case run_template (template_rest L) arg config of
        Inl e \<Rightarrow> Inl (interpolate_error_of arg e)
      | Inr out \<Rightarrow>
          (case InterpolateArgs L args config of
             Inl e \<Rightarrow> Inl e
           | Inr outs \<Rightarrow> Inr (out # outs)))"

section \<open>ResolveConfigValues\<close>

definition config_env_name :: "golib \<Rightarrow> string \<Rightarrow> string" where
  "config_env_name L key = ''CONFIG_'' @ ToUpper L (replace_char (CHR ''-'') (CHR ''_'') key)"

definition config_env_var :: "golib \<Rightarrow> string \<Rightarrow> secret_key_selector \<Rightarrow> env_var" where
  "config_env_var L key sel =
     \<lparr>env_name = config_env_name L key, env_value = [],
      env_valueFrom = Some \<lparr>evs_secretKeyRef = Some sel, evs_rest = []\<rparr>\<rparr>"

fun apply_defaults ::
  "config_schema_entry gomap \<Rightarrow> string list \<Rightarrow> (string \<rightharpoonup> string) \<Rightarrow> (string \<rightharpoonup> string)" where
  "apply_defaults schema [] values = values"
| "apply_defaults schema (key # keys) values =
     (let entry = go_index zero_schema_entry schema key in
      apply_defaults schema keys
        (if cse_default entry \<noteq> [] then values(key \<mapsto> cse_default entry) else values))"

fun override_config ::
  "golib \<Rightarrow> config_value gomap \<Rightarrow> string list \<Rightarrow> (string \<rightharpoonup> string) \<times> env_var list \<Rightarrow>
   (string \<rightharpoonup> string) \<times> env_var list" where
  "override_config L config [] (values, envVars) = (values, envVars)"
| "override_config L config (key # keys) (values, envVars) =
     (let cv = go_index zero_config_value config key in
      case cv_secretKeyRef cv of
        Some sel \<Rightarrow>
          override_config L config keys
            (values(key \<mapsto> ''$('' @ config_env_name L key @ '')''),
             envVars @ [config_env_var L key sel])
      | None \<Rightarrow> override_config L config keys (values(key \<mapsto> cv_value cv), envVars))"

definition ResolveConfigValues ::
  "golib \<Rightarrow> range_order \<Rightarrow> config_value gomap \<Rightarrow> config_schema_entry gomap \<Rightarrow>
   (string \<rightharpoonup> string) \<times> env_var list" where
  "ResolveConfigValues L it config schema =
     override_config L config (it RangeConfig (go_keys config))
       (apply_defaults schema (it RangeDefaults (go_keys schema)) Map.empty, [])"

section \<open>ValidateConfig\<close>

datatype config_error =
    RequiredMissing string
  | RequiredEmpty string
  | UnknownKey string
  | NotInEnum string string "string list"

fun config_error_text :: "golib \<Rightarrow> config_error \<Rightarrow> string" where
  "config_error_text L (RequiredMissing k) = ''required config key '' @ quote L k @ '' not provided''"
| "config_error_text L (RequiredEmpty k) = ''required config key '' @ quote L k @ '' has empty value''"
| "config_error_text L (UnknownKey k) = ''unknown config key '' @ quote L k"
| "config_error_text L (NotInEnum k v vs) =
     ''config key '' @ quote L k @ '' value '' @ quote L v @ '' not in allowed values '' @ show_strings vs"

definition check_required ::
  "config_value gomap \<Rightarrow> config_schema_entry gomap \<Rightarrow> string \<Rightarrow> config_error option" where
  "check_required config schema key =
     (let entry = go_index zero_schema_entry schema key in
      if cse_required entry then
        (case map_of config key of
           None \<Rightarrow> Some (RequiredMissing key)
         | Some cv \<Rightarrow>
             if cv_value cv = [] \<and> cv_secretKeyRef cv = None then Some (RequiredEmpty key) else None)
      else None)"

definition check_known :: "config_schema_entry gomap \<Rightarrow> string \<Rightarrow> config_error option" where
  "check_known schema key =
     (case map_of schema key of None \<Rightarrow> Some (UnknownKey key) | Some _ \<Rightarrow> None)"

definition check_enum ::
  "config_value gomap \<Rightarrow> config_schema_entry gomap \<Rightarrow> string \<Rightarrow> config_error option" where
  "check_enum config schema key =
     (let cv = go_index zero_config_value config key;
          entry = go_index zero_schema_entry schema key in
      if length (cse_enum entry) > 0 \<and> cv_value cv \<noteq> [] then
        (let valid = list_ex (\<lambda>allowed. cv_value cv = allowed) (cse_enum entry) in
         if \<not> valid then Some (NotInEnum key (cv_value cv) (cse_enum entry)) else None)
      else None)"

definition ValidateConfig ::
  "range_order \<Rightarrow> config_value gomap \<Rightarrow> config_schema_entry gomap \<Rightarrow> config_error option" where
  "ValidateConfig it config schema =
     (case first_error (check_required config schema) (it RangeRequired (go_keys schema)) of
        Some e \<Rightarrow> Some e
      | None \<Rightarrow>
          (case first_error (check_known schema) (it RangeUnknown (go_keys config)) of
             Some e \<Rightarrow> Some e
           | None \<Rightarrow> first_error (check_enum config schema) (it RangeEnum (go_keys config))))"

section \<open>MergeEnvVars\<close>

text \<open>The loop state: the index each name was given, and the result so far.\<close>

fun merge_env_step ::
  "(string \<rightharpoonup> nat) \<times> env_var list \<Rightarrow> env_var \<Rightarrow> (string \<rightharpoonup> nat) \<times> env_var list" where
  "merge_env_step (seen, result) env =
     (case seen (env_name env) of
        Some idx \<Rightarrow> (seen, result[idx := env])
      | None \<Rightarrow> (seen(env_name env \<mapsto> length result), result @ [env]))"

definition MergeEnvVars :: "env_var list list \<Rightarrow> env_var list" where
  "MergeEnvVars envSlices = snd (foldl (foldl merge_env_step) (Map.empty, []) envSlices)"

section \<open>Facts about MergeEnvVars\<close>

text \<open>
  A list of named entries in which an entry is put in place of one of the same name: what the
  client needs to know of the put operation, and what repeated puts then come to.
\<close>

locale override_list =
  fixes name :: "'a \<Rightarrow> 'k"
    and put :: "'a \<Rightarrow> 'a list \<Rightarrow> 'a list"
  assumes names_put:
      "map name (put e r) = (if name e \<in> set (map name r) then map name r else map name r @ [name e])"
    and lookup_put:
      "distinct (map name r) \<Longrightarrow>
       find (\<lambda>x. name x = n) (put e r) = (if name e = n then Some e else find (\<lambda>x. name x = n) r)"
begin

lemma names_puts:
  "map name (foldl (\<lambda>r e. put e r) [] es) = rev (remdups (rev (map name es)))"
  by (induction es rule: rev_induct) (simp_all add: names_put)

lemma distinct_puts: "distinct (map name (foldl (\<lambda>r e. put e r) [] es))"
  by (simp add: names_puts)

lemma lookup_puts:
  "find (\<lambda>x. name x = n) (foldl (\<lambda>r e. put e r) [] es) = find (\<lambda>x. name x = n) (rev es)"
  by (induction es rule: rev_induct) (simp_all add: lookup_put distinct_puts)

end

definition put_env :: "env_var \<Rightarrow> env_var list \<Rightarrow> env_var list" where
  "put_env e r =
     (if env_name e \<in> set (map env_name r)
      then map (\<lambda>x. if env_name x = env_name e then e else x) r else r @ [e])"

lemma find_map_replace:
  "find (\<lambda>x. env_name x = n) (map (\<lambda>x. if env_name x = env_name e then e else x) r) =
   (if env_name e = n then (if n \<in> set (map env_name r) then Some e else None)
    else find (\<lambda>x. env_name x = n) r)"
  by (induction r) auto

lemma find_append: "find P (xs @ ys) = (case find P xs of None \<Rightarrow> find P ys | Some x \<Rightarrow> Some x)"
  by (induction xs) auto

lemma find_name_None: "find (\<lambda>x. env_name x = n) r = None \<longleftrightarrow> n \<notin> set (map env_name r)"
  by (auto simp: find_None_iff)

interpretation env_list: override_list env_name put_env
proof unfold_locales
  fix e :: env_var and r
  show "map env_name (put_env e r) =
      (if env_name e \<in> set (map env_name r) then map env_name r else map env_name r @ [env_name e])"
    by (auto simp: put_env_def)
next
  fix n and e :: env_var and r
  show "find (\<lambda>x. env_name x = n) (put_env e r) =
      (if env_name e = n then Some e else find (\<lambda>x. env_name x = n) r)"
  proof (cases "env_name e \<in> set (map env_name r)")
    case True
    then show ?thesis unfolding put_env_def by (simp only: if_True find_map_replace) auto
  next
    case False
    then have "find (\<lambda>x. env_name x = env_name e) r = None"
      using find_name_None by blast
    with False show ?thesis by (auto simp: put_env_def find_append split: option.split)
  qed
qed

text \<open>The loop state is consistent: \<open>seen\<close> gives the position of each name in \<open>result\<close>.\<close>

definition merge_inv :: "(string \<rightharpoonup> nat) \<times> env_var list \<Rightarrow> bool" where
  "merge_inv s \<longleftrightarrow> distinct (map env_name (snd s)) \<and>
     (\<forall>n i. fst s n = Some i \<longleftrightarrow> i < length (snd s) \<and> env_name (snd s ! i) = n)"

lemma merge_inv_seen:
  assumes "merge_inv (seen, r)"
  shows "seen n = None \<longleftrightarrow> n \<notin> set (map env_name r)"
proof -
  have "(\<exists>i. seen n = Some i) \<longleftrightarrow> (\<exists>i < length r. env_name (r ! i) = n)"
    using assms by (auto simp: merge_inv_def)
  moreover have "(\<exists>i < length r. env_name (r ! i) = n) \<longleftrightarrow> n \<in> set (map env_name r)"
    by (metis (no_types) in_set_conv_nth length_map nth_map)
  ultimately show ?thesis by (metis not_None_eq)
qed

lemma list_update_replace:
  "distinct (map f r) \<Longrightarrow> i < length r \<Longrightarrow> f (r ! i) = f e \<Longrightarrow>
   r[i := e] = map (\<lambda>x. if f x = f e then e else x) r"
proof (induction r arbitrary: i)
  case Nil
  then show ?case by simp
next
  case (Cons a r)
  then show ?case
  proof (cases i)
    case 0
    with Cons.prems have "\<forall>x\<in>set r. f x \<noteq> f e" by (auto simp: image_iff)
    then have "map (\<lambda>x. if f x = f e then e else x) r = r" by (simp add: map_idI)
    with 0 Cons.prems show ?thesis by simp
  next
    case (Suc j)
    have "f (r ! j) \<in> f ` set r" using Suc Cons.prems(2) by simp
    with Suc Cons.prems have "f a \<noteq> f e" by auto
    with Suc Cons show ?thesis by simp
  qed
qed

lemma merge_step_result:
  assumes "merge_inv (seen, r)"
  shows "snd (merge_env_step (seen, r) e) = put_env e r"
proof (cases "seen (env_name e)")
  case None
  with merge_inv_seen [OF assms, of "env_name e"] show ?thesis by (simp add: put_env_def)
next
  case (Some i)
  with assms have i: "i < length r" "env_name (r ! i) = env_name e"
    by (auto simp: merge_inv_def)
  have "r[i := e] = map (\<lambda>x. if env_name x = env_name e then e else x) r"
    using assms i by (intro list_update_replace) (simp_all add: merge_inv_def)
  moreover have "env_name e \<in> set (map env_name r)"
    using merge_inv_seen [OF assms, of "env_name e"] Some by auto
  ultimately show ?thesis using Some by (simp add: put_env_def)
qed

lemma merge_inv_names:
  "merge_inv (seen, r) \<longleftrightarrow> distinct (map env_name r) \<and>
     (\<forall>n i. seen n = Some i \<longleftrightarrow> i < length (map env_name r) \<and> map env_name r ! i = n)"
  unfolding merge_inv_def by (metis (no_types) fst_conv length_map nth_map snd_conv)

lemma merge_step_inv:
  assumes "merge_inv (seen, r)"
  shows "merge_inv (merge_env_step (seen, r) e)"
proof (cases "seen (env_name e)")
  case None
  then have new: "env_name e \<notin> set (map env_name r)"
    using merge_inv_seen [OF assms] by blast
  then have "\<And>i. i < length r \<Longrightarrow> env_name (r ! i) \<noteq> env_name e"
    by (metis length_map nth_map nth_mem)
  with None new assms show ?thesis
    by (auto simp: merge_inv_def nth_append less_Suc_eq)
next
  case (Some i)
  with assms have i: "i < length r" "env_name (r ! i) = env_name e"
    by (auto simp: merge_inv_def)
  then have "map env_name (r[i := e]) = map env_name r"
    by (metis length_map list_update_id map_update nth_map)
  moreover have "merge_env_step (seen, r) e = (seen, r[i := e])"
    using Some by simp
  ultimately show ?thesis using assms
    by (simp add: merge_inv_names)
qed

lemma merge_foldl:
  assumes "merge_inv s"
  shows "merge_inv (foldl merge_env_step s es) \<and>
         snd (foldl merge_env_step s es) = foldl (\<lambda>r e. put_env e r) (snd s) es"
  using assms
proof (induction es arbitrary: s)
  case Nil
  then show ?case by simp
next
  case (Cons e es)
  obtain seen r where s: "s = (seen, r)" by fastforce
  from Cons.prems have "merge_inv (merge_env_step s e)" and "snd (merge_env_step s e) = put_env e r"
    unfolding s by (rule merge_step_inv, rule merge_step_result)
  with Cons.IH [of "merge_env_step s e"] s show ?case by simp
qed

lemma foldl_concat: "foldl (foldl f) s xss = foldl f s (concat xss)"
  by (induction xss arbitrary: s) auto

lemma merge_inv_init: "merge_inv (Map.empty, [])"
  by (simp add: merge_inv_def)

lemma MergeEnvVars_puts: "MergeEnvVars ss = foldl (\<lambda>r e. put_env e r) [] (concat ss)"
  using merge_foldl [OF merge_inv_init] by (simp add: MergeEnvVars_def foldl_concat)

lemma MergeEnvVars_names:
  "map env_name (MergeEnvVars ss) = rev (remdups (rev (map env_name (concat ss))))"
  by (simp add: MergeEnvVars_puts env_list.names_puts)

lemma MergeEnvVars_distinct: "distinct (map env_name (MergeEnvVars ss))"
  by (simp add: MergeEnvVars_names)

lemma MergeEnvVars_lookup:
  "find (\<lambda>e. env_name e = n) (MergeEnvVars ss) = find (\<lambda>e. env_name e = n) (rev (concat ss))"
  by (simp add: MergeEnvVars_puts env_list.lookup_puts)

lemma find_in_distinct:
  "distinct (map env_name es) \<Longrightarrow> e \<in> set es \<longleftrightarrow> find (\<lambda>x. env_name x = env_name e) es = Some e"
  by (induction es) (auto simp: image_iff find_Some_iff)

lemma MergeEnvVars_mem:
  "e \<in> set (MergeEnvVars ss) \<longleftrightarrow> find (\<lambda>x. env_name x = env_name e) (rev (concat ss)) = Some e"
  using find_in_distinct [OF MergeEnvVars_distinct] by (simp add: MergeEnvVars_lookup)

section \<open>Facts about ResolveConfigValues\<close>

definition config_reference :: "golib \<Rightarrow> string \<Rightarrow> string" where
  "config_reference L key = ''$('' @ config_env_name L key @ '')''"

definition resolved_value :: "golib \<Rightarrow> string \<Rightarrow> config_value \<Rightarrow> string" where
  "resolved_value L key cv =
     (case cv_secretKeyRef cv of Some _ \<Rightarrow> config_reference L key | None \<Rightarrow> cv_value cv)"

text \<open>The environment variable a key contributes, if its value is a secret reference.\<close>

definition secret_env :: "golib \<Rightarrow> config_value gomap \<Rightarrow> string \<Rightarrow> env_var option" where
  "secret_env L config key =
     map_option (config_env_var L key) (cv_secretKeyRef (go_index zero_config_value config key))"

lemma apply_defaults_lookup:
  "apply_defaults schema keys values k =
     (if k \<in> set keys \<and> cse_default (go_index zero_schema_entry schema k) \<noteq> []
      then Some (cse_default (go_index zero_schema_entry schema k)) else values k)"
  by (induction keys arbitrary: "values") (auto simp: Let_def)

lemma override_config_result:
  "override_config L config keys (values, envs) =
     (\<lambda>k. if k \<in> set keys then Some (resolved_value L k (go_index zero_config_value config k)) else values k,
      envs @ List.map_filter (secret_env L config) keys)"
proof (induction keys arbitrary: "values" envs)
  case Nil
  then show ?case by (simp add: List.map_filter_def)
next
  case (Cons k keys)
  then show ?case
    by (auto simp: Let_def fun_eq_iff resolved_value_def config_reference_def secret_env_def
        List.map_filter_def split: option.splits)
qed

lemma resolve_values:
  assumes "permuting it"
  shows "fst (ResolveConfigValues L it config schema) k =
     (case map_of config k of
        Some cv \<Rightarrow> Some (resolved_value L k cv)
      | None \<Rightarrow>
          (case map_of schema k of
             Some entry \<Rightarrow> if cse_default entry \<noteq> [] then Some (cse_default entry) else None
           | None \<Rightarrow> None))"
  unfolding ResolveConfigValues_def override_config_result
  by (auto simp: apply_defaults_lookup permuting_set [OF assms] set_go_keys go_index_def
      zero_schema_entry_def split: option.splits)

lemma resolve_envs:
  "snd (ResolveConfigValues L it config schema) =
     List.map_filter (secret_env L config) (it RangeConfig (go_keys config))"
  by (simp add: ResolveConfigValues_def override_config_result)

lemma resolve_env_mem:
  assumes "permuting it"
  shows "e \<in> set (snd (ResolveConfigValues L it config schema)) \<longleftrightarrow>
     (\<exists>k cv sel. map_of config k = Some cv \<and> cv_secretKeyRef cv = Some sel \<and> e = config_env_var L k sel)"
  unfolding resolve_envs List.map_filter_def
  by (auto simp: image_iff permuting_set [OF assms] set_go_keys secret_env_def go_index_def
      zero_config_value_def split: option.splits) (metis option.sel)+

lemma resolve_env_mset:
  assumes "permuting it"
  shows "mset (snd (ResolveConfigValues L it config schema)) =
     mset (List.map_filter (secret_env L config) (go_keys config))"
  using permuting_mset [OF assms, of RangeConfig "go_keys config"]
  by (simp add: resolve_envs List.map_filter_def mset_filter)

section \<open>Facts about ValidateConfig\<close>

text \<open>What a valid configuration is, without loops.\<close>

definition required_met :: "config_value gomap \<Rightarrow> config_schema_entry gomap \<Rightarrow> bool" where
  "required_met config schema \<longleftrightarrow>
     (\<forall>k entry. map_of schema k = Some entry \<and> cse_required entry \<longrightarrow>
        (\<exists>cv. map_of config k = Some cv \<and> (cv_value cv \<noteq> [] \<or> cv_secretKeyRef cv \<noteq> None)))"

definition keys_known :: "config_value gomap \<Rightarrow> config_schema_entry gomap \<Rightarrow> bool" where
  "keys_known config schema \<longleftrightarrow> set (go_keys config) \<subseteq> set (go_keys schema)"

definition enums_met :: "config_value gomap \<Rightarrow> config_schema_entry gomap \<Rightarrow> bool" where
  "enums_met config schema \<longleftrightarrow>
     (\<forall>k cv entry. map_of config k = Some cv \<and> map_of schema k = Some entry \<and> cse_enum entry \<noteq> [] \<longrightarrow>
        cv_value cv = [] \<or> cv_value cv \<in> set (cse_enum entry))"

lemma check_required_None:
  "k \<in> set (go_keys schema) \<Longrightarrow> check_required config schema k = None \<longleftrightarrow>
     (\<forall>entry. map_of schema k = Some entry \<and> cse_required entry \<longrightarrow>
        (\<exists>cv. map_of config k = Some cv \<and> (cv_value cv \<noteq> [] \<or> cv_secretKeyRef cv \<noteq> None)))"
  by (auto simp: check_required_def in_go_keys_iff Let_def split: option.splits)

lemma required_met_checks:
  "required_met config schema \<longleftrightarrow> (\<forall>k\<in>set (go_keys schema). check_required config schema k = None)"
  unfolding required_met_def by (metis check_required_None in_go_keys_iff)

lemma keys_known_checks:
  "keys_known config schema \<longleftrightarrow> (\<forall>k\<in>set (go_keys config). check_known schema k = None)"
  by (auto simp: keys_known_def check_known_def in_go_keys_iff split: option.splits)

lemma check_enum_None:
  "map_of config k = Some cv \<Longrightarrow> check_enum config schema k = None \<longleftrightarrow>
     (\<forall>entry. map_of schema k = Some entry \<and> cse_enum entry \<noteq> [] \<longrightarrow>
        cv_value cv = [] \<or> cv_value cv \<in> set (cse_enum entry))"
  by (cases "map_of schema k")
    (auto simp: check_enum_def go_index_def zero_schema_entry_def list_ex_iff Let_def)

lemma enums_met_checks:
  "enums_met config schema \<longleftrightarrow> (\<forall>k\<in>set (go_keys config). check_enum config schema k = None)"
  unfolding enums_met_def by (metis check_enum_None in_go_keys_iff)

lemmas config_checks = required_met_checks keys_known_checks enums_met_checks

text \<open>What each error says of the configuration.\<close>

fun blames ::
  "config_value gomap \<Rightarrow> config_schema_entry gomap \<Rightarrow> config_error \<Rightarrow> bool" where
  "blames config schema (RequiredMissing k) =
     (cse_required (go_index zero_schema_entry schema k) \<and> k \<in> set (go_keys schema) \<and>
      k \<notin> set (go_keys config))"
| "blames config schema (RequiredEmpty k) =
     (cse_required (go_index zero_schema_entry schema k) \<and> k \<in> set (go_keys schema) \<and>
      map_of config k = Some zero_config_value)"
| "blames config schema (UnknownKey k) =
     (required_met config schema \<and> k \<in> set (go_keys config) \<and> k \<notin> set (go_keys schema))"
| "blames config schema (NotInEnum k v vs) =
     (required_met config schema \<and> keys_known config schema \<and> k \<in> set (go_keys config) \<and>
      v = cv_value (go_index zero_config_value config k) \<and> v \<noteq> [] \<and>
      vs = cse_enum (go_index zero_schema_entry schema k) \<and> vs \<noteq> [] \<and> v \<notin> set vs)"

lemma check_required_blames:
  "k \<in> set (go_keys schema) \<Longrightarrow> check_required config schema k = Some e \<Longrightarrow> blames config schema e"
  by (auto simp: check_required_def in_go_keys_iff zero_config_value_def Let_def
      split: if_splits option.splits)

lemma ValidateConfig_Some:
  assumes "permuting it" and "ValidateConfig it config schema = Some e"
  shows "blames config schema e"
proof -
  consider (req) "first_error (check_required config schema) (it RangeRequired (go_keys schema)) = Some e"
    | (known) "required_met config schema"
        "first_error (check_known schema) (it RangeUnknown (go_keys config)) = Some e"
    | (enum) "required_met config schema" "keys_known config schema"
        "first_error (check_enum config schema) (it RangeEnum (go_keys config)) = Some e"
    using assms(2)
    by (auto simp: ValidateConfig_def config_checks first_error_None permuting_set [OF assms(1)]
        split: option.splits)
  then show ?thesis
  proof cases
    case req
    then show ?thesis
      by (metis first_error_Some permuting_set [OF assms(1)] check_required_blames)
  next
    case known
    then show ?thesis
      by (auto dest!: first_error_Some
          simp: permuting_set [OF assms(1)] check_known_def set_go_keys split: option.splits)
  next
    case enum
    then show ?thesis
      by (auto dest!: first_error_Some simp: permuting_set [OF assms(1)] check_enum_def Let_def
          list_ex_iff split: if_splits)
  qed
qed

lemma ValidateConfig_None:
  "permuting it \<Longrightarrow> ValidateConfig it config schema = None \<longleftrightarrow>
     required_met config schema \<and> keys_known config schema \<and> enums_met config schema"
proof -
  assume it: "permuting it"
  have "first_error (check_required config schema) (it RangeRequired (go_keys schema)) = None \<longleftrightarrow>
      required_met config schema"
    "first_error (check_known schema) (it RangeUnknown (go_keys config)) = None \<longleftrightarrow>
      keys_known config schema"
    "first_error (check_enum config schema) (it RangeEnum (go_keys config)) = None \<longleftrightarrow>
      enums_met config schema"
    by (simp_all add: first_error_None config_checks permuting_set [OF it])
  from this [symmetric] show ?thesis
    by (simp add: ValidateConfig_def split: option.split)
qed

section \<open>Facts about interpolation\<close>

lemma InterpolateString_run:
  "InterpolateString L s config = Inr out \<longleftrightarrow> run_template (template_rest L) s config = Inr out"
  by (simp add: InterpolateString_def split: sum.split template_error.split)

text \<open>The two functions agree on every argument but for the argument in the error.\<close>

fun arg_error :: "string \<Rightarrow> string_error \<Rightarrow> interpolate_error" where
  "arg_error arg StringParseError = ParseArgError arg"
| "arg_error arg StringExecuteError = ExecuteArgError arg"

lemma InterpolateArgs_Cons:
  "InterpolateArgs L (arg # args) config =
     (case InterpolateString L arg config of
        Inl e \<Rightarrow> Inl (arg_error arg e)
      | Inr out \<Rightarrow>
          (case InterpolateArgs L args config of Inl e \<Rightarrow> Inl e | Inr outs \<Rightarrow> Inr (out # outs)))"
  by (simp add: InterpolateString_def interpolate_error_of_def split: sum.split template_error.split)

lemma InterpolateArgs_Inr:
  "InterpolateArgs L args config = Inr outs \<longleftrightarrow>
     list_all2 (\<lambda>arg out. InterpolateString L arg config = Inr out) args outs"
proof (induction args arbitrary: outs)
  case Nil
  then show ?case by auto
next
  case (Cons a args)
  then show ?case
    by (cases outs)
      (auto simp: InterpolateArgs_Cons simp del: InterpolateArgs.simps split: sum.splits,
       metis sum.inject(2))
qed

lemma InterpolateArgs_Inl:
  "InterpolateArgs L args config = Inl e \<longleftrightarrow>
     (\<exists>pre arg post. args = pre @ arg # post \<and>
        (\<forall>a\<in>set pre. \<exists>out. InterpolateString L a config = Inr out) \<and>
        (\<exists>e'. InterpolateString L arg config = Inl e' \<and> e = arg_error arg e'))"
proof (induction args)
  case Nil
  then show ?case by simp
next
  case (Cons a args)
  show ?case
  proof (cases "InterpolateString L a config")
    case (Inl e')
    then show ?thesis
      by (force simp: InterpolateArgs_Cons Cons_eq_append_conv simp del: InterpolateArgs.simps)
  next
    case (Inr out)
    then have "InterpolateArgs L (a # args) config = Inl e \<longleftrightarrow> InterpolateArgs L args config = Inl e"
      by (simp add: InterpolateArgs_Cons del: InterpolateArgs.simps split: sum.split)
    also have "\<dots> \<longleftrightarrow> (\<exists>pre arg post. a # args = pre @ arg # post \<and>
        (\<forall>a\<in>set pre. \<exists>out. InterpolateString L a config = Inr out) \<and>
        (\<exists>e'. InterpolateString L arg config = Inl e' \<and> e = arg_error arg e'))" (is "_ \<longleftrightarrow> ?R")
    proof
      assume "InterpolateArgs L args config = Inl e"
      then obtain pre arg post e' where p: "args = pre @ arg # post"
        "\<forall>a\<in>set pre. \<exists>out. InterpolateString L a config = Inr out" "InterpolateString L arg config = Inl e'" "e = arg_error arg e'"
        using Cons.IH by blast
      then have "a # args = (a # pre) @ arg # post" by simp
      with p Inr show ?R by (metis set_ConsD)
    next
      assume ?R
      then show "InterpolateArgs L args config = Inl e"
        unfolding Cons.IH using Inr by (auto simp: Cons_eq_append_conv) blast
    qed
    finally show ?thesis .
  qed
qed

lemma list_all2_in_left: "list_all2 P xs ys \<Longrightarrow> x \<in> set xs \<Longrightarrow> \<exists>y. P x y"
  by (induction rule: list_all2_induct) auto

lemma parse_bad_character:
  assumes "list_all is_alnum a" "a \<noteq> []" "\<not> is_digit (hd a)"
  shows "parse_template (''{{.Config.'' @ a @ CHR ''-'' # r) = ParseError"
proof -
  have nd: "\<not> is_alnum (CHR ''-'')" "\<not> is_space (CHR ''-'')" "is_ascii (CHR ''-'')"
    by (simp_all add: is_alnum_def is_lower_def is_upper_def is_digit_def is_space_def is_ascii_def)
  have al: "list_all is_alnum ''Config''" "\<not> is_digit (CHR ''C'')"
    by (simp_all add: is_alnum_def is_lower_def is_upper_def is_digit_def)
  have f2: "parse_fields (CHR ''.'' # a @ CHR ''-'' # r) = ([a], CHR ''-'' # r)"
    using assms nd
    by (subst parse_fields.simps)
      (simp add: takeWhile_stop dropWhile_stop parse_fields.simps [of "CHR ''-'' # r"])
  have "parse_fields (CHR ''.'' # ''Config'' @ CHR ''.'' # a @ CHR ''-'' # r)
      = ([''Config'', a], CHR ''-'' # r)"
    using al f2
    by (subst parse_fields.simps) (simp only: takeWhile_stop dropWhile_stop list.case not_alnum, simp)
  moreover have "right_delim (CHR ''-'' # r) = None" by (cases r) auto
  ultimately show ?thesis
    using nd
    by (subst parse_template.simps) (simp add: parse_action_def at_terminator_def)
qed

section \<open>Secret references and their environment variables\<close>

definition secret_refs :: "config_value gomap \<Rightarrow> (string \<times> secret_key_selector) set" where
  "secret_refs config =
     {(k, sel). \<exists>cv. map_of config k = Some cv \<and> cv_secretKeyRef cv = Some sel}"

lemma config_env_var_simps [simp]:
  "env_name (config_env_var L k sel) = config_env_name L k"
  "config_env_var L k sel = config_env_var L k' sel' \<longleftrightarrow>
     config_env_name L k = config_env_name L k' \<and> sel = sel'"
  by (auto simp: config_env_var_def)

lemma resolve_env_refs:
  "permuting it \<Longrightarrow> set (snd (ResolveConfigValues L it config schema)) =
     (\<lambda>(k, sel). config_env_var L k sel) ` secret_refs config"
  by (auto simp: resolve_env_mem secret_refs_def image_iff set_eq_iff)

lemma find_Some_in: "find P xs = Some x \<Longrightarrow> x \<in> set xs \<and> P x"
  by (induction xs) (auto split: if_splits)

lemma find_in_last:
  assumes "e \<in> set ls" "env_name e = n"
  obtains e' where "e' \<in> set ls" "env_name e' = n"
    "find (\<lambda>x. env_name x = n) (rev (concat [a, b, ls])) = Some e'"
proof -
  have "find (\<lambda>x. env_name x = n) (rev ls) \<noteq> None"
    using assms by (auto simp: find_None_iff)
  then obtain e' where e': "find (\<lambda>x. env_name x = n) (rev ls) = Some e'" by blast
  then have "e' \<in> set ls" "env_name e' = n"
    by (auto dest: find_Some_in)
  with e' show thesis by (intro that [of e']) (simp_all add: find_append)
qed

lemma secret_lookup:
  assumes "permuting it" and "(k, sel) \<in> secret_refs config"
  obtains k' sel' where "(k', sel') \<in> secret_refs config"
    "config_env_name L k' = config_env_name L k"
    "find (\<lambda>e. env_name e = config_env_name L k)
       (MergeEnvVars [a, b, snd (ResolveConfigValues L it config schema)])
     = Some (config_env_var L k' sel')"
proof -
  let ?c = "snd (ResolveConfigValues L it config schema)"
  have "config_env_var L k sel \<in> set ?c"
    using assms(2) by (force simp: resolve_env_refs [OF assms(1)])
  then obtain e' where "e' \<in> set ?c" "env_name e' = config_env_name L k"
    "find (\<lambda>x. env_name x = config_env_name L k) (rev (concat [a, b, ?c])) = Some e'"
    by (rule find_in_last [where n = "config_env_name L k"]) simp_all
  then show thesis
    by (auto simp: resolve_env_refs [OF assms(1)] MergeEnvVars_lookup intro: that)
qed

section \<open>Sample data\<close>

text \<open>Concrete inputs the properties are applied to: the demo's configuration and a small schema.\<close>

definition sample_schema :: "config_schema_entry gomap" where
  "sample_schema =
     [(''serverName'', zero_schema_entry\<lparr>cse_default := ''My Valheim Server''\<rparr>),
      (''worldName'', zero_schema_entry\<lparr>cse_default := ''Dedicated'', cse_required := True\<rparr>),
      (''password'', zero_schema_entry\<lparr>cse_required := True, cse_secret := True\<rparr>),
      (''port'', zero_schema_entry\<lparr>cse_enum := [''2456'', ''2460'']\<rparr>)]"

lemma demo_env_name: "config_env_name sample_lib ''password'' = ''CONFIG_PASSWORD''"
  by code_simp

lemmas sample_eval = resolved_value_def config_reference_def demo_env_name

lemma demo_secret_refs:
  "secret_refs demo_config =
     {(''password'', \<lparr>sks_name = ''valheim-secrets'', sks_key = ''password'', sks_optional = None\<rparr>)}"
  by (auto simp: secret_refs_def demo_config_def split: if_splits)

lemma sample_schema_met:
  "required_met demo_config sample_schema" "keys_known demo_config sample_schema"
  "enums_met demo_config sample_schema"
  by (auto simp: required_met_def keys_known_def enums_met_def sample_schema_def demo_config_def
      zero_schema_entry_def go_keys_def)

lemma sample_schema_not_met: "\<not> required_met [] sample_schema"
  by (simp add: required_met_checks sample_schema_def go_keys_def check_required_def go_index_def
      zero_schema_entry_def)

section \<open>Properties\<close>

text \<open>
  C30. MergeEnvVars: the result names each variable once, in the order of first appearance over all
  slices, and gives it the entry of its last appearance: later slices override earlier ones.
\<close>

theorem MergeEnvVars_override:
  "map env_name (MergeEnvVars ss) = rev (remdups (rev (map env_name (concat ss)))) \<and>
   (\<forall>n. find (\<lambda>e. env_name e = n) (MergeEnvVars ss) = find (\<lambda>e. env_name e = n) (rev (concat ss)))"
  by (simp add: MergeEnvVars_names MergeEnvVars_lookup)

text \<open>
  C28. ResolveConfigValues gives a key the value of the server's configuration (the literal, or a
  \<^verbatim>\<open>$(CONFIG_KEY)\<close> reference for a secret), else the schema's non-empty default, else nothing; and
  the environment variables it returns are exactly those of the configured secrets.  Neither
  depends on the order in which the two maps are visited.
\<close>

theorem ResolveConfigValues_spec:
  assumes "permuting it"
  shows "fst (ResolveConfigValues L it config schema) k =
     (case map_of config k of
        Some cv \<Rightarrow> Some (resolved_value L k cv)
      | None \<Rightarrow>
          (case map_of schema k of
             Some entry \<Rightarrow> if cse_default entry \<noteq> [] then Some (cse_default entry) else None
           | None \<Rightarrow> None)) \<and>
   set (snd (ResolveConfigValues L it config schema)) =
     (\<lambda>(k, sel). config_env_var L k sel) ` secret_refs config \<and>
   mset (snd (ResolveConfigValues L it config schema)) =
     mset (List.map_filter (secret_env L config) (go_keys config))"
  using assms by (simp add: resolve_values resolve_env_refs resolve_env_mset)

lemma ResolveConfigValues_spec_witness:
  "fst (ResolveConfigValues sample_lib (\<lambda>_. rev) demo_config []) ''password'' = Some ''$(CONFIG_PASSWORD)'' \<and>
   fst (ResolveConfigValues sample_lib (\<lambda>_. rev) demo_config []) ''worldName'' = Some ''Midgard'' \<and>
   fst (ResolveConfigValues sample_lib (\<lambda>_. rev) demo_config []) ''public'' = None"
  using ResolveConfigValues_spec [OF permuting_rev, of sample_lib demo_config "[]" "''password''"]
    ResolveConfigValues_spec [OF permuting_rev, of sample_lib demo_config "[]" "''worldName''"]
    ResolveConfigValues_spec [OF permuting_rev, of sample_lib demo_config "[]" "''public''"]
  by (simp add: demo_config_def sample_eval)

text \<open>
  C29. In the environment merged from the game's variables, the server's and the resolved secrets,
  every secret key of the configuration is bound to its own secret if and only if no two secret
  keys with different selectors are given the same variable name.
\<close>

theorem secrets_bound_iff:
  assumes "permuting it"
  shows "(\<forall>(k, sel) \<in> secret_refs config.
            find (\<lambda>e. env_name e = config_env_name L k)
              (MergeEnvVars [gameDefEnv, serverEnv, snd (ResolveConfigValues L it config schema)])
            = Some (config_env_var L k sel)) \<longleftrightarrow>
         (\<forall>(k, sel) \<in> secret_refs config. \<forall>(k', sel') \<in> secret_refs config.
            config_env_name L k = config_env_name L k' \<longrightarrow> sel = sel')"
    (is "?bound \<longleftrightarrow> ?unique")
proof
  assume b: ?bound
  show ?unique
  proof clarify
    fix k sel k' sel'
    assume "(k, sel) \<in> secret_refs config" "(k', sel') \<in> secret_refs config"
      and "config_env_name L k = config_env_name L k'"
    with bspec [OF b, of "(k, sel)"] bspec [OF b, of "(k', sel')"]
    have "Some (config_env_var L k sel) = Some (config_env_var L k' sel')" by simp
    then show "sel = sel'" by simp
  qed
next
  assume unique: ?unique
  show ?bound
  proof (clarify)
    fix k sel
    assume k: "(k, sel) \<in> secret_refs config"
    obtain k' sel' where r: "(k', sel') \<in> secret_refs config"
      "config_env_name L k' = config_env_name L k"
      "find (\<lambda>e. env_name e = config_env_name L k)
         (MergeEnvVars [gameDefEnv, serverEnv, snd (ResolveConfigValues L it config schema)])
       = Some (config_env_var L k' sel')"
      by (rule secret_lookup [OF assms k])
    from bspec [OF bspec [OF unique k, simplified] r(1), simplified] r(2)
    have "sel' = sel" by simp
    with r show "find (\<lambda>e. env_name e = config_env_name L k)
         (MergeEnvVars [gameDefEnv, serverEnv, snd (ResolveConfigValues L it config schema)])
       = Some (config_env_var L k sel)" by simp
  qed
qed

lemma secrets_bound_iff_witness:
  "find (\<lambda>e. env_name e = ''CONFIG_PASSWORD'')
     (MergeEnvVars [[], [], snd (ResolveConfigValues sample_lib (\<lambda>_ ks. ks) demo_config [])])
   = Some (config_env_var sample_lib ''password''
       \<lparr>sks_name = ''valheim-secrets'', sks_key = ''password'', sks_optional = None\<rparr>)"
  using secrets_bound_iff [OF permuting_id, of demo_config sample_lib "[]" "[]" "[]"]
  by (simp add: demo_secret_refs demo_env_name)

text \<open>
  C27. ValidateConfig accepts a configuration exactly when every required key is given a value or a
  secret, every key is in the schema, and every non-empty value of an enumerated key is one of the
  allowed ones.  An error it returns is true of the configuration: it names a key that is required
  and absent or empty, or a key the schema does not have (and then all required keys are given), or
  a value that is not allowed (and then all keys are also known).  Neither depends on the order in
  which the maps are visited.
\<close>

theorem ValidateConfig_correct:
  assumes "permuting it"
  shows "case ValidateConfig it config schema of
      None \<Rightarrow> required_met config schema \<and> keys_known config schema \<and> enums_met config schema
    | Some e \<Rightarrow> \<not> (required_met config schema \<and> keys_known config schema \<and> enums_met config schema) \<and>
        blames config schema e"
  using ValidateConfig_None [OF assms, of config schema] ValidateConfig_Some [OF assms, of config schema]
  by (auto split: option.split)

lemma ValidateConfig_correct_witness:
  "ValidateConfig (\<lambda>_. rev) demo_config sample_schema = None \<and>
   (\<exists>e. ValidateConfig (\<lambda>_. rev) [] sample_schema = Some e \<and> blames [] sample_schema e)"
  using ValidateConfig_correct [OF permuting_rev, of demo_config sample_schema]
    ValidateConfig_correct [OF permuting_rev, of "[]" sample_schema]
  by (simp add: sample_schema_met sample_schema_not_met split: option.splits)

text \<open>
  A required key that the server leaves out is rejected even when the schema has a default for
  it that ResolveConfigValues would have used.
\<close>

theorem ValidateConfig_required_default:
  assumes "permuting it" and "map_of schema k = Some entry"
    and "cse_required entry" and "cse_default entry \<noteq> []" and "map_of config k = None"
  shows "ValidateConfig it config schema \<noteq> None \<and>
         fst (ResolveConfigValues L it config schema) k = Some (cse_default entry)"
  using assms by (auto simp: ValidateConfig_None required_met_def resolve_values)

lemma ValidateConfig_required_default_witness:
  "ValidateConfig (\<lambda>_ ks. ks) [] sample_schema \<noteq> None \<and>
   fst (ResolveConfigValues sample_lib (\<lambda>_ ks. ks) [] sample_schema) ''worldName'' = Some ''Dedicated''"
  using ValidateConfig_required_default [OF permuting_id, of sample_schema "''worldName''"
      "zero_schema_entry\<lparr>cse_default := ''Dedicated'', cse_required := True\<rparr>" "[]" sample_lib]
  by (simp add: sample_schema_def zero_schema_entry_def)

text \<open>
  InterpolateArgs interpolates every argument on its own and keeps their number and order; it
  fails exactly when some argument fails, with the error of the first that does.
\<close>

theorem InterpolateArgs_pointwise:
  "(InterpolateArgs L args config = Inr outs \<longleftrightarrow>
      list_all2 (\<lambda>arg out. InterpolateString L arg config = Inr out) args outs) \<and>
   (InterpolateArgs L args config = Inl e \<longleftrightarrow>
      (\<exists>pre arg post. args = pre @ arg # post \<and>
         (\<forall>a. a \<in> set pre \<longrightarrow> (\<exists>out. InterpolateString L a config = Inr out)) \<and>
         (\<exists>e'. InterpolateString L arg config = Inl e' \<and> e = arg_error arg e')))"
  unfolding InterpolateArgs_Inr InterpolateArgs_Inl Ball_def by (rule conjI; rule refl)

lemma InterpolateArgs_pointwise_witness:
  "InterpolateArgs sample_lib [''-port'', ''{{.Config.port}}''] [''port'' \<mapsto> ''2456''] = Inr [''-port'', ''2456''] \<and>
   InterpolateArgs sample_lib [''-port'', ''{{.Config.game-port}}''] [''port'' \<mapsto> ''2456''] =
     Inl (ParseArgError ''{{.Config.game-port}}'')"
proof -
  have run: "InterpolateString sample_lib ''-port'' [''port'' \<mapsto> ''2456''] = Inr ''-port''"
    "InterpolateString sample_lib ''{{.Config.port}}'' [''port'' \<mapsto> ''2456''] = Inr ''2456''"
    "InterpolateString sample_lib ''{{.Config.game-port}}'' [''port'' \<mapsto> ''2456''] = Inl StringParseError"
    by code_simp+
  have "[''-port'', ''{{.Config.game-port}}''] = [''-port''] @ ''{{.Config.game-port}}'' # []" by simp
  with run show ?thesis
    unfolding InterpolateArgs_pointwise [THEN conjunct1] InterpolateArgs_pointwise [THEN conjunct2]
    by (intro conjI exI [of _ "[''-port'']"] exI [of _ "''{{.Config.game-port}}''"] exI [of _ "[]"]) simp_all
qed

text \<open>
  Interpolating a reference \<^verbatim>\<open>{{.Config.key}}\<close> between two texts puts the key's value there, or
  \<^verbatim>\<open><no value>\<close> when the configuration does not have the key.
\<close>

theorem InterpolateString_reference:
  assumes "key \<noteq> []" and "list_all is_alnum key" and "\<not> is_digit (hd key)"
    and "\<not> has_open before" and "before = [] \<or> last before \<noteq> CHR ''{''" and "\<not> has_open after"
  shows "InterpolateString L (before @ ''{{.Config.'' @ key @ ''}}'' @ after) config =
     Inr (before @ (case config key of None \<Rightarrow> no_value | Some v \<Rightarrow> v) @ after)"
proof -
  have wf: "wf_field [''Config'', key]"
    using assms by (simp add: wf_field_def is_alnum_def is_lower_def is_upper_def is_digit_def)
  have pr: "print_node (FieldNode [''Config'', key]) = ''{{.Config.'' @ key @ ''}}''"
    by (simp add: print_fields_def)
  have "parse_template (before @ print_node (FieldNode [''Config'', key]) @ after) =
      Parsed (text_node before @ FieldNode [''Config'', key] # text_node after)"
    using assms wf by (intro parse_template_field) (simp_all add: parse_template_plain)
  then show ?thesis
    unfolding pr
    by (simp add: InterpolateString_def run_template_def text_node_def split: option.splits)
qed

lemma InterpolateString_reference_witness:
  "InterpolateString sample_lib ''+port {{.Config.port}}!'' [''port'' \<mapsto> ''2456''] = Inr ''+port 2456!''"
  using InterpolateString_reference [of "''port''" "''+port ''" "''!''" sample_lib "[''port'' \<mapsto> ''2456'']"]
  by (simp add: is_alnum_def is_lower_def is_upper_def is_digit_def)

text \<open>
  A key with a hyphen after its first identifier cannot be referenced: the template does not
  parse, and InterpolateArgs then fails for the whole argument list.
\<close>

theorem InterpolateArgs_hyphen:
  assumes "a \<noteq> []" and "list_all is_alnum a" and "\<not> is_digit (hd a)"
    and "''{{.Config.'' @ a @ ''-'' @ r \<in> set args"
  shows "\<exists>e. InterpolateArgs L args config = Inl e"
proof -
  let ?t = "''{{.Config.'' @ a @ ''-'' @ r"
  have "InterpolateString L ?t config = Inl StringParseError"
    using parse_bad_character [of a r] assms
    by (simp add: InterpolateString_def run_template_def)
  then have not_ok: "InterpolateString L ?t config \<noteq> Inr out" for out by simp
  show ?thesis
  proof (cases "InterpolateArgs L args config")
    case (Inl e)
    then show ?thesis by blast
  next
    case (Inr outs)
    then have "list_all2 (\<lambda>arg out. InterpolateString L arg config = Inr out) args outs"
      by (simp only: InterpolateArgs_Inr)
    from list_all2_in_left [OF this assms(4)] show ?thesis
      using not_ok by blast
  qed
qed

lemma InterpolateArgs_hyphen_witness:
  "\<exists>e. InterpolateArgs sample_lib [''-port'', ''{{.Config.game-port}}''] [''game-port'' \<mapsto> ''2456''] = Inl e"
  by (rule InterpolateArgs_hyphen [where a = "''game''" and r = "''port}}''"])
    (simp_all add: is_alnum_def is_lower_def is_upper_def is_digit_def)

end
