(* ===== verification/SteamCmd.thy ===== *)
theory SteamCmd
  imports Boilerr_Prelude
begin

text \<open>
  Package \<^verbatim>\<open>internal/steamcmd\<close> (\<^verbatim>\<open>command.go\<close>): the argument list the init container passes to
  SteamCMD.
\<close>

definition DefaultInstallDir :: string where
  "DefaultInstallDir = ''/data/server''"

record CommandConfig =
  cmd_AppID :: int32
  cmd_InstallDir :: string
  cmd_Anonymous :: bool
  cmd_Beta :: string
  cmd_BetaPassword :: string
  cmd_Validate :: bool

record CommandBuilder =
  cb_config :: CommandConfig

definition NewCommandBuilder :: "CommandConfig \<Rightarrow> CommandBuilder" where
  "NewCommandBuilder config = \<lparr>cb_config = config\<rparr>"

definition Build :: "CommandBuilder \<Rightarrow> string list" where
  "Build b =
     (let c = cb_config b;
          args = [];
          installDir = cmd_InstallDir c;
          installDir = (if installDir = [] then DefaultInstallDir else installDir);
          args = args @ [''+force_install_dir'', installDir];
          args = (if cmd_Anonymous c then args @ [''+login'', ''anonymous'']
                  else args @ [''+login'', ''$STEAM_USERNAME'', ''$STEAM_PASSWORD'']);
          args = args @ [''+app_update'', dec_int32 (cmd_AppID c)];
          args = (if cmd_Beta c \<noteq> [] then
                    (let args = args @ [''-beta'', cmd_Beta c] in
                     if cmd_BetaPassword c \<noteq> []
                     then args @ [''-betapassword'', ''$STEAM_BETA_PASSWORD''] else args)
                  else args);
          args = (if cmd_Validate c then args @ [''validate''] else args)
      in args @ [''+quit''])"

definition RequiresCredentials :: "CommandBuilder \<Rightarrow> bool" where
  "RequiresCredentials b = (\<not> cmd_Anonymous (cb_config b))"

definition RequiresBetaPassword :: "CommandBuilder \<Rightarrow> bool" where
  "RequiresBetaPassword b = (cmd_Beta (cb_config b) \<noteq> [] \<and> cmd_BetaPassword (cb_config b) \<noteq> [])"

section \<open>What SteamCMD is told\<close>

text \<open>
  A reader of such an argument list, independent of the builder: it takes the commands in turn and
  records what each one asks for.
\<close>

record steam_request =
  req_installDir :: string
  req_credentials :: bool
  req_app :: string
  req_beta :: "string option"
  req_betaPassword :: bool
  req_validate :: bool

definition read_tail :: "string list \<Rightarrow> bool option" where
  "read_tail args =
     (if args = [''+quit''] then Some False
      else if args = [''validate'', ''+quit''] then Some True
      else None)"

definition read_options :: "string list \<Rightarrow> (string option \<times> bool \<times> bool) option" where
  "read_options args =
     (case args of
        o1 # b # rest \<Rightarrow>
          if o1 = ''-beta'' then
            (case rest of
               o2 # p # rest' \<Rightarrow>
                 if o2 = ''-betapassword'' then
                   map_option (\<lambda>v. (Some b, True, v))
                     (if p = ''$STEAM_BETA_PASSWORD'' then read_tail rest' else None)
                 else map_option (\<lambda>v. (Some b, False, v)) (read_tail rest)
             | _ \<Rightarrow> map_option (\<lambda>v. (Some b, False, v)) (read_tail rest))
          else map_option (\<lambda>v. (None, False, v)) (read_tail args)
      | _ \<Rightarrow> map_option (\<lambda>v. (None, False, v)) (read_tail args))"

definition read_update :: "string \<Rightarrow> bool \<Rightarrow> string list \<Rightarrow> steam_request option" where
  "read_update dir cred args =
     (case args of
        u # app # rest \<Rightarrow>
          if u = ''+app_update'' then
            map_option
              (\<lambda>(beta, pw, v). \<lparr>req_installDir = dir, req_credentials = cred, req_app = app,
                 req_beta = beta, req_betaPassword = pw, req_validate = v\<rparr>)
              (read_options rest)
          else None
      | _ \<Rightarrow> None)"

definition read_request :: "string list \<Rightarrow> steam_request option" where
  "read_request args =
     (case args of
        f # dir # l # who # rest \<Rightarrow>
          if f \<noteq> ''+force_install_dir'' \<or> l \<noteq> ''+login'' then None
          else if who = ''anonymous'' then read_update dir False rest
          else if who = ''$STEAM_USERNAME'' \<and> take 1 rest = [''$STEAM_PASSWORD''] then
            read_update dir True (drop 1 rest)
          else None
      | _ \<Rightarrow> None)"

definition request_of :: "CommandConfig \<Rightarrow> steam_request" where
  "request_of c =
     \<lparr>req_installDir = (if cmd_InstallDir c = [] then DefaultInstallDir else cmd_InstallDir c),
      req_credentials = (\<not> cmd_Anonymous c),
      req_app = dec_int32 (cmd_AppID c),
      req_beta = (if cmd_Beta c = [] then None else Some (cmd_Beta c)),
      req_betaPassword = (cmd_Beta c \<noteq> [] \<and> cmd_BetaPassword c \<noteq> []),
      req_validate = cmd_Validate c\<rparr>"

lemmas read_defs = read_request_def read_update_def read_options_def read_tail_def

lemma read_Build: "read_request (Build b) = Some (request_of (cb_config b))"
  by (cases "cmd_Anonymous (cb_config b)"; cases "cmd_Beta (cb_config b) = []";
      cases "cmd_BetaPassword (cb_config b) = []"; cases "cmd_Validate (cb_config b)")
    (simp_all add: Build_def read_defs request_of_def Let_def)

lemma Build_beta_password:
  "Build (NewCommandBuilder (c\<lparr>cmd_BetaPassword := x # p\<rparr>)) =
   Build (NewCommandBuilder (c\<lparr>cmd_BetaPassword := y # q\<rparr>))"
  by (simp add: Build_def NewCommandBuilder_def Let_def)

section \<open>Properties\<close>

text \<open>
  C36. Whatever directory, branch and application the configuration names, the argument list Build
  makes is read back, command by command, as the request the configuration describes: one install
  directory, one login with or without credentials, one application, the beta branch and password
  flags, and validation.
\<close>

theorem Build_roundtrip:
  "read_request (Build (NewCommandBuilder c)) = Some (request_of c)"
  by (simp add: read_Build NewCommandBuilder_def)

text \<open>
  RequiresCredentials and RequiresBetaPassword say what the argument list asks for, and the
  beta password itself has no influence on the list beyond being set.
\<close>

theorem Build_requirements:
  "RequiresCredentials b = (\<exists>r. read_request (Build b) = Some r \<and> req_credentials r) \<and>
   RequiresBetaPassword b = (\<exists>r. read_request (Build b) = Some r \<and> req_betaPassword r) \<and>
   Build (NewCommandBuilder (c\<lparr>cmd_BetaPassword := x # p\<rparr>)) =
   Build (NewCommandBuilder (c\<lparr>cmd_BetaPassword := y # q\<rparr>))"
  using Build_beta_password [of x p c y q]
  by (simp add: read_Build RequiresCredentials_def RequiresBetaPassword_def request_of_def)

end
