(* ===== verification/StatefulSet_Builder.thy ===== *)
theory StatefulSet_Builder
  imports Interpolate SteamCmd
begin

text \<open>
  \<^verbatim>\<open>internal/resources/statefulset.go\<close>: the StatefulSet of a server, built from the server's spec
  with the game's definition as fallback.  A builder is the pair of the two; the game definition is
  \<^const>\<open>None\<close> in fallback mode.  Go nil and empty slices are not told apart.
\<close>

section \<open>Names\<close>

definition ServerFilesVolumeName :: string where
  "ServerFilesVolumeName = ''serverfiles''"

definition ServerFilesMountPath :: string where
  "ServerFilesMountPath = ''/serverfiles''"

definition InitContainerName :: string where
  "InitContainerName = ''steamcmd''"

definition GameServerContainerName :: string where
  "GameServerContainerName = ''gameserver''"

definition DefaultImage :: string where
  "DefaultImage = ''steamcmd/steamcmd:ubuntu-22''"

definition PVCName :: "string \<Rightarrow> string" where
  "PVCName serverName = serverName @ ''-data''"

definition ConfigMapName :: "string \<Rightarrow> string" where
  "ConfigMapName serverName = serverName @ ''-config''"

definition config_file_key :: "nat \<Rightarrow> string" where
  "config_file_key i = ''config-'' @ dec_nat i"

section \<open>The builder and its fallback chains\<close>

record StatefulSetBuilder =
  sb_server :: steam_server
  sb_gameDef :: "game_definition option"

definition NewStatefulSetBuilder ::
  "steam_server \<Rightarrow> game_definition option \<Rightarrow> StatefulSetBuilder" where
  "NewStatefulSetBuilder server gameDef = \<lparr>sb_server = server, sb_gameDef = gameDef\<rparr>"

abbreviation sb_spec :: "StatefulSetBuilder \<Rightarrow> steam_server_spec" where
  "sb_spec b \<equiv> server_spec (sb_server b)"

definition getResources :: "StatefulSetBuilder \<Rightarrow> resource_requirements" where
  "getResources b =
     (case ss_resources (sb_spec b) of
        Some r \<Rightarrow> r
      | None \<Rightarrow>
          (case sb_gameDef b of
             Some g \<Rightarrow> gd_defaultResources (gamedef_spec g)
           | None \<Rightarrow> no_resources))"

definition getImage :: "StatefulSetBuilder \<Rightarrow> string" where
  "getImage b =
     (if ss_image (sb_spec b) \<noteq> [] then ss_image (sb_spec b)
      else (case sb_gameDef b of
              Some g \<Rightarrow>
                if gd_image (gamedef_spec g) \<noteq> [] then gd_image (gamedef_spec g) else DefaultImage
            | None \<Rightarrow> DefaultImage))"

definition getInstallDir :: "StatefulSetBuilder \<Rightarrow> string" where
  "getInstallDir b =
     (case sb_gameDef b of
        Some g \<Rightarrow>
          if gd_installDir (gamedef_spec g) \<noteq> [] then gd_installDir (gamedef_spec g)
          else ServerFilesMountPath
      | None \<Rightarrow> ServerFilesMountPath)"

definition getCommand :: "StatefulSetBuilder \<Rightarrow> string list" where
  "getCommand b =
     (if length (ss_command (sb_spec b)) > 0 then ss_command (sb_spec b)
      else (case sb_gameDef b of
              Some g \<Rightarrow>
                if gd_command (gamedef_spec g) \<noteq> [] then [gd_command (gamedef_spec g)] else []
            | None \<Rightarrow> []))"

definition getArgs :: "StatefulSetBuilder \<Rightarrow> string list" where
  "getArgs b =
     (if length (ss_args (sb_spec b)) > 0 then ss_args (sb_spec b)
      else (case sb_gameDef b of Some g \<Rightarrow> gd_args (gamedef_spec g) | None \<Rightarrow> []))"

definition getAppID :: "StatefulSetBuilder \<Rightarrow> int32" where
  "getAppID b =
     (case ss_appId (sb_spec b) of
        Some a \<Rightarrow> a
      | None \<Rightarrow> (case sb_gameDef b of Some g \<Rightarrow> gd_appId (gamedef_spec g) | None \<Rightarrow> 0))"

definition isAnonymous :: "StatefulSetBuilder \<Rightarrow> bool" where
  "isAnonymous b = (case ss_anonymous (sb_spec b) of None \<Rightarrow> True | Some a \<Rightarrow> a)"

definition shouldValidate :: "StatefulSetBuilder \<Rightarrow> bool" where
  "shouldValidate b = (case ss_validate (sb_spec b) of None \<Rightarrow> True | Some v \<Rightarrow> v)"

definition getPorts :: "StatefulSetBuilder \<Rightarrow> server_port list" where
  "getPorts b =
     (if length (ss_ports (sb_spec b)) > 0 then ss_ports (sb_spec b)
      else (case sb_gameDef b of Some g \<Rightarrow> gd_ports (gamedef_spec g) | None \<Rightarrow> []))"

section \<open>Parts of the pod\<close>

definition sts_labels :: "StatefulSetBuilder \<Rightarrow> string gomap" where
  "sts_labels b =
     (let labels =
        [(''app.kubernetes.io/name'', ''steamserver''),
         (''app.kubernetes.io/instance'', server_name (sb_server b)),
         (''app.kubernetes.io/managed-by'', ''boilerr''),
         (''boilerr.dev/game'', ss_gameDefinition (sb_spec b))];
          appID = getAppID b
      in if sint appID > 0
         then AList.update ''boilerr.dev/app-id'' (dec_int32 appID) labels else labels)"

definition buildSteamCMDArgs :: "StatefulSetBuilder \<Rightarrow> string list" where
  "buildSteamCMDArgs b =
     Build (NewCommandBuilder
       \<lparr>cmd_AppID = getAppID b, cmd_InstallDir = getInstallDir b, cmd_Anonymous = isAnonymous b,
        cmd_Beta = ss_beta (sb_spec b), cmd_BetaPassword = [], cmd_Validate = shouldValidate b\<rparr>)"

definition steam_secret_env :: "string \<Rightarrow> string \<Rightarrow> string \<Rightarrow> env_var" where
  "steam_secret_env name secret key =
     \<lparr>env_name = name, env_value = [],
      env_valueFrom = Some
        \<lparr>evs_secretKeyRef = Some \<lparr>sks_name = secret, sks_key = key, sks_optional = None\<rparr>,
         evs_rest = []\<rparr>\<rparr>"

definition buildInitEnvVars :: "StatefulSetBuilder \<Rightarrow> env_var list" where
  "buildInitEnvVars b =
     (let envVars = [\<lparr>env_name = ''APP_ID'', env_value = dec_int32 (getAppID b), env_valueFrom = None\<rparr>];
          secret = ss_steamCredentialsSecret (sb_spec b)
      in if \<not> isAnonymous b \<and> secret \<noteq> []
         then envVars @ [steam_secret_env ''STEAM_USERNAME'' secret ''username'',
                         steam_secret_env ''STEAM_PASSWORD'' secret ''password'']
         else envVars)"

definition serverfiles_mount :: volume_mount where
  "serverfiles_mount =
     \<lparr>vm_name = ServerFilesVolumeName, vm_mountPath = ServerFilesMountPath, vm_subPath = [],
      vm_readOnly = False\<rparr>"

definition buildInitContainer :: "StatefulSetBuilder \<Rightarrow> container" where
  "buildInitContainer b =
     \<lparr>ctr_name = InitContainerName, ctr_image = getImage b, ctr_command = [''steamcmd''],
      ctr_args = buildSteamCMDArgs b, ctr_ports = [], ctr_env = buildInitEnvVars b,
      ctr_resources = no_resources, ctr_volumeMounts = [serverfiles_mount]\<rparr>"

definition resolveConfigValues ::
  "golib \<Rightarrow> range_order \<Rightarrow> StatefulSetBuilder \<Rightarrow> (string \<rightharpoonup> string) \<times> env_var list" where
  "resolveConfigValues L it b =
     (let schema = (case sb_gameDef b of Some g \<Rightarrow> schema_of g | None \<Rightarrow> [])
      in ResolveConfigValues L it (ss_config (sb_spec b)) schema)"

definition getInterpolatedArgs ::
  "golib \<Rightarrow> StatefulSetBuilder \<Rightarrow> (string \<rightharpoonup> string) \<Rightarrow> string list" where
  "getInterpolatedArgs L b configValues =
     (let args = getArgs b in
      if length args = 0 then []
      else (case InterpolateArgs L args configValues of
              Inl _ \<Rightarrow> args
            | Inr interpolated \<Rightarrow> interpolated))"

definition buildMainEnvVars :: "StatefulSetBuilder \<Rightarrow> env_var list \<Rightarrow> env_var list" where
  "buildMainEnvVars b configEnvVars =
     (let gameDefEnv = (case sb_gameDef b of Some g \<Rightarrow> gd_env (gamedef_spec g) | None \<Rightarrow> [])
      in MergeEnvVars [gameDefEnv, ss_env (sb_spec b), configEnvVars])"

definition container_port_of :: "server_port \<Rightarrow> container_port" where
  "container_port_of port =
     \<lparr>cp_name = port_name port, cp_containerPort = port_containerPort port,
      cp_protocol = (if port_protocol port = [] then ProtocolUDP else port_protocol port)\<rparr>"

definition buildContainerPorts :: "StatefulSetBuilder \<Rightarrow> container_port list" where
  "buildContainerPorts b = map container_port_of (getPorts b)"

definition buildVolumes :: "StatefulSetBuilder \<Rightarrow> volume list" where
  "buildVolumes b =
     (let volumes = [\<lparr>vol_name = ServerFilesVolumeName,
                      vol_source = PersistentVolumeClaimSource (PVCName (server_name (sb_server b)))\<rparr>]
      in if length (ss_configFiles (sb_spec b)) > 0
         then volumes @ [\<lparr>vol_name = ''config-files'',
                          vol_source = ConfigMapSource (ConfigMapName (server_name (sb_server b)))\<rparr>]
         else volumes)"

definition config_file_mount :: "nat \<times> config_file \<Rightarrow> volume_mount" where
  "config_file_mount icf =
     \<lparr>vm_name = ''config-files'', vm_mountPath = cf_path (snd icf),
      vm_subPath = config_file_key (fst icf), vm_readOnly = True\<rparr>"

definition buildVolumeMounts :: "StatefulSetBuilder \<Rightarrow> volume_mount list" where
  "buildVolumeMounts b =
     serverfiles_mount # map config_file_mount (List.enumerate 0 (ss_configFiles (sb_spec b)))"

definition buildMainContainer :: "golib \<Rightarrow> range_order \<Rightarrow> StatefulSetBuilder \<Rightarrow> container" where
  "buildMainContainer L it b =
     (case resolveConfigValues L it b of (configValues, configEnvVars) \<Rightarrow>
        (let args = getInterpolatedArgs L b configValues;
             env = buildMainEnvVars b configEnvVars
         in \<lparr>ctr_name = GameServerContainerName, ctr_image = getImage b, ctr_command = getCommand b,
             ctr_args = args, ctr_ports = buildContainerPorts b, ctr_env = env,
             ctr_resources = getResources b, ctr_volumeMounts = buildVolumeMounts b\<rparr>))"

definition StatefulSet_Build :: "golib \<Rightarrow> range_order \<Rightarrow> StatefulSetBuilder \<Rightarrow> stateful_set" where
  "StatefulSet_Build L it b =
     (let labels = sts_labels b; replicas = 1 in
      \<lparr>sts_meta = new_meta (server_name (sb_server b)) (server_namespace (sb_server b)) labels,
       sts_spec =
         \<lparr>sts_replicas = Some replicas,
          sts_serviceName = server_name (sb_server b),
          sts_selector = labels,
          sts_templateLabels = labels,
          sts_podSpec =
            \<lparr>ps_initContainers = [buildInitContainer b],
             ps_containers = [buildMainContainer L it b],
             ps_volumes = buildVolumes b\<rparr>\<rparr>,
       sts_statusReplicas = 0, sts_readyReplicas = 0\<rparr>)"

section \<open>Facts\<close>

lemmas sts_build_defs = StatefulSet_Build_def buildMainContainer_def buildInitContainer_def Let_def

lemma sts_labels_lookup:
  "map_of (sts_labels b) =
     [''app.kubernetes.io/name'' \<mapsto> ''steamserver'',
      ''app.kubernetes.io/instance'' \<mapsto> server_name (sb_server b),
      ''app.kubernetes.io/managed-by'' \<mapsto> ''boilerr'',
      ''boilerr.dev/game'' \<mapsto> ss_gameDefinition (sb_spec b)]
     (''boilerr.dev/app-id'' :=
        (if sint (getAppID b) > 0 then Some (dec_int32 (getAppID b)) else None))"
  by (auto simp: sts_labels_def Let_def fun_eq_iff)

lemma wf_sts_labels [wf_intros]: "wf_map (sts_labels b)"
  by (simp add: sts_labels_def Let_def wf_map_def go_keys_def)

lemma getInstallDir_nonempty: "getInstallDir b \<noteq> []"
  by (auto simp: getInstallDir_def ServerFilesMountPath_def split: option.split)

lemma read_buildSteamCMDArgs:
  "read_request (buildSteamCMDArgs b) = Some
     \<lparr>req_installDir = getInstallDir b, req_credentials = (\<not> isAnonymous b),
      req_app = dec_int32 (getAppID b),
      req_beta = (if ss_beta (sb_spec b) = [] then None else Some (ss_beta (sb_spec b))),
      req_betaPassword = False, req_validate = shouldValidate b\<rparr>"
  by (simp add: buildSteamCMDArgs_def read_Build NewCommandBuilder_def request_of_def
      getInstallDir_nonempty)

lemma enumerate_mem: "(i, x) \<in> set (List.enumerate 0 xs) \<longleftrightarrow> i < length xs \<and> xs ! i = x"
  by (simp add: in_set_enumerate_eq conj_commute eq_commute)

lemma config_file_key_inject [simp]: "config_file_key i = config_file_key j \<longleftrightarrow> i = j"
  by (simp add: config_file_key_def)

text \<open>A path is at or below a directory.\<close>

definition path_under :: "string \<Rightarrow> string \<Rightarrow> bool" where
  "path_under p d \<longleftrightarrow> p = d \<or> take (Suc (length d)) p = d @ ''/''"

definition on_volume :: "container \<Rightarrow> string \<Rightarrow> bool" where
  "on_volume c p \<longleftrightarrow> list_ex (\<lambda>m. path_under p (vm_mountPath m)) (ctr_volumeMounts c)"

lemma first_occ_append:
  "rev (remdups (rev (xs @ ys))) =
   rev (remdups (rev xs)) @ filter (\<lambda>y. y \<notin> set xs) (rev (remdups (rev ys)))"
proof (induction ys rule: rev_induct)
  case Nil
  then show ?case by simp
next
  case (snoc y ys)
  then show ?case by (auto simp flip: append_assoc)
qed

lemma first_occ_Cons: "\<exists>zs. rev (remdups (rev (y # ys))) = y # zs"
  using first_occ_append [of "[y]" ys] by auto

lemma merge_first_new:
  assumes "y \<notin> set xs"
  shows "rev (remdups (rev (xs @ y # ys))) ! length (remdups (rev xs)) = y"
proof -
  obtain zs where "rev (remdups (rev (y # ys))) = y # zs"
    using first_occ_Cons [of y ys] by (elim exE)
  with assms show ?thesis
    by (simp only: first_occ_append) (simp add: nth_append)
qed

text \<open>An iteration order that visits a given key first.\<close>

definition first_key :: "string \<Rightarrow> range_order" where
  "first_key k = (\<lambda>_ ks. if k \<in> set ks then k # remove1 k ks else ks)"

lemma permuting_first_key: "permuting (first_key k)"
  by (simp add: permuting_def first_key_def)

lemma resolve_env_first:
  assumes "(k, sel) \<in> secret_refs config"
  shows "\<exists>es. snd (ResolveConfigValues L (first_key k) config schema) = config_env_var L k sel # es"
proof -
  from assms have "k \<in> set (go_keys config)" and "secret_env L config k = Some (config_env_var L k sel)"
    by (auto simp: secret_refs_def in_go_keys_iff secret_env_def)
  then show ?thesis
    by (simp add: resolve_envs first_key_def List.map_filter_def)
qed

definition outer_env_names :: "StatefulSetBuilder \<Rightarrow> string list" where
  "outer_env_names b =
     map env_name
       ((case sb_gameDef b of Some g \<Rightarrow> gd_env (gamedef_spec g) | None \<Rightarrow> []) @ ss_env (sb_spec b))"

lemma buildMainEnvVars_names:
  "map env_name (buildMainEnvVars b es) = rev (remdups (rev (outer_env_names b @ map env_name es)))"
  by (simp add: buildMainEnvVars_def MergeEnvVars_names outer_env_names_def del: rev_append)

abbreviation sts_main_env :: "stateful_set \<Rightarrow> env_var list" where
  "sts_main_env s \<equiv> ctr_env (hd (ps_containers (sts_podSpec (sts_spec s))))"

lemma sts_main_env_Build:
  "sts_main_env (StatefulSet_Build L it b) = buildMainEnvVars b (snd (resolveConfigValues L it b))"
  by (simp add: sts_build_defs split: prod.split)

lemma main_env_first_key:
  assumes "(k, sel) \<in> secret_refs (ss_config (sb_spec b))"
    and "config_env_name L k \<notin> set (outer_env_names b)"
  shows "map env_name (sts_main_env (StatefulSet_Build L (first_key k) b))
           ! length (remdups (rev (outer_env_names b))) = config_env_name L k"
proof -
  obtain es where "snd (resolveConfigValues L (first_key k) b) = config_env_var L k sel # es"
    using resolve_env_first [OF assms(1)] by (auto simp: resolveConfigValues_def Let_def)
  then show ?thesis
    using merge_first_new [OF assms(2)]
    by (simp add: sts_main_env_Build buildMainEnvVars_names del: rev_append)
qed

lemma mset_short: "mset xs = mset ys \<Longrightarrow> length xs \<le> 1 \<Longrightarrow> xs = ys"
  by (cases xs; cases ys) (auto dest: mset_eq_length)

lemma map_filter_single:
  "distinct ks \<Longrightarrow> (\<And>k k'. f k \<noteq> None \<Longrightarrow> f k' \<noteq> None \<Longrightarrow> k = k') \<Longrightarrow> length (List.map_filter f ks) \<le> 1"
proof (induction ks)
  case Nil
  then show ?case by (simp add: List.map_filter_def)
next
  case (Cons k ks)
  show ?case
  proof (cases "f k")
    case None
    with Cons show ?thesis by (simp add: List.map_filter_def)
  next
    case (Some v)
    have "f x = None" if "x \<in> set ks" for x
    proof (rule ccontr)
      assume "f x \<noteq> None"
      then have "x = k" using Cons.prems(2) [of x k] Some by simp
      with that Cons.prems(1) show False by simp
    qed
    then have "filter (\<lambda>x. f x \<noteq> None) ks = []"
      by (simp add: filter_empty_conv)
    with Some show ?thesis by (simp add: List.map_filter_def)
  qed
qed

lemma resolve_one_secret:
  assumes "permuting it" "permuting it'" and "wf_map config"
    and one: "\<And>k sel k' sel'. (k, sel) \<in> secret_refs config \<Longrightarrow> (k', sel') \<in> secret_refs config \<Longrightarrow> k = k'"
  shows "ResolveConfigValues L it config schema = ResolveConfigValues L it' config schema"
proof (rule prod_eqI)
  show "fst (ResolveConfigValues L it config schema) = fst (ResolveConfigValues L it' config schema)"
    by (simp add: fun_eq_iff resolve_values assms)
  have "secret_env L config k \<noteq> None \<Longrightarrow> \<exists>sel. (k, sel) \<in> secret_refs config" for k
    by (auto simp: secret_env_def secret_refs_def go_index_def zero_config_value_def split: option.splits)
  then have "secret_env L config k \<noteq> None \<Longrightarrow> secret_env L config k' \<noteq> None \<Longrightarrow> k = k'" for k k'
    using one by metis
  then have "length (List.map_filter (secret_env L config) (it RangeConfig (go_keys config))) \<le> 1"
    using assms(3) permuting_distinct [OF assms(1)]
    by (intro map_filter_single) (simp_all only: wf_map_def)
  then show "snd (ResolveConfigValues L it config schema) = snd (ResolveConfigValues L it' config schema)"
    using resolve_env_mset [OF assms(1)] resolve_env_mset [OF assms(2)]
    by (intro mset_short) (simp_all add: resolve_envs)
qed

section \<open>Sample data\<close>

definition rcon_selector :: secret_key_selector where
  "rcon_selector = \<lparr>sks_name = ''valheim-secrets'', sks_key = ''rcon'', sks_optional = None\<rparr>"

definition password_selector :: secret_key_selector where
  "password_selector = \<lparr>sks_name = ''valheim-secrets'', sks_key = ''password'', sks_optional = None\<rparr>"

text \<open>The demo's server with a second secret in its configuration.\<close>

definition two_secret_server :: steam_server where
  "two_secret_server = sample_server\<lparr>server_spec := (server_spec sample_server)
     \<lparr>ss_config := AList.update ''rcon'' \<lparr>cv_value = [], cv_secretKeyRef = Some rcon_selector\<rparr> demo_config\<rparr>\<rparr>"

lemma two_secret_refs:
  "(''rcon'', rcon_selector) \<in> secret_refs (ss_config (server_spec two_secret_server))"
  "(''password'', password_selector) \<in> secret_refs (ss_config (server_spec two_secret_server))"
  by (simp_all add: secret_refs_def two_secret_server_def demo_config_def password_selector_def)

lemma rcon_env_name: "config_env_name sample_lib ''rcon'' = ''CONFIG_RCON''"
  by code_simp

lemma sample_server_simps [simp]:
  "ss_config (server_spec sample_server) = demo_config"
  "ss_env (server_spec sample_server) = []" "wf_server sample_server"
  by (simp_all add: demo_server_with_def wf_server_def wf_map_def go_keys_def demo_config_def)

section \<open>Properties\<close>

text \<open>
  C31. Every volume mount of both containers names a volume of the pod, the pod's volumes have
  distinct names, and the data volume is the claim named after the server.
\<close>

theorem mounts_have_volumes:
  "(let pod = sts_podSpec (sts_spec (StatefulSet_Build L it b)) in
    list_all (\<lambda>c. list_all (\<lambda>m. vm_name m \<in> set (map vol_name (ps_volumes pod))) (ctr_volumeMounts c))
      (ps_initContainers pod @ ps_containers pod) \<and>
    distinct (map vol_name (ps_volumes pod)) \<and>
    \<lparr>vol_name = ServerFilesVolumeName,
     vol_source = PersistentVolumeClaimSource (PVCName (server_name (sb_server b)))\<rparr>
      \<in> set (ps_volumes pod))"
  by (auto simp: sts_build_defs list_all_iff buildVolumes_def buildVolumeMounts_def
      serverfiles_mount_def config_file_mount_def ServerFilesVolumeName_def split: prod.split)

text \<open>
  C34. The directory SteamCMD is told to install into is on the init container's volume exactly when
  the game definition leaves it empty (or there is none) or names the mount path or a path below
  it; the directory \<^verbatim>\<open>/data/server\<close>, the default of the resource definition, is not.
\<close>

theorem install_dir_on_volume:
  "\<exists>r. read_request (ctr_args (buildInitContainer b)) = Some r \<and>
     on_volume (buildInitContainer b) (req_installDir r) =
       (case sb_gameDef b of
          None \<Rightarrow> True
        | Some g \<Rightarrow> gd_installDir (gamedef_spec g) = [] \<or>
                    path_under (gd_installDir (gamedef_spec g)) ServerFilesMountPath) \<and>
     \<not> on_volume (buildInitContainer b) DefaultInstallDir"
proof -
  have "on_volume (buildInitContainer b) p = path_under p ServerFilesMountPath" for p
    by (simp add: on_volume_def buildInitContainer_def serverfiles_mount_def)
  moreover have "\<not> path_under DefaultInstallDir ServerFilesMountPath"
    by (simp add: path_under_def DefaultInstallDir_def ServerFilesMountPath_def)
  moreover have "path_under ServerFilesMountPath ServerFilesMountPath"
    by (simp add: path_under_def)
  moreover have "ctr_args (buildInitContainer b) = buildSteamCMDArgs b"
    by (simp add: buildInitContainer_def)
  ultimately show ?thesis
    by (simp add: read_buildSteamCMDArgs getInstallDir_def split: option.split)
qed

text \<open>
  The init container logs in with credentials exactly when the server is not anonymous, and it
  is given the two credential variables, from the secret the server names, exactly when it logs in
  with credentials and a secret is named.
\<close>

theorem init_credentials:
  "\<exists>r. read_request (ctr_args (buildInitContainer b)) = Some r \<and>
     req_credentials r = (ss_anonymous (sb_spec b) = Some False) \<and>
     (let secret = ss_steamCredentialsSecret (sb_spec b); env = ctr_env (buildInitContainer b) in
      (if req_credentials r \<and> secret \<noteq> []
       then env = [\<lparr>env_name = ''APP_ID'', env_value = req_app r, env_valueFrom = None\<rparr>,
                   steam_secret_env ''STEAM_USERNAME'' secret ''username'',
                   steam_secret_env ''STEAM_PASSWORD'' secret ''password'']
       else map env_name env = [''APP_ID'']))"
  by (simp add: buildInitContainer_def read_buildSteamCMDArgs buildInitEnvVars_def isAnonymous_def
      Let_def split: option.split)

text \<open>
  The main container's arguments are as many as the configured ones and are either all
  interpolated, each on its own, or, when a single one fails to interpolate, all left as written.
\<close>

theorem main_args_all_or_nothing:
  "length (getInterpolatedArgs L b cfg) = length (getArgs b) \<and>
   (if list_all (\<lambda>arg. \<exists>out. InterpolateString L arg cfg = Inr out) (getArgs b)
    then list_all2 (\<lambda>arg out. InterpolateString L arg cfg = Inr out)
           (getArgs b) (getInterpolatedArgs L b cfg)
    else getInterpolatedArgs L b cfg = getArgs b)"
proof (cases "InterpolateArgs L (getArgs b) cfg")
  case (Inl e)
  then have "\<not> list_all (\<lambda>arg. \<exists>out. InterpolateString L arg cfg = Inr out) (getArgs b)"
    by (auto simp: InterpolateArgs_Inl)
  moreover have "getInterpolatedArgs L b cfg = getArgs b"
    using Inl by (simp add: getInterpolatedArgs_def Let_def)
  ultimately show ?thesis by simp
next
  case (Inr outs)
  then have pw: "list_all2 (\<lambda>arg out. InterpolateString L arg cfg = Inr out) (getArgs b) outs"
    by (simp add: InterpolateArgs_Inr)
  moreover have "list_all (\<lambda>arg. \<exists>out. InterpolateString L arg cfg = Inr out) (getArgs b)"
    using list_all2_in_left [OF pw] by (auto simp: list_all_iff)
  moreover have "getInterpolatedArgs L b cfg = outs"
    using Inr pw by (auto simp: getInterpolatedArgs_def Let_def)
  ultimately show ?thesis by (simp add: list_all2_lengthD)
qed

text \<open>
  C33. When two secret keys of the configuration have different variable names that no other list
  uses, the StatefulSet depends on the order in which the configuration map is visited: two orders
  give StatefulSets with different pod templates.
\<close>

theorem StatefulSet_order_dependent:
  assumes "(k, sel) \<in> secret_refs (ss_config (sb_spec b))"
    and "(k', sel') \<in> secret_refs (ss_config (sb_spec b))"
    and "config_env_name L k \<noteq> config_env_name L k'"
    and "config_env_name L k \<notin> set (outer_env_names b)"
    and "config_env_name L k' \<notin> set (outer_env_names b)"
  shows "\<exists>it it'. permuting it \<and> permuting it' \<and>
     sts_podSpec (sts_spec (StatefulSet_Build L it b)) \<noteq>
     sts_podSpec (sts_spec (StatefulSet_Build L it' b))"
proof -
  have "sts_main_env (StatefulSet_Build L (first_key k) b) \<noteq>
        sts_main_env (StatefulSet_Build L (first_key k') b)"
    using main_env_first_key [OF assms(1,4)] main_env_first_key [OF assms(2,5)] assms(3) by metis
  then show ?thesis
    using permuting_first_key by metis
qed

lemma StatefulSet_order_dependent_witness:
  "\<exists>it it'. permuting it \<and> permuting it' \<and>
     sts_podSpec (sts_spec (StatefulSet_Build sample_lib it (NewStatefulSetBuilder two_secret_server None))) \<noteq>
     sts_podSpec (sts_spec (StatefulSet_Build sample_lib it' (NewStatefulSetBuilder two_secret_server None)))"
  by (rule StatefulSet_order_dependent [where k = "''rcon''" and k' = "''password''"
        and sel = rcon_selector and sel' = password_selector])
    (simp_all add: NewStatefulSetBuilder_def two_secret_refs rcon_env_name demo_env_name
      outer_env_names_def, simp_all add: two_secret_server_def)

lemma Build_one_secret:
  assumes "permuting it" and "permuting it'" and "wf_map (ss_config (sb_spec b))"
    and "\<And>k sel k' sel'. (k, sel) \<in> secret_refs (ss_config (sb_spec b)) \<Longrightarrow>
           (k', sel') \<in> secret_refs (ss_config (sb_spec b)) \<Longrightarrow> k = k'"
  shows "StatefulSet_Build L it b = StatefulSet_Build L it' b"
proof -
  have "resolveConfigValues L it b = resolveConfigValues L it' b"
    unfolding resolveConfigValues_def Let_def
    by (rule resolve_one_secret [OF assms(1,2) _ assms(4)]) (use assms(3) in simp)
  then show ?thesis by (simp add: StatefulSet_Build_def buildMainContainer_def)
qed

text \<open>
  C32. When at most one key of the configuration is a secret, the StatefulSet is the same whatever
  the order in which the maps are visited.
\<close>

theorem StatefulSet_deterministic:
  assumes "permuting it" and "permuting it'" and "wf_server (sb_server b)"
    and "\<And>k sel k' sel'. (k, sel) \<in> secret_refs (ss_config (sb_spec b)) \<Longrightarrow>
           (k', sel') \<in> secret_refs (ss_config (sb_spec b)) \<Longrightarrow> k = k'"
  shows "StatefulSet_Build L it b = StatefulSet_Build L it' b"
  by (rule Build_one_secret [OF assms(1,2) _ assms(4)]) (use assms(3) in \<open>simp add: wf_server_def\<close>)

lemma StatefulSet_deterministic_witness:
  "StatefulSet_Build sample_lib (\<lambda>_. rev) (NewStatefulSetBuilder sample_server (Some demo_gameDef)) =
   StatefulSet_Build sample_lib (\<lambda>_ ks. ks) (NewStatefulSetBuilder sample_server (Some demo_gameDef))"
  by (rule StatefulSet_deterministic [OF permuting_rev permuting_id])
    (simp_all add: NewStatefulSetBuilder_def demo_secret_refs)

text \<open>
  In the main container's environment every secret of the configuration is found under its
  variable name as a reference to a secret of the configuration, even where the game or the server
  defines a variable of that name, and no name occurs twice.
\<close>

theorem main_env_secrets:
  assumes "permuting it" and "(k, sel) \<in> secret_refs (ss_config (sb_spec b))"
  shows "distinct (map env_name (sts_main_env (StatefulSet_Build L it b))) \<and>
     (\<exists>k' sel'. (k', sel') \<in> secret_refs (ss_config (sb_spec b)) \<and>
        config_env_name L k' = config_env_name L k \<and>
        find (\<lambda>e. env_name e = config_env_name L k) (sts_main_env (StatefulSet_Build L it b))
          = Some (config_env_var L k' sel'))"
  unfolding sts_main_env_Build buildMainEnvVars_def resolveConfigValues_def Let_def
  by (intro conjI MergeEnvVars_distinct) (rule secret_lookup [OF assms], blast)

text \<open>What a schema entry contributes to the pod: its default and nothing else.\<close>

definition default_only :: "config_schema_entry \<Rightarrow> config_schema_entry" where
  "default_only entry = zero_schema_entry\<lparr>cse_default := cse_default entry\<rparr>"

definition used_fields :: "game_definition \<Rightarrow> game_definition" where
  "used_fields g = g\<lparr>gamedef_spec := (gamedef_spec g)
     \<lparr>gd_configSchema := map_option (map (\<lambda>(k, entry). (k, default_only entry))) (gd_configSchema (gamedef_spec g)),
      gd_configFiles := [], gd_defaultStorage := [], gd_healthCheck := None\<rparr>\<rparr>"

lemma schema_of_used_fields:
  "schema_of (used_fields g) = map (\<lambda>(k, entry). (k, default_only entry)) (schema_of g)"
  by (simp add: schema_of_def used_fields_def split: option.split)

lemma go_keys_default_only:
  "go_keys (map (\<lambda>(k, entry). (k, default_only entry)) schema) = go_keys schema"
  by (simp add: go_keys_def case_prod_beta comp_def)

lemma default_default_only:
  "cse_default (go_index zero_schema_entry (map (\<lambda>(k, entry). (k, default_only entry)) schema) k) =
   cse_default (go_index zero_schema_entry schema k)"
  by (cases "map_of schema k") (simp_all add: go_index_def map_of_map default_only_def)

lemmas default_only_schema = go_keys_default_only default_default_only

lemma ResolveConfigValues_default_only:
  "ResolveConfigValues L it config (map (\<lambda>(k, entry). (k, default_only entry)) schema) =
   ResolveConfigValues L it config schema"
proof -
  have "apply_defaults (map (\<lambda>(k, entry). (k, default_only entry)) schema) keys vs =
      apply_defaults schema keys vs" for keys vs
    by (simp add: fun_eq_iff apply_defaults_lookup default_only_schema)
  then show ?thesis by (simp add: ResolveConfigValues_def default_only_schema)
qed

text \<open>
  The StatefulSet does not depend on the game definition's config file templates, its health
  check, its default storage, nor on anything in its configuration schema but the defaults:
  \<^verbatim>\<open>mapTo\<close>, \<^verbatim>\<open>secret\<close> and \<^verbatim>\<open>array\<close> have no effect on the pod.
\<close>

theorem StatefulSet_ignores:
  "StatefulSet_Build L it (NewStatefulSetBuilder s (Some g)) =
   StatefulSet_Build L it (NewStatefulSetBuilder s (Some (used_fields g)))"
proof -
  let ?b = "NewStatefulSetBuilder s (Some g)" and ?b' = "NewStatefulSetBuilder s (Some (used_fields g))"
  have "resolveConfigValues L it ?b' = resolveConfigValues L it ?b"
    by (simp add: resolveConfigValues_def NewStatefulSetBuilder_def schema_of_used_fields
        ResolveConfigValues_default_only)
  moreover have "getImage ?b' = getImage ?b" "getAppID ?b' = getAppID ?b" "getArgs ?b' = getArgs ?b"
    "getCommand ?b' = getCommand ?b" "getPorts ?b' = getPorts ?b" "getResources ?b' = getResources ?b"
    "getInstallDir ?b' = getInstallDir ?b" "buildMainEnvVars ?b' es = buildMainEnvVars ?b es"
    "sb_server ?b' = sb_server ?b" for es
    by (simp_all add: getImage_def getAppID_def getArgs_def getCommand_def getPorts_def getResources_def
        getInstallDir_def buildMainEnvVars_def NewStatefulSetBuilder_def used_fields_def
        split: option.split)
  ultimately show ?thesis
    by (simp add: sts_build_defs sts_labels_def buildSteamCMDArgs_def buildInitEnvVars_def
        isAnonymous_def shouldValidate_def getInterpolatedArgs_def buildContainerPorts_def
        buildVolumes_def buildVolumeMounts_def)
qed

end
