(* ===== verification/Service_Builder.thy ===== *)
theory Service_Builder
  imports StatefulSet_Builder
begin

text \<open>
  \<^verbatim>\<open>internal/resources/service.go\<close>: the Service of a server, and the contract on labels the
  builders share: a Service selects the pods of its own server.
\<close>

record ServiceBuilder =
  vb_server :: steam_server
  vb_gameDef :: "game_definition option"

definition NewServiceBuilder :: "steam_server \<Rightarrow> game_definition option \<Rightarrow> ServiceBuilder" where
  "NewServiceBuilder server gameDef = \<lparr>vb_server = server, vb_gameDef = gameDef\<rparr>"

definition svc_labels :: "ServiceBuilder \<Rightarrow> string gomap" where
  "svc_labels b =
     [(''app.kubernetes.io/name'', ''steamserver''),
      (''app.kubernetes.io/instance'', server_name (vb_server b)),
      (''app.kubernetes.io/managed-by'', ''boilerr''),
      (''boilerr.dev/game'', ss_gameDefinition (server_spec (vb_server b)))]"

definition getServiceType :: "ServiceBuilder \<Rightarrow> string" where
  "getServiceType b =
     (if ss_serviceType (server_spec (vb_server b)) \<noteq> [] then ss_serviceType (server_spec (vb_server b))
      else ServiceTypeLoadBalancer)"

definition svc_getPorts :: "ServiceBuilder \<Rightarrow> server_port list" where
  "svc_getPorts b =
     (if length (ss_ports (server_spec (vb_server b))) > 0 then ss_ports (server_spec (vb_server b))
      else (case vb_gameDef b of Some g \<Rightarrow> gd_ports (gamedef_spec g) | None \<Rightarrow> []))"

definition service_port_of :: "server_port \<Rightarrow> service_port" where
  "service_port_of port =
     (let protocol = (if port_protocol port = [] then ProtocolUDP else port_protocol port);
          servicePort = (if port_servicePort port = 0 then port_containerPort port
                         else port_servicePort port)
      in \<lparr>sp_name = port_name port, sp_port = servicePort, sp_targetPort = port_containerPort port,
          sp_nodePort = 0, sp_protocol = protocol\<rparr>)"

definition buildServicePorts :: "ServiceBuilder \<Rightarrow> service_port list" where
  "buildServicePorts b = map service_port_of (svc_getPorts b)"

definition Service_Build :: "ServiceBuilder \<Rightarrow> service" where
  "Service_Build b =
     (let labels = svc_labels b in
      \<lparr>svc_meta = new_meta (server_name (vb_server b)) (server_namespace (vb_server b)) labels,
       svc_type = getServiceType b, svc_selector = labels, svc_ports = buildServicePorts b,
       svc_clusterIP = [], svc_ingress = []\<rparr>)"

definition ServiceName :: "string \<Rightarrow> string" where
  "ServiceName serverName = serverName"

section \<open>The label contract\<close>

text \<open>A label selector selects an object that carries all its labels.\<close>

definition selects :: "string gomap \<Rightarrow> string gomap \<Rightarrow> bool" where
  "selects selector labels \<longleftrightarrow> list_all (\<lambda>(k, v). map_of labels k = Some v) selector"

text \<open>
  What the builders promise of the labels they give to the objects of a server: the recommended
  application labels, with the server's name as the instance.
\<close>

locale child_labels =
  fixes labels :: "steam_server \<Rightarrow> game_definition option \<Rightarrow> string gomap"
  assumes labels_wf: "wf_map (labels s g)"
    and labels_name: "map_of (labels s g) ''app.kubernetes.io/name'' = Some ''steamserver''"
    and labels_instance: "map_of (labels s g) ''app.kubernetes.io/instance'' = Some (server_name s)"
    and labels_managed: "map_of (labels s g) ''app.kubernetes.io/managed-by'' = Some ''boilerr''"
    and labels_game: "map_of (labels s g) ''boilerr.dev/game'' = Some (ss_gameDefinition (server_spec s))"
begin

lemma selects_only_own:
  assumes "selects (labels s g) ls"
  shows "map_of ls ''app.kubernetes.io/instance'' = Some (server_name s)"
    and "map_of ls ''boilerr.dev/game'' = Some (ss_gameDefinition (server_spec s))"
  using assms labels_instance [of s g] labels_game [of s g]
  by (auto simp: selects_def list_all_iff dest!: map_of_SomeD)

lemma own_service_selects:
  "selects (svc_labels (NewServiceBuilder s' g')) (labels s g) \<longleftrightarrow>
     server_name s' = server_name s \<and>
     ss_gameDefinition (server_spec s') = ss_gameDefinition (server_spec s)"
  using labels_name [of s g] labels_instance [of s g] labels_managed [of s g] labels_game [of s g]
  by (auto simp: selects_def svc_labels_def NewServiceBuilder_def)

end

interpretation sts_child: child_labels "\<lambda>s g. sts_labels (NewStatefulSetBuilder s g)"
  by unfold_locales (auto simp: wf_sts_labels sts_labels_lookup NewStatefulSetBuilder_def)

interpretation svc_child: child_labels "\<lambda>s g. svc_labels (NewServiceBuilder s g)"
  by unfold_locales (auto simp: svc_labels_def NewServiceBuilder_def wf_map_def go_keys_def)

section \<open>Properties\<close>

text \<open>
  C35. The selector of the Service built for one server matches the labels of the pods of the
  StatefulSet built for another (or the same) exactly when the two have the same name and game
  definition; the StatefulSet's own selector is its pod labels.  A Service looks for pods in its own
  namespace only; namespaces are not part of this comparison.
\<close>

theorem service_selects_own_pods:
  "selects (svc_selector (Service_Build (NewServiceBuilder s g)))
     (sts_templateLabels (sts_spec (StatefulSet_Build L it (NewStatefulSetBuilder s' g')))) =
     (server_name s = server_name s' \<and>
      ss_gameDefinition (server_spec s) = ss_gameDefinition (server_spec s')) \<and>
   sts_selector (sts_spec (StatefulSet_Build L it (NewStatefulSetBuilder s' g'))) =
     sts_templateLabels (sts_spec (StatefulSet_Build L it (NewStatefulSetBuilder s' g')))"
  by (simp add: Service_Build_def StatefulSet_Build_def Let_def sts_child.own_service_selects)

text \<open>
  The Service and the main container of one server expose the same ports, in the same order:
  each service port targets the container port of the same name and protocol, and is reachable
  under the configured service port or, without one, under the container port.
\<close>

theorem service_targets_container_ports:
  "list_all2 (\<lambda>sp cp. sp_name sp = cp_name cp \<and> sp_targetPort sp = cp_containerPort cp \<and>
                        sp_protocol sp = cp_protocol cp \<and> cp_protocol cp \<noteq> [])
     (svc_ports (Service_Build (NewServiceBuilder s g)))
     (ctr_ports (hd (ps_containers (sts_podSpec (sts_spec
        (StatefulSet_Build L it (NewStatefulSetBuilder s g))))))) \<and>
   map sp_port (svc_ports (Service_Build (NewServiceBuilder s g))) =
     map (\<lambda>p. if port_servicePort p = 0 then port_containerPort p else port_servicePort p)
       (getPorts (NewStatefulSetBuilder s g))"
proof -
  have same: "svc_getPorts (NewServiceBuilder s g) = getPorts (NewStatefulSetBuilder s g)"
    by (simp add: svc_getPorts_def getPorts_def NewServiceBuilder_def NewStatefulSetBuilder_def)
  have "svc_ports (Service_Build (NewServiceBuilder s g)) =
      map service_port_of (getPorts (NewStatefulSetBuilder s g))"
    by (simp add: Service_Build_def buildServicePorts_def same Let_def)
  moreover have "ctr_ports (hd (ps_containers (sts_podSpec (sts_spec
        (StatefulSet_Build L it (NewStatefulSetBuilder s g)))))) =
      map container_port_of (getPorts (NewStatefulSetBuilder s g))"
    by (simp add: sts_build_defs buildContainerPorts_def split: prod.split)
  ultimately show ?thesis
    by (simp add: list_all2_map1 list_all2_map2 list.rel_refl_strong service_port_of_def
        container_port_of_def Let_def)
qed

end
