(* ===== verification/Pvc_Builder.thy ===== *)
theory Pvc_Builder
  imports Service_Builder
begin

text \<open>
  \<^verbatim>\<open>internal/resources/pvc.go\<close>: the PersistentVolumeClaim of a server.
\<close>

definition DefaultStorageSize :: string where
  "DefaultStorageSize = ''20Gi''"

record PVCBuilder =
  pb_server :: steam_server
  pb_gameDef :: "game_definition option"

definition NewPVCBuilder :: "steam_server \<Rightarrow> game_definition option \<Rightarrow> PVCBuilder" where
  "NewPVCBuilder server gameDef = \<lparr>pb_server = server, pb_gameDef = gameDef\<rparr>"

text \<open>A failed parse yields the zero quantity; the error of the last parse is dropped.\<close>

definition default_quantity :: "golib \<Rightarrow> quantity" where
  "default_quantity L =
     (case ParseQuantity L DefaultStorageSize of Inr qty \<Rightarrow> qty | Inl _ \<Rightarrow> zero_quantity)"

definition getStorageSize :: "golib \<Rightarrow> PVCBuilder \<Rightarrow> quantity" where
  "getStorageSize L b =
     (case ss_storage (server_spec (pb_server b)) of
        Some storage \<Rightarrow> storage_size storage
      | None \<Rightarrow>
          (case pb_gameDef b of
             None \<Rightarrow> default_quantity L
           | Some g \<Rightarrow>
               if gd_defaultStorage (gamedef_spec g) \<noteq> [] then
                 (case ParseQuantity L (gd_defaultStorage (gamedef_spec g)) of
                    Inr qty \<Rightarrow> qty
                  | Inl _ \<Rightarrow> default_quantity L)
               else default_quantity L))"

definition pvc_labels :: "PVCBuilder \<Rightarrow> string gomap" where
  "pvc_labels b =
     [(''app.kubernetes.io/name'', ''steamserver''),
      (''app.kubernetes.io/instance'', server_name (pb_server b)),
      (''app.kubernetes.io/managed-by'', ''boilerr''),
      (''boilerr.dev/game'', ss_gameDefinition (server_spec (pb_server b)))]"

definition PVC_Build :: "golib \<Rightarrow> PVCBuilder \<Rightarrow> persistent_volume_claim option" where
  "PVC_Build L b =
     (let storageSize = getStorageSize L b in
      if IsZero L storageSize then None
      else
        (let labels = pvc_labels b;
             pvc = \<lparr>pvc_meta = new_meta (PVCName (server_name (pb_server b)))
                                 (server_namespace (pb_server b)) labels,
                    pvc_accessModes = [ReadWriteOnce],
                    pvc_requests = [(ResourceStorage, storageSize)],
                    pvc_storageClassName = None\<rparr>
         in Some
              (case ss_storage (server_spec (pb_server b)) of
                 None \<Rightarrow> pvc
               | Some storage \<Rightarrow>
                   (case storage_className storage of
                      None \<Rightarrow> pvc
                    | Some cls \<Rightarrow> pvc\<lparr>pvc_storageClassName := Some cls\<rparr>))))"

interpretation pvc_child: child_labels "\<lambda>s g. pvc_labels (NewPVCBuilder s g)"
  by unfold_locales (auto simp: pvc_labels_def NewPVCBuilder_def wf_map_def go_keys_def)

text \<open>
  The size by its sources: the server's explicit size, else the game's default if it parses, else
  the built-in default.
\<close>

fun first_quantity :: "quantity option list \<Rightarrow> quantity \<Rightarrow> quantity" where
  "first_quantity [] d = d"
| "first_quantity (Some q # _) d = q"
| "first_quantity (None # qs) d = first_quantity qs d"

definition parse_nonempty :: "golib \<Rightarrow> string \<Rightarrow> quantity option" where
  "parse_nonempty L s =
     (if s = [] then None else case ParseQuantity L s of Inr q \<Rightarrow> Some q | Inl _ \<Rightarrow> None)"

definition storage_sources :: "golib \<Rightarrow> PVCBuilder \<Rightarrow> quantity option list" where
  "storage_sources L b =
     [map_option storage_size (ss_storage (server_spec (pb_server b))),
      Option.bind (pb_gameDef b) (\<lambda>g. parse_nonempty L (gd_defaultStorage (gamedef_spec g)))]"

lemma getStorageSize_sources:
  "getStorageSize L b = first_quantity (storage_sources L b) (default_quantity L)"
  by (auto simp: getStorageSize_def storage_sources_def parse_nonempty_def
      split: option.split sum.split)

section \<open>Properties\<close>

text \<open>
  The claim requests the first storage size that is configured (the server's, then the game's
  if it parses, then the default) and is left out exactly when that size is zero; when it is built
  it is the claim the pod's data volume names.
\<close>

theorem PVC_Build_size:
  "(case PVC_Build L (NewPVCBuilder s g) of
      None \<Rightarrow> IsZero L (first_quantity (storage_sources L (NewPVCBuilder s g)) (default_quantity L))
    | Some pvc \<Rightarrow>
        pvc_requests pvc =
          [(ResourceStorage, first_quantity (storage_sources L (NewPVCBuilder s g)) (default_quantity L))] \<and>
        \<not> IsZero L (first_quantity (storage_sources L (NewPVCBuilder s g)) (default_quantity L)) \<and>
        \<lparr>vol_name = ServerFilesVolumeName,
         vol_source = PersistentVolumeClaimSource (om_name (pvc_meta pvc))\<rparr>
          \<in> set (buildVolumes (NewStatefulSetBuilder s g)) \<and>
        om_namespace (pvc_meta pvc) = server_namespace s \<and>
        pvc_storageClassName pvc = Option.bind (ss_storage (server_spec s)) storage_className)"
  by (auto simp: PVC_Build_def getStorageSize_sources [symmetric] Let_def buildVolumes_def
      NewPVCBuilder_def NewStatefulSetBuilder_def split: option.split)

text \<open>
  With an explicit storage size of zero there is no claim, yet the pod still mounts the volume
  of that claim; without any storage configuration, in contrast, there is a claim of the default
  size.
\<close>

theorem PVC_Build_zero_size:
  assumes "ss_storage (server_spec s) = Some storage" and "IsZero L (storage_size storage)"
    and "ParseQuantity L DefaultStorageSize = Inr q" and "\<not> IsZero L q"
  shows "PVC_Build L (NewPVCBuilder s g) = None \<and>
     \<lparr>vol_name = ServerFilesVolumeName,
      vol_source = PersistentVolumeClaimSource (PVCName (server_name s))\<rparr>
       \<in> set (ps_volumes (sts_podSpec (sts_spec (StatefulSet_Build L it (NewStatefulSetBuilder s g))))) \<and>
     PVC_Build L (NewPVCBuilder (s\<lparr>server_spec := (server_spec s)\<lparr>ss_storage := None\<rparr>\<rparr>) None) \<noteq> None"
  using assms
  by (auto simp: PVC_Build_def getStorageSize_def default_quantity_def NewPVCBuilder_def
      NewStatefulSetBuilder_def StatefulSet_Build_def buildVolumes_def Let_def)

end
