(* ===== verification/Demo_Manifests.thy ===== *)
theory Demo_Manifests
  imports Pvc_Builder
begin

text \<open>
  The program \<^verbatim>\<open>demo_manifest_generation.go\<close>: it prints the server it is about and the objects the
  builders make for it.  The marshalling of Kubernetes objects to JSON and of JSON to YAML is a
  parameter.
\<close>

datatype demo_object =
    DemoServer steam_server
  | DemoStatefulSet stateful_set
  | DemoService service
  | DemoPVC "persistent_volume_claim option"

record yaml_lib =
  json_Marshal :: "demo_object \<Rightarrow> go_error + string"
  JSONToYAML :: "string \<Rightarrow> go_error + string"

text \<open>A panic is \<^const>\<open>None\<close>.\<close>

definition printYAML :: "yaml_lib \<Rightarrow> demo_object \<Rightarrow> string option" where
  "printYAML Y obj =
     (case json_Marshal Y obj of
        Inl _ \<Rightarrow> None
      | Inr data \<Rightarrow>
          (case JSONToYAML Y data of
             Inl _ \<Rightarrow> None
           | Inr yamlData \<Rightarrow> Some yamlData))"

text \<open>What is printed, a line or a document each, and whether the program panics.\<close>

fun print_sections :: "yaml_lib \<Rightarrow> (string \<times> demo_object) list \<Rightarrow> string list \<times> bool" where
  "print_sections Y [] = ([], False)"
| "print_sections Y ((title, obj) # rest) =
     (case printYAML Y obj of
        None \<Rightarrow> ([title], True)
      | Some doc \<Rightarrow> (case print_sections Y rest of (out, panics) \<Rightarrow> (title # doc # out, panics)))"

definition newline :: string where
  "newline = [CHR 0x0A]"

definition demo_main :: "golib \<Rightarrow> range_order \<Rightarrow> yaml_lib \<Rightarrow> string list \<times> bool" where
  "demo_main L it Y =
     (case demo_server L of
        None \<Rightarrow> ([], True)
      | Some server \<Rightarrow>
          (let gameDef = demo_gameDef;
               sts = StatefulSet_Build L it (NewStatefulSetBuilder server (Some gameDef));
               svc = Service_Build (NewServiceBuilder server (Some gameDef));
               pvc = PVC_Build L (NewPVCBuilder server (Some gameDef))
           in print_sections Y
                [(''=== INPUT: User'' @ [CHR 0x27] @ ''s SteamServer CR ==='', DemoServer server),
                 (newline @ ''=== GENERATED: StatefulSet ==='', DemoStatefulSet sts),
                 (newline @ ''=== GENERATED: Service ==='', DemoService svc),
                 (newline @ ''=== GENERATED: PVC ==='', DemoPVC pvc)]))"

section \<open>The demo's objects\<close>

abbreviation demo_sts :: "golib \<Rightarrow> range_order \<Rightarrow> quantity \<Rightarrow> stateful_set" where
  "demo_sts L it q \<equiv> StatefulSet_Build L it (NewStatefulSetBuilder (demo_server_with q) (Some demo_gameDef))"

lemma demo_sts_order:
  assumes "permuting it"
  shows "demo_sts L it q = demo_sts L (\<lambda>_ ks. ks) q"
proof (rule Build_one_secret [OF assms permuting_id])
  show "wf_map (ss_config (sb_spec (NewStatefulSetBuilder (demo_server_with q) (Some demo_gameDef))))"
    by (simp add: NewStatefulSetBuilder_def demo_server_with_def demo_config_def wf_map_def go_keys_def)
qed (simp add: NewStatefulSetBuilder_def demo_server_with_def demo_secret_refs)

abbreviation demo_container :: "golib \<Rightarrow> range_order \<Rightarrow> quantity \<Rightarrow> container" where
  "demo_container L it q \<equiv>
     buildMainContainer L it (NewStatefulSetBuilder (demo_server_with q) (Some demo_gameDef))"

lemma demo_sts_container:
  "ps_containers (sts_podSpec (sts_spec (demo_sts L it q))) = [demo_container L it q]"
  by (simp add: StatefulSet_Build_def Let_def)

lemma demo_container_args:
  "ctr_args (demo_container L (\<lambda>_ ks. ks) q) =
     [''-nographics'', ''-batchmode'', ''-port'', ''2456'', ''-name'', ''Vikings Valhalla'',
      ''-world'', ''Midgard'', ''-password'', ''$(CONFIG_PASSWORD)'']"
  by code_simp

lemma demo_container_env:
  "ctr_env (demo_container L (\<lambda>_ ks. ks) q) =
     [\<lparr>env_name = ''CONFIG_PASSWORD'', env_value = [],
       env_valueFrom = Some \<lparr>evs_secretKeyRef = Some \<lparr>sks_name = ''valheim-secrets'', sks_key = ''password'',
         sks_optional = None\<rparr>, evs_rest = []\<rparr>\<rparr>]"
  by code_simp

lemma demo_container_order:
  "permuting it \<Longrightarrow> demo_container L it q = demo_container L (\<lambda>_ ks. ks) q"
  using demo_sts_order [of it L q] demo_sts_container [of L it q] demo_sts_container [of L "\<lambda>_ ks. ks" q]
  by simp

section \<open>Properties\<close>

text \<open>
  With a library that can parse the demo's storage size and a marshaller that accepts its objects,
  the demo prints the server and the three objects under their titles and does not panic, and the
  StatefulSet it prints starts the game with the configured name, world and port and the password by
  reference to the secret, whatever the order in which the configuration is visited.
\<close>

theorem demo_prints:
  assumes "permuting it" and "ParseQuantity L ''30Gi'' = Inr q" and "\<And>obj. printYAML Y obj = Some (doc obj)"
  shows "demo_main L it Y =
       ([''=== INPUT: User'' @ [CHR 0x27] @ ''s SteamServer CR ==='', doc (DemoServer (demo_server_with q)),
         newline @ ''=== GENERATED: StatefulSet ==='', doc (DemoStatefulSet (demo_sts L it q)),
         newline @ ''=== GENERATED: Service ==='', doc (DemoService (Service_Build (NewServiceBuilder (demo_server_with q) (Some demo_gameDef)))),
         newline @ ''=== GENERATED: PVC ==='', doc (DemoPVC (PVC_Build L (NewPVCBuilder (demo_server_with q) (Some demo_gameDef))))], False) \<and>
     ps_containers (sts_podSpec (sts_spec (demo_sts L it q))) = [demo_container L it q] \<and>
     ctr_args (demo_container L it q) = [''-nographics'', ''-batchmode'', ''-port'', ''2456'', ''-name'', ''Vikings Valhalla'',
       ''-world'', ''Midgard'', ''-password'', ''$(CONFIG_PASSWORD)''] \<and>
     ctr_env (demo_container L it q) = [\<lparr>env_name = ''CONFIG_PASSWORD'', env_value = [],
       env_valueFrom = Some \<lparr>evs_secretKeyRef = Some \<lparr>sks_name = ''valheim-secrets'', sks_key = ''password'',
         sks_optional = None\<rparr>, evs_rest = []\<rparr>\<rparr>]"
proof -
  have "demo_server L = Some (demo_server_with q)"
    using assms(2) by (simp add: demo_server_def)
  then show ?thesis
    using demo_container_args [of L q] demo_container_env [of L q] assms(3)
    by (simp add: demo_main_def Let_def demo_sts_container demo_container_order [OF assms(1)])
qed

definition plain_yaml :: yaml_lib where
  "plain_yaml = \<lparr>json_Marshal = (\<lambda>_. Inr ''{}''), JSONToYAML = (\<lambda>s. Inr s)\<rparr>"

lemma demo_prints_witness: "length (fst (demo_main sample_lib (\<lambda>_. rev) plain_yaml)) = 8"
proof -
  have "ParseQuantity sample_lib ''30Gi'' = Inr (gibi 30)" by (simp add: sample_lib_def sample_parse_def)
  moreover have "printYAML plain_yaml obj = Some ''{}''" for obj by (simp add: printYAML_def plain_yaml_def)
  ultimately show ?thesis using demo_prints [OF permuting_rev, of sample_lib "gibi 30" plain_yaml "\<lambda>_. ''{}''"] by auto
qed

end
