(* ===== verification/Operator_Flags.thy ===== *)
theory Operator_Flags
  imports Boilerr_Prelude
begin

text \<open>
  The command line of the operator (\<^verbatim>\<open>cmd/main.go\<close>): the flags \<open>main\<close> declares, their defaults,
  and the parser of Go's \<^verbatim>\<open>flag\<close> package, which takes them from the arguments.  The flags that
  \<open>zap.Options.BindFlags\<close> and the imported packages add are a parameter.
\<close>

section \<open>The flags\<close>

record main_flags =
  metricsAddr :: string
  probeAddr :: string
  enableLeaderElection :: bool
  secureMetrics :: bool
  webhookCertPath :: string
  webhookCertName :: string
  webhookCertKey :: string
  metricsCertPath :: string
  metricsCertName :: string
  metricsCertKey :: string
  enableHTTP2 :: bool

definition default_flags :: main_flags where
  "default_flags =
     \<lparr>metricsAddr = ''0'', probeAddr = '':8081'', enableLeaderElection = False, secureMetrics = True,
      webhookCertPath = [], webhookCertName = ''tls.crt'', webhookCertKey = ''tls.key'',
      metricsCertPath = [], metricsCertName = ''tls.crt'', metricsCertKey = ''tls.key'',
      enableHTTP2 = False\<rparr>"

text \<open>Each flag by its name: a string flag or a boolean one, with the variable it sets.\<close>

datatype flag_var =
    StringVar "string \<Rightarrow> main_flags \<Rightarrow> main_flags"
  | BoolVar "bool \<Rightarrow> main_flags \<Rightarrow> main_flags"

definition main_flag_vars :: "(string \<times> flag_var) list" where
  "main_flag_vars =
     [(''metrics-bind-address'', StringVar (\<lambda>v. metricsAddr_update (\<lambda>_. v))),
      (''health-probe-bind-address'', StringVar (\<lambda>v. probeAddr_update (\<lambda>_. v))),
      (''leader-elect'', BoolVar (\<lambda>b. enableLeaderElection_update (\<lambda>_. b))),
      (''metrics-secure'', BoolVar (\<lambda>b. secureMetrics_update (\<lambda>_. b))),
      (''webhook-cert-path'', StringVar (\<lambda>v. webhookCertPath_update (\<lambda>_. v))),
      (''webhook-cert-name'', StringVar (\<lambda>v. webhookCertName_update (\<lambda>_. v))),
      (''webhook-cert-key'', StringVar (\<lambda>v. webhookCertKey_update (\<lambda>_. v))),
      (''metrics-cert-path'', StringVar (\<lambda>v. metricsCertPath_update (\<lambda>_. v))),
      (''metrics-cert-name'', StringVar (\<lambda>v. metricsCertName_update (\<lambda>_. v))),
      (''metrics-cert-key'', StringVar (\<lambda>v. metricsCertKey_update (\<lambda>_. v))),
      (''enable-http2'', BoolVar (\<lambda>b. enableHTTP2_update (\<lambda>_. b)))]"

text \<open>\<open>strconv.ParseBool\<close>.\<close>

definition ParseBool :: "string \<Rightarrow> bool option" where
  "ParseBool s =
     (if s \<in> {''1'', ''t'', ''T'', ''TRUE'', ''true'', ''True''} then Some True
      else if s \<in> {''0'', ''f'', ''F'', ''FALSE'', ''false'', ''False''} then Some False
      else None)"

text \<open>
  A flag of another package: whether it is boolean, and which values its \<open>Set\<close> accepts.  What it does
  with them does not concern \<open>main\<close>.
\<close>

type_synonym other_flags = "string \<Rightarrow> (bool \<times> (string \<Rightarrow> bool)) option"

definition is_bool_flag :: "other_flags \<Rightarrow> string \<Rightarrow> bool option" where
  "is_bool_flag X name =
     (case map_of main_flag_vars name of
        Some (StringVar _) \<Rightarrow> Some False
      | Some (BoolVar _) \<Rightarrow> Some True
      | None \<Rightarrow> map_option fst (X name))"

definition set_flag :: "other_flags \<Rightarrow> string \<Rightarrow> string \<Rightarrow> main_flags \<Rightarrow> main_flags option" where
  "set_flag X name val f =
     (case map_of main_flag_vars name of
        Some (StringVar set_var) \<Rightarrow> Some (set_var val f)
      | Some (BoolVar set_var) \<Rightarrow> map_option (\<lambda>b. set_var b f) (ParseBool val)
      | None \<Rightarrow> (case X name of
                    Some (_, accepts) \<Rightarrow> if accepts val then Some f else None
                  | None \<Rightarrow> None))"

section \<open>The parser\<close>

text \<open>One argument: not a flag, the end of the flags, malformed, or a name with perhaps a value.\<close>

datatype flag_token = NotAFlag | Terminator | BadSyntax | Token string "string option"

definition flag_token :: "string \<Rightarrow> flag_token" where
  "flag_token s =
     (if length s < 2 \<or> hd s \<noteq> CHR ''-'' then NotAFlag
      else if s = ''--'' then Terminator
      else
        (let name = drop (if s ! 1 = CHR ''-'' then 2 else 1) s in
         if name = [] \<or> hd name = CHR ''-'' \<or> hd name = CHR ''='' then BadSyntax
         else Token (takeWhile (\<lambda>c. c \<noteq> CHR ''='') name)
                (case dropWhile (\<lambda>c. c \<noteq> CHR ''='') name of [] \<Rightarrow> None | _ # v \<Rightarrow> Some v)))"

text \<open>A boolean flag never takes the next argument as its value; a string flag without one does.\<close>

datatype parse_outcome = ParsedFlags main_flags | HelpRequested | ParseFailed

fun parse_flags :: "other_flags \<Rightarrow> main_flags \<Rightarrow> string list \<Rightarrow> parse_outcome" where
  "parse_flags X f [] = ParsedFlags f"
| "parse_flags X f (s # args) =
     (case flag_token s of
        NotAFlag \<Rightarrow> ParsedFlags f
      | Terminator \<Rightarrow> ParsedFlags f
      | BadSyntax \<Rightarrow> ParseFailed
      | Token name val \<Rightarrow>
          (case is_bool_flag X name of
             None \<Rightarrow> if name = ''help'' \<or> name = ''h'' then HelpRequested else ParseFailed
           | Some True \<Rightarrow>
               (case set_flag X name (case val of None \<Rightarrow> ''true'' | Some v \<Rightarrow> v) f of
                  None \<Rightarrow> ParseFailed
                | Some f' \<Rightarrow> parse_flags X f' args)
           | Some False \<Rightarrow>
               (case val of
                  Some v \<Rightarrow>
                    (case set_flag X name v f of
                       None \<Rightarrow> ParseFailed
                     | Some f' \<Rightarrow> parse_flags X f' args)
                | None \<Rightarrow>
                    (case args of
                       [] \<Rightarrow> ParseFailed
                     | v # args' \<Rightarrow>
                         (case set_flag X name v f of
                            None \<Rightarrow> ParseFailed
                          | Some f' \<Rightarrow> parse_flags X f' args')))))"

section \<open>Facts\<close>

definition bool_text :: "bool \<Rightarrow> string" where
  "bool_text b = (if b then ''true'' else ''false'')"

lemma ParseBool_text [simp]: "ParseBool (bool_text b) = Some b"
  by (simp add: ParseBool_def bool_text_def)

definition flag_arg :: "string \<Rightarrow> string \<Rightarrow> string" where
  "flag_arg name val = ''--'' @ name @ ''='' @ val"

text \<open>The command line that sets every flag of \<open>main\<close>.\<close>

definition render_flags :: "main_flags \<Rightarrow> string list" where
  "render_flags f =
     [flag_arg ''metrics-bind-address'' (metricsAddr f),
      flag_arg ''health-probe-bind-address'' (probeAddr f),
      flag_arg ''leader-elect'' (bool_text (enableLeaderElection f)),
      flag_arg ''metrics-secure'' (bool_text (secureMetrics f)),
      flag_arg ''webhook-cert-path'' (webhookCertPath f),
      flag_arg ''webhook-cert-name'' (webhookCertName f),
      flag_arg ''webhook-cert-key'' (webhookCertKey f),
      flag_arg ''metrics-cert-path'' (metricsCertPath f),
      flag_arg ''metrics-cert-name'' (metricsCertName f),
      flag_arg ''metrics-cert-key'' (metricsCertKey f),
      flag_arg ''enable-http2'' (bool_text (enableHTTP2 f))]"

lemma flag_token_arg:
  assumes "name \<noteq> []" and "hd name \<noteq> CHR ''-''" and "CHR ''='' \<notin> set name"
  shows "flag_token (flag_arg name val) = Token name (Some val)"
proof -
  have "takeWhile (\<lambda>c. c \<noteq> CHR ''='') (name @ CHR ''='' # val) = name"
    "dropWhile (\<lambda>c. c \<noteq> CHR ''='') (name @ CHR ''='' # val) = CHR ''='' # val"
    using assms(3) by (auto simp: takeWhile_append dropWhile_append)
  moreover have "hd name \<noteq> CHR ''=''" using assms(1,3) by (cases name) auto
  ultimately show ?thesis using assms(1,2) by (simp add: flag_token_def flag_arg_def)
qed

text \<open>A well-formed argument sets its flag, and the parser goes on with the rest.\<close>

lemma parse_flag_arg:
  assumes "map_of main_flag_vars name = Some x" and "set_flag X name val f = Some f'"
  shows "parse_flags X f (flag_arg name val # args) = parse_flags X f' args"
proof -
  have "\<forall>(n, x)\<in>set main_flag_vars. n \<noteq> [] \<and> hd n \<noteq> CHR ''-'' \<and> CHR ''='' \<notin> set n"
    by (simp add: main_flag_vars_def)
  with map_of_SomeD [OF assms(1)] have "flag_token (flag_arg name val) = Token name (Some val)"
    by (intro flag_token_arg) auto
  moreover obtain b where "is_bool_flag X name = Some b"
    using assms(1) by (cases x) (auto simp: is_bool_flag_def)
  ultimately show ?thesis using assms(2) by (cases b) simp_all
qed

section \<open>Properties\<close>

text \<open>
  Every setting of the operator's flags can be given on the command line, whatever the values: the
  parser takes back from the rendered arguments the flags they were rendered from.
\<close>

theorem parse_render_flags: "parse_flags X g (render_flags f) = ParsedFlags f"
  unfolding render_flags_def
  by (subst parse_flag_arg, simp add: main_flag_vars_def, simp add: set_flag_def main_flag_vars_def)+ simp

text \<open>
  Boolean flags never take the following argument as their value: after \<^verbatim>\<open>--enable-http2\<close> or
  \<^verbatim>\<open>--leader-elect\<close> the flag is on and the next argument is read as an argument of its own, so
  \<^verbatim>\<open>--metrics-secure false\<close> leaves the metrics endpoint secure and ends the flags.
\<close>

lemma bool_flag_ignores_next:
  "parse_flags X f (''--metrics-secure'' # ''false'' # args) = ParsedFlags (f\<lparr>secureMetrics := True\<rparr>)"
  by (simp add: flag_token_def is_bool_flag_def set_flag_def main_flag_vars_def ParseBool_def)

end
