(* ===== verification/Kube_Client.thy ===== *)
theory Kube_Client
  imports Api_Types
begin

text \<open>
  The Kubernetes client the controllers are given.  Its code is controller-runtime's, so it is a
  parameter: a record of operations over an unspecified world \<open>'w\<close>, each returning its result and
  the world after it.  The contract the controllers rely on is the locale \<open>object_store\<close>, per kind
  of object; \<^theory_text>\<open>Kube_Sim\<close> interprets it.
\<close>

record ('o, 'w) store =
  sto_get :: "object_key \<Rightarrow> 'w \<Rightarrow> (go_error + 'o) \<times> 'w"
  sto_create :: "'o \<Rightarrow> 'w \<Rightarrow> go_error option \<times> 'w"
  sto_update :: "'o \<Rightarrow> 'w \<Rightarrow> go_error option \<times> 'w"

text \<open>
  \<open>k_configmap_create_or_update\<close> is \<open>controllerutil.CreateOrUpdate\<close> on a ConfigMap with a mutate
  function; the other members are the client's calls by kind, the helpers of \<^verbatim>\<open>controllerutil\<close> and
  the clock.
\<close>

record 'w kube =
  k_servers :: "(steam_server, 'w) store"
  k_server_status_update :: "steam_server \<Rightarrow> 'w \<Rightarrow> go_error option \<times> 'w"
  k_server_list :: "'w \<Rightarrow> (go_error + steam_server list) \<times> 'w"
  k_gamedefs :: "(game_definition, 'w) store"
  k_gamedef_status_update :: "game_definition \<Rightarrow> 'w \<Rightarrow> go_error option \<times> 'w"
  k_statefulsets :: "(stateful_set, 'w) store"
  k_services :: "(service, 'w) store"
  k_pvcs :: "(persistent_volume_claim, 'w) store"
  k_configmap_create_or_update ::
    "config_map \<Rightarrow> (config_map \<Rightarrow> go_error + config_map) \<Rightarrow> 'w \<Rightarrow> go_error option \<times> 'w"
  k_get_pod :: "object_key \<Rightarrow> 'w \<Rightarrow> (go_error + pod) \<times> 'w"
  k_set_controller_reference :: "object_meta \<Rightarrow> object_meta \<Rightarrow> go_error + object_meta"
  k_contains_finalizer :: "object_meta \<Rightarrow> string \<Rightarrow> bool"
  k_add_finalizer :: "object_meta \<Rightarrow> string \<Rightarrow> object_meta"
  k_remove_finalizer :: "object_meta \<Rightarrow> string \<Rightarrow> object_meta"
  k_now :: "'w \<Rightarrow> nat \<times> 'w"

text \<open>What a reconciler returns to the work queue: requeue at once, or after some seconds.\<close>

record ctrl_result =
  res_requeue :: bool
  res_requeueAfter :: nat

definition no_result :: ctrl_result where
  "no_result = \<lparr>res_requeue = False, res_requeueAfter = 0\<rparr>"

definition requeue_now :: ctrl_result where
  "requeue_now = \<lparr>res_requeue = True, res_requeueAfter = 0\<rparr>"

definition requeue_after :: "nat \<Rightarrow> ctrl_result" where
  "requeue_after s = \<lparr>res_requeue = False, res_requeueAfter = s\<rparr>"

section \<open>The contract of a store\<close>

text \<open>
  The objects of one kind, as \<open>look\<close> finds them in the part \<open>view\<close> of the world that is the
  cluster's state, and as \<open>upd\<close> sets (or removes) one of them.  \<open>admit\<close> is what the API server
  stores of a new object and \<open>merge\<close> what is left of an object after an update.  Any call may fail,
  and a failed call changes nothing; a call that succeeds has the effect the API documents; an error
  that says \<^verbatim>\<open>not found\<close> is true.
\<close>

locale kind_store =
  fixes st :: "('o, 'w) store"
    and view :: "'w \<Rightarrow> 'v"
    and look :: "'v \<Rightarrow> object_key \<Rightarrow> 'o option"
    and upd :: "object_key \<Rightarrow> 'o option \<Rightarrow> 'v \<Rightarrow> 'v"
    and key :: "'o \<Rightarrow> object_key"
    and admit :: "'o \<Rightarrow> 'o"
    and merge :: "'o \<Rightarrow> 'o \<Rightarrow> 'o option"
  assumes get_view: "sto_get st k w = (r, w') \<Longrightarrow> view w' = view w"
    and get_found: "sto_get st k w = (Inr x, w') \<Longrightarrow> look (view w) k = Some x"
    and get_missing: "sto_get st k w = (Inl (NotFoundError m), w') \<Longrightarrow> look (view w) k = None"
    and create_failed: "sto_create st x w = (Some e, w') \<Longrightarrow> view w' = view w"
    and create_done: "sto_create st x w = (None, w') \<Longrightarrow>
           look (view w) (key x) = None \<and> view w' = upd (key x) (Some (admit x)) (view w)"
    and update_failed: "sto_update st x w = (Some e, w') \<Longrightarrow> view w' = view w"
    and update_done: "sto_update st x w = (None, w') \<Longrightarrow>
           \<exists>old. look (view w) (key x) = Some old \<and> view w' = upd (key x) (merge old x) (view w)"
    and look_upd: "look (upd k ox v) = (look v)(k := ox)"
begin

lemma create_effect:
  assumes "sto_create st x w = (r, w')"
  shows "view w' = view w \<or> view w' = upd (key x) (Some (admit x)) (view w)"
  using assms create_failed create_done by (cases r) blast+

lemma update_effect:
  assumes "sto_update st x w = (r, w')"
  shows "view w' = view w \<or>
    (\<exists>old. look (view w) (key x) = Some old \<and> view w' = upd (key x) (merge old x) (view w))"
  using assms update_failed update_done by (cases r) blast+

lemma created:
  assumes "sto_create st x w = (None, w')"
  shows "look (view w') (key x) = Some (admit x)"
  using create_done [OF assms] by (simp add: look_upd)

lemma updated:
  assumes "sto_update st x w = (None, w')" and "\<And>old. merge old x = Some (keep old x)"
  shows "\<exists>old. look (view w) (key x) = Some old \<and> look (view w') (key x) = Some (keep old x)"
  using update_done [OF assms(1)] assms(2) by (auto simp: look_upd)

lemma missing_if_NotFound:
  "sto_get st k w = (Inl e, w') \<Longrightarrow> IsNotFound e \<Longrightarrow> look (view w) k = None"
  by (cases e) (auto intro: get_missing)

end

text \<open>
  A store that also answers every call: a read finds what is there, and a create where nothing is or
  an update of what is there succeeds unless the API rejects the object (\<open>accepts\<close>, of the object
  that is there and the one that is submitted); the rejection is not a \<^verbatim>\<open>not found\<close>.
\<close>

locale object_store = kind_store +
  fixes accepts :: "'b option \<Rightarrow> 'b \<Rightarrow> bool"
  assumes get_there: "look (view w) k = Some x \<Longrightarrow> \<exists>w'. sto_get st k w = (Inr x, w')"
    and get_absent: "look (view w) k = None \<Longrightarrow> \<exists>m w'. sto_get st k w = (Inl (NotFoundError m), w')"
    and create_accepted: "look (view w) (key x) = None \<Longrightarrow> accepts None x \<Longrightarrow>
           \<exists>w'. sto_create st x w = (None, w')"
    and update_accepted: "look (view w) (key x) = Some old \<Longrightarrow> accepts (Some old) x \<Longrightarrow>
           \<exists>w'. sto_update st x w = (None, w')"
    and update_rejected: "look (view w) (key x) = Some old \<Longrightarrow> \<not> accepts (Some old) x \<Longrightarrow>
           \<exists>m w'. sto_update st x w = (Some (PlainError m), w')"
begin

lemma get_total:
  obtains (there) x w' where "look (view w) k = Some x" "sto_get st k w = (Inr x, w')" "view w' = view w"
  | (absent) m w' where "look (view w) k = None" "sto_get st k w = (Inl (NotFoundError m), w')"
      "view w' = view w"
  by (cases "look (view w) k") (metis get_absent get_there get_view)+

end

end
