(* ===== verification/Kube_Contract.thy ===== *)
theory Kube_Contract
  imports Kube_Client
begin

text \<open>
  What the controllers rely on of a Kubernetes API server and of \<^verbatim>\<open>controllerutil\<close>, as documented:
  the state of the cluster by kind of object, what the server makes of each write, and the locales
  \<open>api_server\<close> (every call may fail) and \<open>reliable_api_server\<close> (calls succeed unless the API has a
  documented reason to refuse them).  \<^theory_text>\<open>Kube_Sim\<close> interprets both.

  A call that fails has no effect: a write that is applied although its answer is lost is not covered.
  What the server adds of its own accord to a Service (cluster address, node ports, ingress) or a claim
  (storage class, identity, finalizers) is a parameter; versions, timestamps and the like, which the
  program never reads, have no field in the records.
\<close>

section \<open>The state of the cluster\<close>

record cluster =
  cl_servers :: "object_key \<rightharpoonup> steam_server"
  cl_gamedefs :: "object_key \<rightharpoonup> game_definition"
  cl_statefulsets :: "object_key \<rightharpoonup> stateful_set"
  cl_services :: "object_key \<rightharpoonup> service"
  cl_pvcs :: "object_key \<rightharpoonup> persistent_volume_claim"
  cl_configmaps :: "object_key \<rightharpoonup> config_map"
  cl_pods :: "object_key \<rightharpoonup> pod"

definition put_server :: "object_key \<Rightarrow> steam_server option \<Rightarrow> cluster \<Rightarrow> cluster" where
  "put_server k ox v = v\<lparr>cl_servers := (cl_servers v)(k := ox)\<rparr>"

definition put_gamedef :: "object_key \<Rightarrow> game_definition option \<Rightarrow> cluster \<Rightarrow> cluster" where
  "put_gamedef k ox v = v\<lparr>cl_gamedefs := (cl_gamedefs v)(k := ox)\<rparr>"

definition put_sts :: "object_key \<Rightarrow> stateful_set option \<Rightarrow> cluster \<Rightarrow> cluster" where
  "put_sts k ox v = v\<lparr>cl_statefulsets := (cl_statefulsets v)(k := ox)\<rparr>"

definition put_svc :: "object_key \<Rightarrow> service option \<Rightarrow> cluster \<Rightarrow> cluster" where
  "put_svc k ox v = v\<lparr>cl_services := (cl_services v)(k := ox)\<rparr>"

definition put_pvc :: "object_key \<Rightarrow> persistent_volume_claim option \<Rightarrow> cluster \<Rightarrow> cluster" where
  "put_pvc k ox v = v\<lparr>cl_pvcs := (cl_pvcs v)(k := ox)\<rparr>"

definition put_cm :: "object_key \<Rightarrow> config_map option \<Rightarrow> cluster \<Rightarrow> cluster" where
  "put_cm k ox v = v\<lparr>cl_configmaps := (cl_configmaps v)(k := ox)\<rparr>"

lemmas put_defs = put_server_def put_gamedef_def put_sts_def put_svc_def put_pvc_def put_cm_def

abbreviation "server_key s \<equiv> meta_key (server_meta s)"
abbreviation "gamedef_key g \<equiv> meta_key (gamedef_meta g)"
abbreviation "sts_key s \<equiv> meta_key (sts_meta s)"
abbreviation "svc_key s \<equiv> meta_key (svc_meta s)"
abbreviation "pvc_key p \<equiv> meta_key (pvc_meta p)"
abbreviation "cm_key c \<equiv> meta_key (cm_meta c)"

section \<open>What the server makes of an update\<close>

text \<open>
  A resource with a status subresource keeps its status on an update and everything else on a status
  update.  The deletion timestamp belongs to the server; an object that is being deleted is gone as
  soon as an update leaves it no finalizer.
\<close>

definition merge_server :: "steam_server \<Rightarrow> steam_server \<Rightarrow> steam_server option" where
  "merge_server old x =
     (if om_deletionTimestamp (server_meta old) \<noteq> None \<and> om_finalizers (server_meta x) = [] then None
      else Some (x\<lparr>server_status := server_status old,
                   server_meta := (server_meta x)
                     \<lparr>om_deletionTimestamp := om_deletionTimestamp (server_meta old)\<rparr>\<rparr>))"

definition merge_server_status :: "steam_server \<Rightarrow> steam_server \<Rightarrow> steam_server" where
  "merge_server_status old x = old\<lparr>server_status := server_status x\<rparr>"

definition merge_gamedef :: "game_definition \<Rightarrow> game_definition \<Rightarrow> game_definition option" where
  "merge_gamedef old x = Some (x\<lparr>gamedef_status := gamedef_status old\<rparr>)"

definition merge_gamedef_status :: "game_definition \<Rightarrow> game_definition \<Rightarrow> game_definition" where
  "merge_gamedef_status old x = old\<lparr>gamedef_status := gamedef_status x\<rparr>"

definition admit_sts :: "stateful_set \<Rightarrow> stateful_set" where
  "admit_sts x = x\<lparr>sts_statusReplicas := 0, sts_readyReplicas := 0\<rparr>"

definition merge_sts :: "stateful_set \<Rightarrow> stateful_set \<Rightarrow> stateful_set" where
  "merge_sts old x =
     x\<lparr>sts_statusReplicas := sts_statusReplicas old, sts_readyReplicas := sts_readyReplicas old\<rparr>"

text \<open>
  Selector and service name of a StatefulSet are immutable, the selector as a map; of a claim, the
  access modes and the storage class.
\<close>

definition sts_mutable :: "stateful_set \<Rightarrow> stateful_set \<Rightarrow> bool" where
  "sts_mutable old x \<longleftrightarrow>
     map_of (sts_selector (sts_spec x)) = map_of (sts_selector (sts_spec old)) \<and>
     sts_serviceName (sts_spec x) = sts_serviceName (sts_spec old)"

definition pvc_mutable :: "persistent_volume_claim \<Rightarrow> persistent_volume_claim \<Rightarrow> bool" where
  "pvc_mutable old x \<longleftrightarrow>
     pvc_accessModes x = pvc_accessModes old \<and> pvc_storageClassName x = pvc_storageClassName old"

text \<open>
  The server allocates the cluster address and the node ports of a Service and reports its ingress;
  how it does so is a parameter.  \<open>svc_declared\<close> is what is left to the client.
\<close>

definition svc_declared :: "service \<Rightarrow> service" where
  "svc_declared s = s\<lparr>svc_clusterIP := [], svc_ingress := [],
     svc_ports := map (\<lambda>p. p\<lparr>sp_nodePort := 0\<rparr>) (svc_ports s)\<rparr>"

lemma svc_declared_meta [simp]: "svc_meta (svc_declared s) = svc_meta s"
  by (simp add: svc_declared_def)

lemma svc_declared_eqD:
  "svc_declared s = svc_declared t \<Longrightarrow> svc_meta s = svc_meta t"
  "svc_declared s = svc_declared t \<Longrightarrow> svc_type s = svc_type t"
  "svc_declared s = svc_declared t \<Longrightarrow> svc_selector s = svc_selector t"
  by (metis svc_declared_meta)
    (metis (no_types) svc_declared_def service.select_convs service.surjective service.update_convs)+

text \<open>
  To a new claim the server gives a storage class, when it names none and there is a default one, and
  identity and finalizers of its own; the rest is stored as submitted.
\<close>

definition pvc_declared :: "persistent_volume_claim \<Rightarrow> persistent_volume_claim" where
  "pvc_declared p = p\<lparr>pvc_storageClassName := None,
     pvc_meta := (pvc_meta p)\<lparr>om_uid := [], om_finalizers := []\<rparr>\<rparr>"

section \<open>Owner references\<close>

definition controlled_by :: "object_meta \<Rightarrow> object_meta \<Rightarrow> bool" where
  "controlled_by owner m \<longleftrightarrow> list_ex (\<lambda>r. or_controller r \<and> or_uid r = om_uid owner) (om_owners m)"

definition controllers :: "object_meta \<Rightarrow> string set" where
  "controllers m = or_uid ` set (filter or_controller (om_owners m))"

definition sole_controller :: "object_meta \<Rightarrow> object_meta \<Rightarrow> bool" where
  "sole_controller owner m \<longleftrightarrow> controllers m = {om_uid owner}"

lemma controlled_by_iff: "controlled_by owner m \<longleftrightarrow> om_uid owner \<in> controllers m"
  by (force simp: controlled_by_def controllers_def list_ex_iff)

lemma controllers_simps [simp]:
  "om_owners m = [] \<Longrightarrow> controllers m = {}" "controllers (m\<lparr>om_labels := ls\<rparr>) = controllers m"
  by (simp_all add: controllers_def)

lemma pvc_declared_meta:
  assumes "pvc_declared p = pvc_declared q"
  shows "om_owners (pvc_meta p) = om_owners (pvc_meta q)" and "om_labels (pvc_meta p) = om_labels (pvc_meta q)"
    and "pvc_key p = pvc_key q" and "controllers (pvc_meta p) = controllers (pvc_meta q)"
    and "sole_controller m (pvc_meta p) = sole_controller m (pvc_meta q)"
proof -
  have meq: "(pvc_meta p)\<lparr>om_uid := [], om_finalizers := []\<rparr> = (pvc_meta q)\<lparr>om_uid := [], om_finalizers := []\<rparr>"
    using arg_cong [OF assms, of pvc_meta] by (simp add: pvc_declared_def)
  show "om_labels (pvc_meta p) = om_labels (pvc_meta q)" using arg_cong [OF meq, of om_labels] by simp
  show "pvc_key p = pvc_key q"
    using arg_cong [OF meq, of om_name] arg_cong [OF meq, of om_namespace] by (simp add: meta_key_def)
  show "om_owners (pvc_meta p) = om_owners (pvc_meta q)" using arg_cong [OF meq, of om_owners] by simp
  then show "controllers (pvc_meta p) = controllers (pvc_meta q)"
    "sole_controller m (pvc_meta p) = sole_controller m (pvc_meta q)"
    by (simp_all add: controllers_def sole_controller_def)
qed

text \<open>
  \<open>SetControllerReference\<close> adds the owner as the controller and changes nothing else; it refuses
  only an object that has another owner or is in another namespace.
\<close>

locale controller_references =
  fixes setref :: "object_meta \<Rightarrow> object_meta \<Rightarrow> go_error + object_meta"
  assumes setref_done: "setref owner m = Inr m' \<Longrightarrow>
             controlled_by owner m' \<and> (\<exists>os. m' = m\<lparr>om_owners := os\<rparr>)"
    and setref_only: "setref owner m = Inr m' \<Longrightarrow> controllers m' \<subseteq> insert (om_uid owner) (controllers m)"
    and setref_new: "om_owners m = [] \<Longrightarrow> om_namespace m = om_namespace owner \<Longrightarrow>
             \<exists>m'. setref owner m = Inr m'"
    and setref_again: "controlled_by owner m \<Longrightarrow> om_namespace m = om_namespace owner \<Longrightarrow>
             \<exists>m'. setref owner m = Inr m'"
begin

lemma setref_keeps:
  assumes "setref owner m = Inr m'"
  shows "controlled_by owner m'" and "meta_key m' = meta_key m" and "om_labels m' = om_labels m"
    and "om_name m' = om_name m" and "om_namespace m' = om_namespace m"
  using setref_done [OF assms] by (auto simp: meta_key_def)

lemma setref_sole:
  "setref owner m = Inr m' \<Longrightarrow> om_owners m = [] \<Longrightarrow> sole_controller owner m'"
  using setref_keeps(1) [of owner m m'] setref_only [of owner m m']
  by (auto simp: controlled_by_iff sole_controller_def)

end

section \<open>The API server\<close>

locale api_server =
  servers: kind_store "k_servers K" view cl_servers put_server "\<lambda>s. server_key s" "\<lambda>s. s" merge_server +
  gamedefs: kind_store "k_gamedefs K" view cl_gamedefs put_gamedef "\<lambda>g. gamedef_key g" "\<lambda>g. g" merge_gamedef +
  sts: kind_store "k_statefulsets K" view cl_statefulsets put_sts "\<lambda>s. sts_key s" admit_sts
         "\<lambda>old x. Some (merge_sts old x)" +
  svc: kind_store "k_services K" view cl_services put_svc "\<lambda>s. svc_key s" admit_svc
         "\<lambda>old x. Some (merge_svc old x)" +
  pvc: kind_store "k_pvcs K" view cl_pvcs put_pvc "\<lambda>p. pvc_key p" admit_pvc "\<lambda>old x. Some x" +
  refs: controller_references "k_set_controller_reference K"
  for K :: "'w kube" and view :: "'w \<Rightarrow> cluster"
    and admit_svc :: "service \<Rightarrow> service" and merge_svc :: "service \<Rightarrow> service \<Rightarrow> service"
    and admit_pvc :: "persistent_volume_claim \<Rightarrow> persistent_volume_claim" +
  assumes server_status_failed: "k_server_status_update K x w = (Some e, w') \<Longrightarrow> view w' = view w"
    and server_status_done: "k_server_status_update K x w = (None, w') \<Longrightarrow>
           \<exists>old. cl_servers (view w) (server_key x) = Some old \<and>
             view w' = put_server (server_key x) (Some (merge_server_status old x)) (view w)"
    and gamedef_status_failed: "k_gamedef_status_update K g w = (Some e, w') \<Longrightarrow> view w' = view w"
    and gamedef_status_done: "k_gamedef_status_update K g w = (None, w') \<Longrightarrow>
           \<exists>g'. cl_gamedefs (view w) (gamedef_key g) = Some g' \<and>
             view w' = put_gamedef (gamedef_key g) (Some (merge_gamedef_status g' g)) (view w)"
    and apply_cm_failed: "k_configmap_create_or_update K cm f w = (Some e, w') \<Longrightarrow> view w' = view w"
    and apply_cm_done: "k_configmap_create_or_update K cm f w = (None, w') \<Longrightarrow>
           (\<exists>cm'. f (case cl_configmaps (view w) (cm_key cm) of None \<Rightarrow> cm | Some c \<Rightarrow> c) = Inr cm' \<and>
             view w' = put_cm (cm_key cm) (Some cm') (view w))"
    and list_done: "k_server_list K w = (rl, w') \<Longrightarrow> view w' = view w \<and>
           (\<forall>xs s. rl = Inr xs \<longrightarrow> (s \<in> set xs) = (cl_servers (view w) (server_key s) = Some s))"
    and pod_view: "k_get_pod K k w = (rp, w') \<Longrightarrow> view w' = view w"
    and pod_found: "k_get_pod K k w = (Inr pd, w') \<Longrightarrow> cl_pods (view w) k = Some pd"
    and pod_missing: "k_get_pod K k w = (Inl (NotFoundError m), w') \<Longrightarrow> cl_pods (view w) k = None"
    and now_view: "k_now K w = (tm, w') \<Longrightarrow> view w' = view w"
    and finalizer_in: "k_contains_finalizer K om n = (n \<in> set (om_finalizers om))"
    and finalizer_add: "k_add_finalizer K om n = om\<lparr>om_finalizers :=
           (if n \<in> set (om_finalizers om) then om_finalizers om else om_finalizers om @ [n])\<rparr>"
    and finalizer_remove: "k_remove_finalizer K om n = om\<lparr>om_finalizers := removeAll n (om_finalizers om)\<rparr>"
    and servers_keyed: "cl_servers (view w) k = Some s \<Longrightarrow> server_key s = k"
    and gamedefs_keyed: "cl_gamedefs (view w) k = Some g \<Longrightarrow> gamedef_key g = k"
    and sts_keyed: "cl_statefulsets (view w) k = Some t \<Longrightarrow> sts_key t = k"
    and svc_keyed: "cl_services (view w) k = Some y \<Longrightarrow> svc_key y = k"
    and pvc_keyed: "cl_pvcs (view w) k = Some z \<Longrightarrow> pvc_key z = k"
    and cm_keyed: "cl_configmaps (view w) k = Some c \<Longrightarrow> cm_key c = k"
    and admit_declared: "svc_declared (admit_svc y) = svc_declared y"
    and merge_declared: "svc_declared (merge_svc olds y) = svc_declared y"
    and merge_clusterIP: "svc_clusterIP y = svc_clusterIP olds \<Longrightarrow> svc_clusterIP y \<noteq> [] \<Longrightarrow>
           svc_type y \<noteq> ''ExternalName'' \<Longrightarrow>
           svc_clusterIP (merge_svc olds y) = svc_clusterIP olds"
    and admit_pvc_declared: "pvc_declared (admit_pvc z) = pvc_declared z"
    and admit_pvc_class: "pvc_storageClassName z = Some cls \<Longrightarrow>
           pvc_storageClassName (admit_pvc z) = Some cls"
begin

lemmas get_views = servers.get_view gamedefs.get_view sts.get_view svc.get_view pvc.get_view

lemma server_status_effect:
  assumes "k_server_status_update K x w = (r, w')"
  shows "view w' = view w \<or> (\<exists>old. cl_servers (view w) (server_key x) = Some old \<and>
     view w' = put_server (server_key x) (Some (merge_server_status old x)) (view w))"
  using assms server_status_failed server_status_done by (cases r) blast+

end

text \<open>
  An API server that answers every call.  Which objects it accepts is a parameter; it refuses to
  change the immutable parts of a StatefulSet and of a claim, and accepts a change of finalizers.
\<close>

locale reliable_api_server =
  api_server K view admit_svc merge_svc admit_pvc +
  servers: object_store "k_servers K" view cl_servers put_server "\<lambda>s. server_key s" "\<lambda>s. s" merge_server
    acc_server +
  sts: object_store "k_statefulsets K" view cl_statefulsets put_sts "\<lambda>s. sts_key s" admit_sts
    "\<lambda>old x. Some (merge_sts old x)" acc_sts +
  svc: object_store "k_services K" view cl_services put_svc "\<lambda>s. svc_key s" admit_svc
    "\<lambda>old x. Some (merge_svc old x)" acc_svc +
  pvc: object_store "k_pvcs K" view cl_pvcs put_pvc "\<lambda>p. pvc_key p" admit_pvc "\<lambda>old x. Some x" acc_pvc
  for K :: "'w kube" and view :: "'w \<Rightarrow> cluster"
    and admit_svc :: "service \<Rightarrow> service" and merge_svc :: "service \<Rightarrow> service \<Rightarrow> service"
    and admit_pvc :: "persistent_volume_claim \<Rightarrow> persistent_volume_claim"
    and acc_server :: "steam_server option \<Rightarrow> steam_server \<Rightarrow> bool"
    and acc_sts :: "stateful_set option \<Rightarrow> stateful_set \<Rightarrow> bool"
    and acc_svc :: "service option \<Rightarrow> service \<Rightarrow> bool"
    and acc_pvc :: "persistent_volume_claim option \<Rightarrow> persistent_volume_claim \<Rightarrow> bool" +
  assumes acc_sts_mutable: "acc_sts (Some olds) s \<Longrightarrow> sts_mutable olds s"
    and acc_pvc_mutable: "acc_pvc (Some oldp) p \<Longrightarrow> pvc_mutable oldp p"
    and acc_server_finalizers:
      "acc_server (Some x) (x\<lparr>server_meta := (server_meta x)\<lparr>om_finalizers := fs\<rparr>\<rparr>)"
    and server_status_there: "cl_servers (view w) (server_key x) = Some old \<Longrightarrow>
           \<exists>w'. k_server_status_update K x w = (None, w')"
    and gamedef_there: "cl_gamedefs (view w) k = Some g \<Longrightarrow> \<exists>w'. sto_get (k_gamedefs K) k w = (Inr g, w')"
    and gamedef_absent: "cl_gamedefs (view w) k = None \<Longrightarrow>
           \<exists>m w'. sto_get (k_gamedefs K) k w = (Inl (NotFoundError m), w')"
    and gamedef_status_there: "cl_gamedefs (view w) (gamedef_key g) = Some g' \<Longrightarrow>
           \<exists>w'. k_gamedef_status_update K g w = (None, w')"
    and apply_cm_ok: "f (case cl_configmaps (view w) (cm_key cm) of None \<Rightarrow> cm | Some c \<Rightarrow> c) = Inr cm' \<Longrightarrow>
           cm_key cm' = cm_key cm \<Longrightarrow> \<exists>w'. k_configmap_create_or_update K cm f w = (None, w')"
    and pod_there: "cl_pods (view w) k = Some pd \<Longrightarrow> \<exists>w'. k_get_pod K k w = (Inr pd, w')"
    and pod_absent: "cl_pods (view w) k = None \<Longrightarrow> \<exists>m w'. k_get_pod K k w = (Inl (NotFoundError m), w')"

end
