(* ===== verification/Kube_Sim.thy ===== *)
theory Kube_Sim
  imports Kube_Contract Demo_Input
begin

text \<open>
  A small API server that meets the contracts of \<^theory_text>\<open>Kube_Contract\<close>: the objects of each kind in a
  list, with the documented effect of each call.  It shows the contracts can be met, and it is the
  server the properties are applied to on concrete clusters.
\<close>

section \<open>A list of objects as a map\<close>

definition sim_find :: "('o \<Rightarrow> object_key) \<Rightarrow> 'o list \<Rightarrow> object_key \<rightharpoonup> 'o" where
  "sim_find key xs k = find (\<lambda>x. key x = k) xs"

definition sim_put :: "('o \<Rightarrow> object_key) \<Rightarrow> object_key \<Rightarrow> 'o option \<Rightarrow> 'o list \<Rightarrow> 'o list" where
  "sim_put key k ox xs =
     (case ox of None \<Rightarrow> [] | Some x \<Rightarrow> [x]) @ filter (\<lambda>x. key x \<noteq> k) xs"

lemma sim_find_filter: "sim_find key (filter (\<lambda>x. key x \<noteq> k) xs) = (sim_find key xs)(k := None)"
  by (induction xs) (auto simp: sim_find_def fun_eq_iff)

lemma sim_find_Cons: "sim_find key (x # xs) = (sim_find key xs)(key x \<mapsto> x)"
  by (auto simp: sim_find_def fun_eq_iff)

lemma sim_find_put:
  "(\<And>x. ox = Some x \<Longrightarrow> key x = k) \<Longrightarrow> sim_find key (sim_put key k ox xs) = (sim_find key xs)(k := ox)"
  by (cases ox) (simp_all add: sim_put_def sim_find_Cons sim_find_filter)

lemma sim_find_keyed: "sim_find key xs k = Some x \<Longrightarrow> key x = k"
  by (auto simp: sim_find_def find_Some_iff)

lemma sim_find_put_Some:
  "key x = k \<Longrightarrow> sim_find key (sim_put key k (Some x) xs) = (sim_find key xs)(k \<mapsto> x)"
  by (rule sim_find_put) simp

lemma sim_find_modify:
  assumes "sim_find key xs k = Some old" and "key y = key old"
  shows "sim_find key (sim_put key k (Some y) xs) = (sim_find key xs)(k \<mapsto> y)"
  using sim_find_keyed [OF assms(1)] assms(2) by (intro sim_find_put) simp

lemma sim_find_in: "sim_find key xs k = Some x \<Longrightarrow> x \<in> set xs"
  by (auto simp: sim_find_def find_Some_iff)

section \<open>The calls of one kind\<close>

definition sim_store ::
  "('w \<Rightarrow> 'o list) \<Rightarrow> ('o list \<Rightarrow> 'w \<Rightarrow> 'w) \<Rightarrow> ('o \<Rightarrow> object_key) \<Rightarrow> ('o \<Rightarrow> 'o) \<Rightarrow>
   ('o \<Rightarrow> 'o \<Rightarrow> 'o option) \<Rightarrow> ('o option \<Rightarrow> 'o \<Rightarrow> bool) \<Rightarrow> ('o, 'w) store" where
  "sim_store objs put_objs key admit merge accepts =
     \<lparr>sto_get = (\<lambda>k w.
        case sim_find key (objs w) k of
          None \<Rightarrow> (Inl (NotFoundError ''not found''), w)
        | Some x \<Rightarrow> (Inr x, w)),
      sto_create = (\<lambda>x w.
        if sim_find key (objs w) (key x) \<noteq> None then (Some (PlainError ''already exists''), w)
        else if \<not> accepts None x then (Some (PlainError ''is invalid''), w)
        else (None, put_objs (sim_put key (key x) (Some (admit x)) (objs w)) w)),
      sto_update = (\<lambda>x w.
        case sim_find key (objs w) (key x) of
          None \<Rightarrow> (Some (NotFoundError ''not found''), w)
        | Some old \<Rightarrow>
            if \<not> accepts (Some old) x then (Some (PlainError ''is invalid''), w)
            else (None, put_objs (sim_put key (key x) (merge old x) (objs w)) w))\<rparr>"

lemma sim_object_store:
  assumes "\<And>w. look (view w) = sim_find key (objs w)"
    and "\<And>k ox w. (\<And>x. ox = Some x \<Longrightarrow> key x = k) \<Longrightarrow>
           view (put_objs (sim_put key k ox (objs w)) w) = upd k ox (view w)"
    and "\<And>k ox v. look (upd k ox v) = (look v)(k := ox)"
    and "\<And>x. key (admit x) = key x" and "\<And>old x y. merge old x = Some y \<Longrightarrow> key y = key x"
  shows "object_store (sim_store objs put_objs key admit merge accepts) view look upd key admit merge accepts"
proof -
  have create: "view (put_objs (sim_put key (key x) (Some (admit x)) (objs w)) w) =
      upd (key x) (Some (admit x)) (view w)" for x w
    by (rule assms(2)) (simp add: assms(4))
  have update: "view (put_objs (sim_put key (key x) (merge old x) (objs w)) w) =
      upd (key x) (merge old x) (view w)" for old x w
    by (rule assms(2)) (rule assms(5))
  show ?thesis
    by unfold_locales
      (auto simp: sim_store_def assms(1,3) create update split: option.splits if_splits)
qed

section \<open>The simulated server\<close>

record sim =
  sim_servers :: "steam_server list"
  sim_gamedefs :: "game_definition list"
  sim_statefulsets :: "stateful_set list"
  sim_services :: "service list"
  sim_pvcs :: "persistent_volume_claim list"
  sim_configmaps :: "config_map list"
  sim_pods :: "(object_key \<times> pod) list"
  sim_clock :: nat

definition sim_view :: "sim \<Rightarrow> cluster" where
  "sim_view w =
     \<lparr>cl_servers = sim_find (\<lambda>s. server_key s) (sim_servers w),
      cl_gamedefs = sim_find (\<lambda>g. gamedef_key g) (sim_gamedefs w),
      cl_statefulsets = sim_find (\<lambda>s. sts_key s) (sim_statefulsets w),
      cl_services = sim_find (\<lambda>s. svc_key s) (sim_services w),
      cl_pvcs = sim_find (\<lambda>p. pvc_key p) (sim_pvcs w),
      cl_configmaps = sim_find (\<lambda>c. cm_key c) (sim_configmaps w),
      cl_pods = map_of (sim_pods w)\<rparr>"

text \<open>Every Service gets the same address and, where the type has them, the same node port.\<close>

definition sim_admit_svc :: "service \<Rightarrow> service" where
  "sim_admit_svc s = s\<lparr>
     svc_clusterIP := (if svc_clusterIP s = [] then ''10.96.0.10'' else svc_clusterIP s),
     svc_ports := map (\<lambda>p. if sp_nodePort p = 0 \<and> svc_type s \<noteq> ServiceTypeClusterIP
                            then p\<lparr>sp_nodePort := 30000\<rparr> else p) (svc_ports s)\<rparr>"

definition sim_merge_svc :: "service \<Rightarrow> service \<Rightarrow> service" where
  "sim_merge_svc old x = sim_admit_svc (x\<lparr>
     svc_clusterIP := (if svc_clusterIP x = [] then svc_clusterIP old else svc_clusterIP x),
     svc_ingress := svc_ingress old\<rparr>)"

text \<open>A claim that names no storage class gets the default class, and every claim the protection finalizer.\<close>

definition sim_admit_pvc :: "persistent_volume_claim \<Rightarrow> persistent_volume_claim" where
  "sim_admit_pvc p = p\<lparr>
     pvc_storageClassName :=
       (case pvc_storageClassName p of None \<Rightarrow> Some ''standard'' | Some c \<Rightarrow> Some c),
     pvc_meta := (pvc_meta p)\<lparr>om_finalizers := om_finalizers (pvc_meta p) @ [''kubernetes.io/pvc-protection'']\<rparr>\<rparr>"

definition sim_acc_sts :: "stateful_set option \<Rightarrow> stateful_set \<Rightarrow> bool" where
  "sim_acc_sts old x = (case old of None \<Rightarrow> True | Some s \<Rightarrow> sts_mutable s x)"

definition sim_acc_pvc :: "persistent_volume_claim option \<Rightarrow> persistent_volume_claim \<Rightarrow> bool" where
  "sim_acc_pvc old x = (case old of None \<Rightarrow> True | Some p \<Rightarrow> pvc_mutable p x)"

definition sim_setref :: "object_meta \<Rightarrow> object_meta \<Rightarrow> go_error + object_meta" where
  "sim_setref owner m =
     (if om_namespace m \<noteq> om_namespace owner then
        Inl (PlainError ''cross-namespace owner references are disallowed'')
      else if controlled_by owner m then Inr m
      else if list_ex or_controller (om_owners m) then
        Inl (PlainError ''Object is already owned by another controller'')
      else Inr (m\<lparr>om_owners := om_owners m @
             [\<lparr>or_name = om_name owner, or_uid = om_uid owner, or_controller = True\<rparr>]\<rparr>))"

definition sim_server_status_update :: "steam_server \<Rightarrow> sim \<Rightarrow> go_error option \<times> sim" where
  "sim_server_status_update x w =
     (case sim_find (\<lambda>s. server_key s) (sim_servers w) (server_key x) of
        None \<Rightarrow> (Some (NotFoundError ''not found''), w)
      | Some old \<Rightarrow>
          (None, w\<lparr>sim_servers := sim_put (\<lambda>s. server_key s) (server_key x)
                     (Some (merge_server_status old x)) (sim_servers w)\<rparr>))"

definition sim_gamedef_status_update :: "game_definition \<Rightarrow> sim \<Rightarrow> go_error option \<times> sim" where
  "sim_gamedef_status_update x w =
     (case sim_find (\<lambda>g. gamedef_key g) (sim_gamedefs w) (gamedef_key x) of
        None \<Rightarrow> (Some (NotFoundError ''not found''), w)
      | Some old \<Rightarrow>
          (None, w\<lparr>sim_gamedefs := sim_put (\<lambda>g. gamedef_key g) (gamedef_key x)
                     (Some (merge_gamedef_status old x)) (sim_gamedefs w)\<rparr>))"

definition sim_apply ::
  "config_map \<Rightarrow> (config_map \<Rightarrow> go_error + config_map) \<Rightarrow> sim \<Rightarrow> go_error option \<times> sim" where
  "sim_apply cm f w =
     (case f (case sim_find (\<lambda>c. cm_key c) (sim_configmaps w) (cm_key cm) of None \<Rightarrow> cm | Some c \<Rightarrow> c) of
        Inl e \<Rightarrow> (Some e, w)
      | Inr x \<Rightarrow>
          if cm_key x \<noteq> cm_key cm then
            (Some (PlainError ''MutateFn cannot mutate object name and/or object namespace''), w)
          else (None, w\<lparr>sim_configmaps := sim_put (\<lambda>c. cm_key c) (cm_key cm) (Some x) (sim_configmaps w)\<rparr>))"

definition sim_list :: "sim \<Rightarrow> (go_error + steam_server list) \<times> sim" where
  "sim_list w =
     (Inr (filter (\<lambda>s. sim_find (\<lambda>s. server_key s) (sim_servers w) (server_key s) = Some s)
        (sim_servers w)), w)"

definition sim_kube :: "sim kube" where
  "sim_kube =
     \<lparr>k_servers = sim_store sim_servers (\<lambda>xs w. w\<lparr>sim_servers := xs\<rparr>) (\<lambda>s. server_key s)
        (\<lambda>s. s) merge_server (\<lambda>_ _. True),
      k_server_status_update = sim_server_status_update,
      k_server_list = sim_list,
      k_gamedefs = sim_store sim_gamedefs (\<lambda>xs w. w\<lparr>sim_gamedefs := xs\<rparr>) (\<lambda>g. gamedef_key g)
        (\<lambda>g. g) merge_gamedef (\<lambda>_ _. True),
      k_gamedef_status_update = sim_gamedef_status_update,
      k_statefulsets = sim_store sim_statefulsets (\<lambda>xs w. w\<lparr>sim_statefulsets := xs\<rparr>) (\<lambda>s. sts_key s)
        admit_sts (\<lambda>old x. Some (merge_sts old x)) sim_acc_sts,
      k_services = sim_store sim_services (\<lambda>xs w. w\<lparr>sim_services := xs\<rparr>) (\<lambda>s. svc_key s)
        sim_admit_svc (\<lambda>old x. Some (sim_merge_svc old x)) (\<lambda>_ _. True),
      k_pvcs = sim_store sim_pvcs (\<lambda>xs w. w\<lparr>sim_pvcs := xs\<rparr>) (\<lambda>p. pvc_key p)
        sim_admit_pvc (\<lambda>old x. Some x) sim_acc_pvc,
      k_configmap_create_or_update = sim_apply,
      k_get_pod = (\<lambda>k w.
        (case map_of (sim_pods w) k of
           None \<Rightarrow> (Inl (NotFoundError ''not found''), w)
         | Some p \<Rightarrow> (Inr p, w))),
      k_set_controller_reference = sim_setref,
      k_contains_finalizer = (\<lambda>m n. n \<in> set (om_finalizers m)),
      k_add_finalizer = (\<lambda>m n. m\<lparr>om_finalizers :=
        (if n \<in> set (om_finalizers m) then om_finalizers m else om_finalizers m @ [n])\<rparr>),
      k_remove_finalizer = (\<lambda>m n. m\<lparr>om_finalizers := removeAll n (om_finalizers m)\<rparr>),
      k_now = (\<lambda>w. (sim_clock w, w\<lparr>sim_clock := Suc (sim_clock w)\<rparr>))\<rparr>"

section \<open>The contracts hold\<close>

lemma merge_server_key: "merge_server old x = Some y \<Longrightarrow> server_key y = server_key x"
  by (auto simp: merge_server_def meta_key_def split: if_splits)

lemma merge_keys:
  "sts_key (admit_sts s) = sts_key s" "sts_key (merge_sts olds s) = sts_key s"
  "svc_key (sim_admit_svc v) = svc_key v" "svc_key (sim_merge_svc oldv v) = svc_key v"
  "pvc_key (sim_admit_pvc p) = pvc_key p"
  "gamedef_key (merge_gamedef_status g g') = gamedef_key g"
  "server_key (merge_server_status t t') = server_key t"
  by (simp_all add: admit_sts_def merge_sts_def sim_admit_svc_def sim_merge_svc_def
      sim_admit_pvc_def merge_gamedef_status_def merge_server_status_def meta_key_def)

lemma sim_servers_store:
  "object_store (k_servers sim_kube) sim_view cl_servers put_server (\<lambda>s. server_key s) (\<lambda>s. s)
     merge_server (\<lambda>_ _. True)"
  unfolding sim_kube_def kube.simps
  by (rule sim_object_store)
    (simp_all add: sim_view_def put_server_def sim_find_put merge_server_key)

lemma sim_gamedefs_store:
  "object_store (k_gamedefs sim_kube) sim_view cl_gamedefs put_gamedef (\<lambda>g. gamedef_key g) (\<lambda>g. g)
     merge_gamedef (\<lambda>_ _. True)"
  unfolding sim_kube_def kube.simps
  by (rule sim_object_store)
    (auto simp: sim_view_def put_gamedef_def sim_find_put merge_gamedef_def)

lemma sim_sts_store:
  "object_store (k_statefulsets sim_kube) sim_view cl_statefulsets put_sts (\<lambda>s. sts_key s) admit_sts
     (\<lambda>old x. Some (merge_sts old x)) sim_acc_sts"
  unfolding sim_kube_def kube.simps
  by (rule sim_object_store)
    (auto simp: sim_view_def put_sts_def sim_find_put merge_keys)

lemma sim_svc_store:
  "object_store (k_services sim_kube) sim_view cl_services put_svc (\<lambda>s. svc_key s) sim_admit_svc
     (\<lambda>old x. Some (sim_merge_svc old x)) (\<lambda>_ _. True)"
  unfolding sim_kube_def kube.simps
  by (rule sim_object_store)
    (auto simp: sim_view_def put_svc_def sim_find_put merge_keys)

lemma sim_pvc_store:
  "object_store (k_pvcs sim_kube) sim_view cl_pvcs put_pvc (\<lambda>p. pvc_key p) sim_admit_pvc
     (\<lambda>old x. Some x) sim_acc_pvc"
  unfolding sim_kube_def kube.simps
  by (rule sim_object_store)
    (auto simp: sim_view_def put_pvc_def sim_find_put merge_keys)

lemmas sim_stores = sim_servers_store sim_gamedefs_store sim_sts_store sim_svc_store sim_pvc_store

lemma sim_refs: "controller_references (k_set_controller_reference sim_kube)"
proof (unfold_locales, goal_cases)
  case (1 owner m m')
  have "m = m\<lparr>om_owners := om_owners m\<rparr>" by simp
  then have "\<exists>os. m = m\<lparr>om_owners := os\<rparr>" by blast
  with 1 show ?case
    by (auto simp: sim_kube_def sim_setref_def controlled_by_def split: if_splits)
qed (auto simp: sim_kube_def sim_setref_def controllers_def split: if_splits)

lemma sim_declared:
  "svc_declared (sim_admit_svc s) = svc_declared s"
  "svc_declared (sim_merge_svc old s) = svc_declared s"
  "pvc_declared (sim_admit_pvc p) = pvc_declared p"
  "pvc_storageClassName p = Some c \<Longrightarrow> pvc_storageClassName (sim_admit_pvc p) = Some c"
  by (simp_all add: svc_declared_def sim_admit_svc_def sim_merge_svc_def pvc_declared_def sim_admit_pvc_def)

lemma sim_merge_clusterIP:
  "svc_clusterIP y = svc_clusterIP olds \<Longrightarrow> svc_clusterIP olds \<noteq> [] \<Longrightarrow>
   svc_clusterIP (sim_merge_svc olds y) = svc_clusterIP olds"
  by (simp add: sim_merge_svc_def sim_admit_svc_def)

lemmas sim_call_defs = sim_kube_def sim_server_status_update_def sim_gamedef_status_update_def
  sim_apply_def sim_list_def

lemma sim_api_axioms: "api_server_axioms sim_kube sim_view sim_admit_svc sim_merge_svc sim_admit_pvc"
proof (unfold_locales, goal_cases)
  case (2 x w w')
  then show ?case
    by (auto simp: sim_call_defs sim_view_def put_server_def merge_keys sim_find_modify
        split: option.splits)
next
  case (4 g w w')
  then show ?case
    by (auto simp: sim_call_defs sim_view_def put_gamedef_def merge_keys sim_find_modify
        split: option.splits)
next
  case (6 cm f w w')
  then show ?case
    by (auto simp: sim_call_defs sim_view_def put_cm_def sim_find_put_Some
        split: option.splits sum.splits if_splits)
next
  case (7 w rl w')
  then show ?case
    by (auto simp: sim_call_defs sim_view_def dest: sim_find_in)
qed (auto simp: sim_declared sim_merge_clusterIP sim_call_defs sim_view_def dest: sim_find_keyed
    split: option.splits sum.splits if_splits)

lemma sim_reliable_axioms:
  "reliable_api_server_axioms sim_kube sim_view (\<lambda>_ _. True) sim_acc_sts sim_acc_pvc"
  by unfold_locales
    (auto simp: sim_call_defs sim_view_def sim_acc_sts_def sim_acc_pvc_def sim_store_def
      split: option.splits)

lemma sim_api_server: "api_server sim_kube sim_view sim_admit_svc sim_merge_svc sim_admit_pvc"
  by (intro api_server.intro sim_stores [THEN object_store.axioms(1)] sim_refs sim_api_axioms)

lemma sim_reliable:
  "reliable_api_server sim_kube sim_view sim_admit_svc sim_merge_svc sim_admit_pvc (\<lambda>_ _. True) sim_acc_sts
     (\<lambda>_ _. True) sim_acc_pvc"
  by (intro reliable_api_server.intro sim_api_server sim_stores sim_reliable_axioms)

interpretation sim: reliable_api_server sim_kube sim_view sim_admit_svc sim_merge_svc sim_admit_pvc
  "\<lambda>_ _. True" sim_acc_sts "\<lambda>_ _. True" sim_acc_pvc
  by (rule sim_reliable)

section \<open>A sample cluster\<close>

text \<open>The demo's game definition and server, before any reconciliation.\<close>

definition sample_world :: sim where
  "sample_world =
     \<lparr>sim_servers = [sample_server], sim_gamedefs = [demo_gameDef], sim_statefulsets = [],
      sim_services = [], sim_pvcs = [], sim_configmaps = [], sim_pods = [], sim_clock = 1\<rparr>"

abbreviation "demo_gamedef_key \<equiv> ObjectKey [] ''valheim''"
abbreviation "demo_server_key \<equiv> ObjectKey ''default'' ''my-valheim''"

lemma sample_world_view:
  "cl_gamedefs (sim_view sample_world) = [demo_gamedef_key \<mapsto> demo_gameDef]"
  "cl_servers (sim_view sample_world) = [demo_server_key \<mapsto> sample_server]"
  by (simp_all add: sim_view_def sample_world_def sim_find_Cons demo_gameDef_def demo_server_with_def)
    (simp_all add: sim_find_def fun_eq_iff)

end
