(* ===== verification/SteamServer_Status.thy ===== *)
theory SteamServer_Status
  imports Kube_Sim Pvc_Builder
begin

text \<open>
  The status part of \<^verbatim>\<open>internal/controller/steamserver_controller.go\<close>: what state, address and ports
  a server is reported to have, and the two places the status is written.
\<close>

section \<open>determineState, determineAddress, determinePorts\<close>

text \<open>
  The loop over the init containers returns from the function in two cases and otherwise goes on
  to the next; so does the loop over the containers.
\<close>

fun init_container_state :: "container_status list \<Rightarrow> server_state option" where
  "init_container_state [] = None"
| "init_container_state (cs # css) =
     (if cs_name cs = InitContainerName then
        (if cs_running cs then Some ServerStateInstalling
         else (case cs_terminated cs of
                 Some exitCode \<Rightarrow>
                   if exitCode \<noteq> 0 then Some ServerStateError else init_container_state css
               | None \<Rightarrow> init_container_state css))
      else init_container_state css)"

fun main_container_state :: "container_status list \<Rightarrow> server_state option" where
  "main_container_state [] = None"
| "main_container_state (cs # css) =
     (if cs_name cs = GameServerContainerName then
        (if cs_running cs \<and> cs_ready cs then Some ServerStateRunning
         else if cs_running cs then Some ServerStateStarting
         else main_container_state css)
      else main_container_state css)"

definition pod_state :: "pod \<Rightarrow> server_state" where
  "pod_state p =
     (if pod_phase p = ''Pending'' then ServerStatePending
      else if pod_phase p = ''Running'' then
        (case init_container_state (pod_initContainerStatuses p) of
           Some s \<Rightarrow> s
         | None \<Rightarrow>
             (case main_container_state (pod_containerStatuses p) of
                Some s \<Rightarrow> s
              | None \<Rightarrow> ServerStateStarting))
      else if pod_phase p = ''Failed'' then ServerStateError
      else ServerStatePending)"

definition pod_key :: "steam_server \<Rightarrow> object_key" where
  "pod_key server = ObjectKey (server_namespace server) (server_name server @ ''-0'')"

definition determineState ::
  "'w kube \<Rightarrow> steam_server \<Rightarrow> go_error + stateful_set \<Rightarrow> 'w \<Rightarrow> server_state \<times> 'w" where
  "determineState K server sts w =
     (case sts of
        Inl stsErr \<Rightarrow> (if IsNotFound stsErr then ServerStatePending else ServerStateError, w)
      | Inr s \<Rightarrow>
          if sts_readyReplicas s = 0 \<and> sts_statusReplicas s = 0 then (ServerStatePending, w)
          else
            (case k_get_pod K (pod_key server) w of
               (Inl podErr, w1) \<Rightarrow>
                 (if IsNotFound podErr then ServerStatePending else ServerStateError, w1)
             | (Inr p, w1) \<Rightarrow> (pod_state p, w1)))"

fun ingress_address :: "ingress list \<Rightarrow> string" where
  "ingress_address [] = ''<pending>''"
| "ingress_address (ing # ings) =
     (if ing_ip ing \<noteq> [] then ing_ip ing
      else if ing_hostname ing \<noteq> [] then ing_hostname ing
      else ingress_address ings)"

definition determineAddress :: "go_error + service \<Rightarrow> string" where
  "determineAddress svc =
     (case svc of
        Inl _ \<Rightarrow> []
      | Inr s \<Rightarrow>
          if svc_type s = ServiceTypeLoadBalancer then ingress_address (svc_ingress s)
          else if svc_type s = ServiceTypeNodePort then ''<node-ip>''
          else if svc_type s = ServiceTypeClusterIP then svc_clusterIP s
          else [])"

definition port_status_of :: "string \<Rightarrow> service_port \<Rightarrow> port_status" where
  "port_status_of typ p =
     \<lparr>pst_name = sp_name p,
      pst_port = (if typ = ServiceTypeNodePort \<and> sp_nodePort p \<noteq> 0 then sp_nodePort p else sp_port p),
      pst_protocol = sp_protocol p\<rparr>"

definition determinePorts :: "go_error + service \<Rightarrow> port_status list" where
  "determinePorts svc =
     (case svc of Inl _ \<Rightarrow> [] | Inr s \<Rightarrow> map (port_status_of (svc_type s)) (svc_ports s))"

definition portsEqual :: "port_status list \<Rightarrow> port_status list \<Rightarrow> bool" where
  "portsEqual a b =
     (if length a \<noteq> length b then False
      else list_all (\<lambda>i. \<not> (pst_name (a ! i) \<noteq> pst_name (b ! i) \<or> pst_port (a ! i) \<noteq> pst_port (b ! i) \<or>
                           pst_protocol (a ! i) \<noteq> pst_protocol (b ! i))) [0..<length a])"

fun stateMessage :: "server_state \<Rightarrow> string" where
  "stateMessage ServerStatePending = ''Waiting for resources to be scheduled''"
| "stateMessage ServerStateInstalling = ''SteamCMD is downloading game files''"
| "stateMessage ServerStateStarting = ''Game server is starting up''"
| "stateMessage ServerStateRunning = ''Game server is running''"
| "stateMessage ServerStateError = ''An error occurred''"
| "stateMessage ServerStateUnset = []"

section \<open>updateStatus and setErrorStatus\<close>

definition child_key :: "steam_server \<Rightarrow> object_key" where
  "child_key server = ObjectKey (server_namespace server) (server_name server)"

definition updateStatus ::
  "'w kube \<Rightarrow> steam_server \<Rightarrow> 'w \<Rightarrow> (ctrl_result \<times> go_error option) \<times> 'w" where
  "updateStatus K server w =
     (case sto_get (k_statefulsets K) (child_key server) w of (sts, w1) \<Rightarrow>
      case sto_get (k_services K) (child_key server) w1 of (svc, w2) \<Rightarrow>
      case determineState K server sts w2 of (newState, w3) \<Rightarrow>
      case k_now K w3 of (now, w4) \<Rightarrow>
        (let newAddress = determineAddress svc;
             newPorts = determinePorts svc;
             status = server_status server;
             statusChanged = (st_state status \<noteq> newState \<or> st_address status \<noteq> newAddress \<or>
                              \<not> portsEqual (st_ports status) newPorts);
             done = (\<lambda>w. (if newState \<noteq> ServerStateRunning then (requeue_after 10, None)
                          else (no_result, None), w))
         in if statusChanged then
              (let server' = server\<lparr>server_status := status
                     \<lparr>st_state := newState, st_address := newAddress, st_ports := newPorts,
                      st_lastUpdated := Some now, st_message := stateMessage newState\<rparr>\<rparr>
               in case k_server_status_update K server' w4 of
                    (Some err, w5) \<Rightarrow> ((no_result, Some err), w5)
                  | (None, w5) \<Rightarrow> done w5)
            else done w4))"

definition error_status :: "string \<Rightarrow> go_error \<Rightarrow> nat \<Rightarrow> steam_server \<Rightarrow> steam_server" where
  "error_status resource err now server =
     server\<lparr>server_status := (server_status server)
       \<lparr>st_state := ServerStateError,
        st_message := ''Failed to reconcile '' @ resource @ '': '' @ err_text err,
        st_lastUpdated := Some now\<rparr>\<rparr>"

definition setErrorStatus ::
  "'w kube \<Rightarrow> steam_server \<Rightarrow> string \<Rightarrow> go_error \<Rightarrow> 'w \<Rightarrow> (ctrl_result \<times> go_error option) \<times> 'w" where
  "setErrorStatus K server resource err w =
     (case k_now K w of (now, w1) \<Rightarrow>
        (case k_server_status_update K (error_status resource err now server) w1 of
           (Some statusErr, w2) \<Rightarrow> ((no_result, Some statusErr), w2)
         | (None, w2) \<Rightarrow> ((no_result, Some err), w2)))"

section \<open>Facts\<close>

lemma portsEqual_iff: "portsEqual a b \<longleftrightarrow> a = b"
proof
  assume eq: "portsEqual a b"
  then have len: "length a = length b" by (auto simp: portsEqual_def split: if_splits)
  have "a ! i = b ! i" if "i < length a" for i
    using eq that by (auto simp: portsEqual_def list_all_iff intro: port_status.equality split: if_splits)
  with len show "a = b" by (rule nth_equalityI)
qed (simp add: portsEqual_def list_all_iff)

lemma error_status_simps [simp]:
  "server_meta (error_status r e t s) = server_meta s" "server_spec (error_status r e t s) = server_spec s"
  "st_state (server_status (error_status r e t s)) = ServerStateError"
  "st_message (server_status (error_status r e t s)) = ''Failed to reconcile '' @ r @ '': '' @ err_text e"
  by (simp_all add: error_status_def)

text \<open>
  A status the controller has written: a state with its message, or the error state with the text of
  a failure, and the time of the update.
\<close>

definition reported :: "steam_server_status \<Rightarrow> bool" where
  "reported st \<longleftrightarrow>
     st_state st \<noteq> ServerStateUnset \<and> st_lastUpdated st \<noteq> None \<and>
     (st_message st = stateMessage (st_state st) \<or>
      st_state st = ServerStateError \<and> take 20 (st_message st) = ''Failed to reconcile '')"

lemma error_status_reported [simp]: "reported (server_status (error_status r e t s))"
  by (simp add: reported_def) (simp add: error_status_def)

lemma pod_state_set: "pod_state p \<noteq> ServerStateUnset"
proof -
  have "init_container_state css \<noteq> Some ServerStateUnset" for css
    by (induction css) (auto split: option.split)
  moreover have "main_container_state css \<noteq> Some ServerStateUnset" for css
    by (induction css) auto
  ultimately show ?thesis by (auto simp: pod_state_def split: option.split)
qed

lemma determineState_set: "determineState K server sts w = (st, w') \<Longrightarrow> st \<noteq> ServerStateUnset"
  by (auto simp: determineState_def pod_state_set split: sum.splits if_splits prod.splits)

text \<open>The containers of a pod have distinct names, so the loops look at one status at most.\<close>

lemma init_container_state_named:
  assumes "distinct (map cs_name css)" and "cs \<in> set css" and "cs_name cs = InitContainerName"
  shows "init_container_state css =
     (if cs_running cs then Some ServerStateInstalling
      else if \<exists>c. cs_terminated cs = Some c \<and> c \<noteq> 0 then Some ServerStateError else None)"
  using assms
proof (induction css)
  case Nil
  then show ?case by simp
next
  case (Cons c css)
  have none: "init_container_state ds = None" if "InitContainerName \<notin> set (map cs_name ds)" for ds
    using that by (induction ds) auto
  show ?case
  proof (cases "cs = c")
    case True
    with Cons.prems none [of css] show ?thesis by (auto split: option.split)
  next
    case False
    with Cons.prems have "cs \<in> set css" "cs_name c \<noteq> InitContainerName" by (auto simp: image_iff)
    with Cons show ?thesis by simp
  qed
qed

lemma main_container_state_named:
  assumes "distinct (map cs_name css)" and "cs \<in> set css" and "cs_name cs = GameServerContainerName"
  shows "main_container_state css =
     (if cs_running cs then Some (if cs_ready cs then ServerStateRunning else ServerStateStarting) else None)"
  using assms
proof (induction css)
  case Nil
  then show ?case by simp
next
  case (Cons c css)
  have none: "main_container_state ds = None" if "GameServerContainerName \<notin> set (map cs_name ds)" for ds
    using that by (induction ds) auto
  show ?case
  proof (cases "cs = c")
    case True
    with Cons.prems none [of css] show ?thesis by auto
  next
    case False
    with Cons.prems have "cs \<in> set css" "cs_name c \<noteq> GameServerContainerName" by (auto simp: image_iff)
    with Cons show ?thesis by simp
  qed
qed

section \<open>What the cluster shows of a server\<close>

definition observed_state :: "cluster \<Rightarrow> steam_server \<Rightarrow> server_state" where
  "observed_state v server =
     (case cl_statefulsets v (child_key server) of
        None \<Rightarrow> ServerStatePending
      | Some s \<Rightarrow>
          if sts_readyReplicas s = 0 \<and> sts_statusReplicas s = 0 then ServerStatePending
          else (case cl_pods v (pod_key server) of
                  None \<Rightarrow> ServerStatePending
                | Some p \<Rightarrow> pod_state p))"

definition observed_service :: "cluster \<Rightarrow> steam_server \<Rightarrow> go_error + service" where
  "observed_service v server =
     (case cl_services v (child_key server) of
        None \<Rightarrow> Inl (NotFoundError []) | Some s \<Rightarrow> Inr s)"

text \<open>The server with the status the cluster shows, unchanged if state, address and ports agree.\<close>

definition observed_server :: "cluster \<Rightarrow> nat \<Rightarrow> steam_server \<Rightarrow> steam_server" where
  "observed_server v now server =
     (let svc = observed_service v server; status = server_status server in
      if st_state status = observed_state v server \<and> st_address status = determineAddress svc \<and>
         st_ports status = determinePorts svc
      then server
      else server\<lparr>server_status := status
             \<lparr>st_state := observed_state v server, st_address := determineAddress svc,
              st_ports := determinePorts svc, st_lastUpdated := Some now,
              st_message := stateMessage (observed_state v server)\<rparr>\<rparr>)"

lemma observed_server_simps [simp]:
  "server_meta (observed_server v t s) = server_meta s"
  "server_spec (observed_server v t s) = server_spec s"
  "st_state (server_status (observed_server v t s)) = observed_state v s"
  "st_address (server_status (observed_server v t s)) = determineAddress (observed_service v s)"
  "st_ports (server_status (observed_server v t s)) = determinePorts (observed_service v s)"
  by (simp_all add: observed_server_def Let_def)

lemma determine_Inl:
  "determineAddress (Inl e) = []" "determinePorts (Inl e) = []"
  by (simp_all add: determineAddress_def determinePorts_def)

context api_server begin

lemma determineState_view: "determineState K server r w = (st, w') \<Longrightarrow> view w' = view w"
  by (auto simp: determineState_def dest: pod_view split: sum.splits if_splits prod.splits)

lemma setErrorStatus_effect:
  assumes "setErrorStatus K server resource err w = ((res, e), w')"
  shows "res = no_result \<and> e \<noteq> None \<and>
     (view w' = view w \<or>
      (\<exists>old now. cl_servers (view w) (server_key server) = Some old \<and> e = Some err \<and>
         view w' = put_server (server_key server)
           (Some (merge_server_status old (error_status resource err now server))) (view w)))"
proof -
  obtain now w1 where n: "k_now K w = (now, w1)" by fastforce
  obtain r w2 where u: "k_server_status_update K (error_status resource err now server) w1 = (r, w2)"
    by fastforce
  show ?thesis
  proof (cases r)
    case None
    with server_status_done [of "error_status resource err now server" w1 w2] u now_view [OF n] n assms
    show ?thesis by (auto simp: setErrorStatus_def)
  next
    case (Some e')
    with server_status_failed [of "error_status resource err now server" w1 e' w2] u now_view [OF n] n assms
    show ?thesis by (auto simp: setErrorStatus_def)
  qed
qed

text \<open>\<open>updateStatus\<close> writes at most the status of the server.\<close>

lemma updateStatus_effect:
  assumes "updateStatus K server w = ((res, e), w')"
  shows "view w' = view w \<or>
     (\<exists>old st. cl_servers (view w) (server_key server) = Some old \<and> reported st \<and>
        view w' = put_server (server_key server) (Some (old\<lparr>server_status := st\<rparr>)) (view w))"
proof -
  obtain sts w1 where 1: "sto_get (k_statefulsets K) (child_key server) w = (sts, w1)" by fastforce
  obtain svc w2 where 2: "sto_get (k_services K) (child_key server) w1 = (svc, w2)" by fastforce
  obtain st w3 where 3: "determineState K server sts w2 = (st, w3)" by fastforce
  obtain now w4 where 4: "k_now K w3 = (now, w4)" by fastforce
  have v: "view w4 = view w"
    using sts.get_view [OF 1] svc.get_view [OF 2] determineState_view [OF 3] now_view [OF 4] by simp
  define x where "x = server\<lparr>server_status := (server_status server)
      \<lparr>st_state := st, st_address := determineAddress svc, st_ports := determinePorts svc,
       st_lastUpdated := Some now, st_message := stateMessage st\<rparr>\<rparr>"
  have x: "server_meta x = server_meta server" "reported (server_status x)"
    using determineState_set [OF 3] by (simp_all add: x_def reported_def)
  obtain r w5 where u: "k_server_status_update K x w4 = (r, w5)" by fastforce
  have "w' = w4 \<or> w' = w5"
    using assms 1 2 3 4 u
    by (auto simp: updateStatus_def Let_def x_def split: if_splits option.splits)
  then show ?thesis
    using v x server_status_effect [OF u] by (auto simp: merge_server_status_def)
qed

end

lemma updateStatus_writes:
  assumes "sto_get (k_statefulsets K) (child_key server) w = (sts, w1)"
    and "sto_get (k_services K) (child_key server) w1 = (svc, w2)"
    and "determineState K server sts w2 = (st, w3)" and "k_now K w3 = (now, w4)"
    and "\<not> (st_state (server_status server) = st \<and> st_address (server_status server) = determineAddress svc \<and>
              st_ports (server_status server) = determinePorts svc)"
    and "k_server_status_update K
           (server\<lparr>server_status := (server_status server)
              \<lparr>st_state := st, st_address := determineAddress svc, st_ports := determinePorts svc,
               st_lastUpdated := Some now, st_message := stateMessage st\<rparr>\<rparr>) w4 = (None, w5)"
  shows "updateStatus K server w =
     ((if st = ServerStateRunning then no_result else requeue_after 10, None), w5)"
  using assms by (auto simp: updateStatus_def Let_def portsEqual_iff)

context reliable_api_server begin

lemma determineState_observed:
  assumes "sto_get (k_statefulsets K) (child_key server) w0 = (r, w1)" and "view w0 = v" and "view w = v"
  shows "\<exists>w'. determineState K server r w = (observed_state v server, w') \<and> view w' = v"
  using assms(1)
proof (cases rule: sts.get_total [of w0 "child_key server"])
  case (there x w')
  show ?thesis
  proof (cases "cl_pods v (pod_key server)")
    case None
    with pod_absent assms(3) obtain m w2 where p: "k_get_pod K (pod_key server) w = (Inl (NotFoundError m), w2)"
      by blast
    with None there assms pod_view [OF p] show ?thesis
      by (auto simp: determineState_def observed_state_def)
  next
    case (Some p)
    with pod_there assms(3) obtain w2 where p: "k_get_pod K (pod_key server) w = (Inr p, w2)" by blast
    with Some there assms pod_view [OF p] show ?thesis
      by (auto simp: determineState_def observed_state_def)
  qed
next
  case (absent m w')
  with assms show ?thesis by (auto simp: determineState_def observed_state_def)
qed

lemma service_observed:
  assumes "sto_get (k_services K) (child_key server) w = (r, w1)" and "view w = v"
  shows "determineAddress r = determineAddress (observed_service v server)"
    and "determinePorts r = determinePorts (observed_service v server)"
proof -
  have "determineAddress r = determineAddress (observed_service v server) \<and>
      determinePorts r = determinePorts (observed_service v server)"
    by (rule svc.get_total [of w "child_key server"])
      (use assms in \<open>simp_all add: observed_service_def determine_Inl\<close>)
  then show "determineAddress r = determineAddress (observed_service v server)"
    and "determinePorts r = determinePorts (observed_service v server)" by simp_all
qed

lemma updateStatus_reported:
  assumes "cl_servers (view w) (server_key server) = Some server"
  shows "\<exists>now w'. updateStatus K server w =
       ((if observed_state (view w) server = ServerStateRunning then no_result else requeue_after 10, None), w') \<and>
     view w' = put_server (server_key server) (Some (observed_server (view w) now server)) (view w)"
proof -
  obtain sts w1 where 1: "sto_get (k_statefulsets K) (child_key server) w = (sts, w1)" by fastforce
  obtain svc w2 where 2: "sto_get (k_services K) (child_key server) w1 = (svc, w2)" by fastforce
  note v1 = sts.get_view [OF 1] and v2 = svc.get_view [OF 2]
  have v2w: "view w2 = view w" using v1 v2 by simp
  obtain w3 where 3: "determineState K server sts w2 = (observed_state (view w) server, w3)"
    and v3: "view w3 = view w"
    using determineState_observed [OF 1 refl v2w] by blast
  obtain now w4 where 4: "k_now K w3 = (now, w4)" by fastforce
  have v4: "view w4 = view w" using now_view [OF 4] v3 by simp
  note run = 1 2 3 4 service_observed [OF 2 v1] portsEqual_iff
  define server' where "server' = observed_server (view w) now server"
  show ?thesis
  proof (cases "server' = server")
    case True
    then have "st_state (server_status server) = observed_state (view w) server"
      "st_address (server_status server) = determineAddress (observed_service (view w) server)"
      "st_ports (server_status server) = determinePorts (observed_service (view w) server)"
      unfolding server'_def by (metis observed_server_simps)+
    with run v4 True assms show ?thesis
      by (intro exI [of _ now] exI [of _ w4])
        (simp add: updateStatus_def server'_def put_server_def fun_upd_idem)
  next
    case False
    have merge: "merge_server_status server server' = server'"
      by (simp add: server'_def merge_server_status_def observed_server_def Let_def)
    have key: "server_key server' = server_key server" by (simp add: server'_def)
    from server_status_there [of w4 server'] obtain w5 where u: "k_server_status_update K server' w4 = (None, w5)"
      using assms v4 key by auto
    have v5: "view w5 = put_server (server_key server) (Some server') (view w)"
      using server_status_done [OF u] assms v4 key merge by auto
    have "updateStatus K server w = ((if observed_state (view w) server = ServerStateRunning then no_result
        else requeue_after 10, None), w5)"
      by (rule updateStatus_writes [OF 1 2 3 4])
        (use u False in \<open>auto simp: server'_def observed_server_def service_observed [OF 2 v1] Let_def
          split: if_splits\<close>)
    with v5 show ?thesis unfolding server'_def by blast
  qed
qed

end

section \<open>Properties\<close>

text \<open>
  C21. With distinct container names, the state read off a pod: \<^verbatim>\<open>Pending\<close> in the phase
  \<^verbatim>\<open>Pending\<close> whatever the containers do, and in the phase \<^verbatim>\<open>Running\<close> the install state
  while the init container runs, an error if it failed, and otherwise running, if the main container
  runs and is ready, or starting.
\<close>

theorem pod_state_correct:
  assumes "distinct (map cs_name (pod_initContainerStatuses p))"
    and "init \<in> set (pod_initContainerStatuses p)" and "cs_name init = InitContainerName"
    and "distinct (map cs_name (pod_containerStatuses p))"
    and "main \<in> set (pod_containerStatuses p)" and "cs_name main = GameServerContainerName"
  shows "pod_state p =
     (if pod_phase p = ''Failed'' then ServerStateError
      else if pod_phase p \<noteq> ''Running'' then ServerStatePending
      else if cs_running init then ServerStateInstalling
      else if \<exists>c. cs_terminated init = Some c \<and> c \<noteq> 0 then ServerStateError
      else if cs_running main \<and> cs_ready main then ServerStateRunning
      else ServerStateStarting)"
  unfolding pod_state_def init_container_state_named [OF assms(1-3)]
    main_container_state_named [OF assms(4-6)]
  by auto

lemma pod_state_correct_witness:
  "pod_state
     \<lparr>pod_phase = ''Running'',
      pod_initContainerStatuses =
        [\<lparr>cs_name = InitContainerName, cs_ready = True, cs_running = False, cs_terminated = Some 0\<rparr>],
      pod_containerStatuses =
        [\<lparr>cs_name = ''sidecar'', cs_ready = False, cs_running = True, cs_terminated = None\<rparr>,
         \<lparr>cs_name = GameServerContainerName, cs_ready = True, cs_running = True, cs_terminated = None\<rparr>]\<rparr>
   = ServerStateRunning"
  by (subst pod_state_correct
      [where init = "\<lparr>cs_name = InitContainerName, cs_ready = True, cs_running = False, cs_terminated = Some 0\<rparr>"
        and main = "\<lparr>cs_name = GameServerContainerName, cs_ready = True, cs_running = True, cs_terminated = None\<rparr>"])
    (simp_all add: GameServerContainerName_def)

text \<open>
  C20. On an API server that answers its calls, the status update of a stored server returns without
  error, asks to be run again after ten seconds exactly when the server is not running, and changes
  the cluster only in that server's status, which then has the state, address and ports the cluster
  shows.  When these three did not change, nothing is written: an old message stays.
\<close>

theorem updateStatus_correct:
  assumes "reliable_api_server K view admit_svc merge_svc admit_pvc acc_server acc_sts acc_svc acc_pvc"
    and "cl_servers (view w) (server_key server) = Some server"
  shows "\<exists>now w'. updateStatus K server w =
       ((if observed_state (view w) server = ServerStateRunning then no_result else requeue_after 10, None), w') \<and>
     view w' = put_server (server_key server) (Some (observed_server (view w) now server)) (view w)"
  using assms by (rule reliable_api_server.updateStatus_reported)

lemma updateStatus_correct_witness:
  "\<exists>now w'. updateStatus sim_kube sample_server sample_world = ((requeue_after 10, None), w') \<and>
     sim_view w' = put_server demo_server_key
       (Some (observed_server (sim_view sample_world) now sample_server)) (sim_view sample_world)"
proof -
  have "server_key sample_server = demo_server_key" by (simp add: demo_server_with_def)
  moreover have "observed_state (sim_view sample_world) sample_server = ServerStatePending"
    by (simp add: observed_state_def sim_view_def sample_world_def sim_find_def)
  ultimately show ?thesis
    using updateStatus_correct [OF sim_reliable, of sample_world sample_server]
    by (simp add: sample_world_view)
qed

end
