(* ===== verification/SteamServer_Children.thy ===== *)
theory SteamServer_Children
  imports SteamServer_Status
begin

text \<open>
  The child reconcilers of \<^verbatim>\<open>internal/controller/steamserver_controller.go\<close>: ConfigMap, PVC,
  StatefulSet and Service of a server are created or brought up to date.
\<close>

section \<open>Labels\<close>

definition commonLabels :: "string \<Rightarrow> string \<Rightarrow> string gomap" where
  "commonLabels name gameDefinition =
     (let labels =
        [(''app.kubernetes.io/name'', ''steamserver''),
         (''app.kubernetes.io/instance'', name),
         (''app.kubernetes.io/managed-by'', ''boilerr'')]
      in if gameDefinition \<noteq> [] then AList.update ''boilerr.dev/game'' gameDefinition labels
         else labels)"

text \<open>A missing label reads as the empty string.\<close>

definition hasLabels :: "string gomap \<Rightarrow> string gomap \<Rightarrow> bool" where
  "hasLabels actual expected = list_all (\<lambda>(k, v). go_index [] actual k = v) expected"

section \<open>reconcileConfigMap\<close>

definition config_map_key :: "nat \<Rightarrow> string" where
  "config_map_key i = ''config-'' @ dec_nat i"

definition config_map_data :: "config_file list \<Rightarrow> string gomap" where
  "config_map_data files =
     foldl (\<lambda>d (i, cf). AList.update (config_map_key i) (cf_content cf) d) [] (List.enumerate 0 files)"

definition mutate_config_map ::
  "'w kube \<Rightarrow> steam_server \<Rightarrow> config_map \<Rightarrow> go_error + config_map" where
  "mutate_config_map K server cm =
     (let cm1 = cm\<lparr>cm_meta := (cm_meta cm)\<lparr>om_labels :=
                     commonLabels (server_name server) (ss_gameDefinition (server_spec server))\<rparr>,
                   cm_data := config_map_data (ss_configFiles (server_spec server))\<rparr>
      in case k_set_controller_reference K (server_meta server) (cm_meta cm1) of
           Inl err \<Rightarrow> Inl err
         | Inr m \<Rightarrow> Inr (cm1\<lparr>cm_meta := m\<rparr>))"

definition reconcileConfigMap ::
  "'w kube \<Rightarrow> steam_server \<Rightarrow> 'w \<Rightarrow> go_error option \<times> 'w" where
  "reconcileConfigMap K server w =
     (if length (ss_configFiles (server_spec server)) = 0 then (None, w)
      else
        (let configMap = \<lparr>cm_meta = new_meta (ConfigMapName (server_name server))
                                       (server_namespace server) [],
                          cm_data = []\<rparr>
         in k_configmap_create_or_update K configMap (mutate_config_map K server) w))"

section \<open>reconcilePVC\<close>

definition reconcilePVC ::
  "golib \<Rightarrow> 'w kube \<Rightarrow> steam_server \<Rightarrow> game_definition option \<Rightarrow> 'w \<Rightarrow> go_error option \<times> 'w" where
  "reconcilePVC L K server gameDef w =
     (case PVC_Build L (NewPVCBuilder server gameDef) of
        None \<Rightarrow> (None, w)
      | Some desiredPVC \<Rightarrow>
          (case sto_get (k_pvcs K) (meta_key (pvc_meta desiredPVC)) w of
             (Inl err, w1) \<Rightarrow>
               if IsNotFound err then
                 (case k_set_controller_reference K (server_meta server) (pvc_meta desiredPVC) of
                    Inl e \<Rightarrow> (Some e, w1)
                  | Inr m \<Rightarrow> sto_create (k_pvcs K) (desiredPVC\<lparr>pvc_meta := m\<rparr>) w1)
               else (Some err, w1)
           | (Inr existingPVC, w1) \<Rightarrow>
               if \<not> hasLabels (om_labels (pvc_meta existingPVC)) (om_labels (pvc_meta desiredPVC)) then
                 sto_update (k_pvcs K)
                   (existingPVC\<lparr>pvc_meta := (pvc_meta existingPVC)
                      \<lparr>om_labels := om_labels (pvc_meta desiredPVC)\<rparr>\<rparr>) w1
               else (None, w1)))"

section \<open>reconcileStatefulSet\<close>

definition reconcileStatefulSet ::
  "golib \<Rightarrow> range_order \<Rightarrow> 'w kube \<Rightarrow> steam_server \<Rightarrow> game_definition option \<Rightarrow> 'w \<Rightarrow>
   go_error option \<times> 'w" where
  "reconcileStatefulSet L it K server gameDef w =
     (let desired = StatefulSet_Build L it (NewStatefulSetBuilder server gameDef) in
      case k_set_controller_reference K (server_meta server) (sts_meta desired) of
        Inl err \<Rightarrow> (Some err, w)
      | Inr m \<Rightarrow>
          (let desiredSTS = desired\<lparr>sts_meta := m\<rparr> in
           case sto_get (k_statefulsets K) (meta_key (sts_meta desiredSTS)) w of
             (Inl err, w1) \<Rightarrow>
               if IsNotFound err then sto_create (k_statefulsets K) desiredSTS w1
               else (Some err, w1)
           | (Inr existingSTS, w1) \<Rightarrow>
               sto_update (k_statefulsets K)
                 (existingSTS\<lparr>sts_spec := sts_spec desiredSTS,
                    sts_meta := (sts_meta existingSTS)\<lparr>om_labels := om_labels (sts_meta desiredSTS)\<rparr>\<rparr>)
                 w1))"

section \<open>reconcileService\<close>

definition reconcileService ::
  "'w kube \<Rightarrow> steam_server \<Rightarrow> game_definition option \<Rightarrow> 'w \<Rightarrow> go_error option \<times> 'w" where
  "reconcileService K server gameDef w =
     (let desiredSVC = Service_Build (NewServiceBuilder server gameDef) in
      case sto_get (k_services K) (meta_key (svc_meta desiredSVC)) w of
        (Inl err, w1) \<Rightarrow>
          if IsNotFound err then
            (case k_set_controller_reference K (server_meta server) (svc_meta desiredSVC) of
               Inl e \<Rightarrow> (Some e, w1)
             | Inr m \<Rightarrow> sto_create (k_services K) (desiredSVC\<lparr>svc_meta := m\<rparr>) w1)
          else (Some err, w1)
      | (Inr existingSVC, w1) \<Rightarrow>
          sto_update (k_services K)
            (existingSVC\<lparr>svc_type := svc_type desiredSVC, svc_selector := svc_selector desiredSVC,
               svc_ports := svc_ports desiredSVC,
               svc_meta := (svc_meta existingSVC)\<lparr>om_labels := om_labels (svc_meta desiredSVC)\<rparr>\<rparr>)
            w1)"

section \<open>Facts\<close>

text \<open>The keys of a server's children.\<close>

abbreviation cm_key_of :: "steam_server \<Rightarrow> object_key" where
  "cm_key_of server \<equiv> ObjectKey (server_namespace server) (ConfigMapName (server_name server))"

abbreviation pvc_key_of :: "steam_server \<Rightarrow> object_key" where
  "pvc_key_of server \<equiv> ObjectKey (server_namespace server) (PVCName (server_name server))"

lemma sts_Build_meta [simp]:
  "sts_meta (StatefulSet_Build L it (NewStatefulSetBuilder s g)) =
     new_meta (server_name s) (server_namespace s) (sts_labels (NewStatefulSetBuilder s g))"
  by (simp add: StatefulSet_Build_def NewStatefulSetBuilder_def Let_def)

lemma svc_Build_meta [simp]:
  "svc_meta (Service_Build (NewServiceBuilder s g)) =
     new_meta (server_name s) (server_namespace s) (svc_labels (NewServiceBuilder s g))"
  by (simp add: Service_Build_def NewServiceBuilder_def Let_def)

lemma PVC_Build_meta:
  "PVC_Build L (NewPVCBuilder s g) = Some d \<Longrightarrow>
   pvc_meta d = new_meta (PVCName (server_name s)) (server_namespace s) (pvc_labels (NewPVCBuilder s g))"
  by (auto simp: PVC_Build_def NewPVCBuilder_def Let_def split: if_splits option.splits)

lemma child_key_fold [simp]: "ObjectKey (server_namespace s) (server_name s) = child_key s"
  by (simp add: child_key_def)

lemma hasLabels_iff: "hasLabels actual expected \<longleftrightarrow> (\<forall>(k, v)\<in>set expected. go_index [] actual k = v)"
  by (simp add: hasLabels_def list_all_iff case_prod_beta)

lemma hasLabels_self: "wf_map m \<Longrightarrow> hasLabels m m"
  by (auto simp: hasLabels_iff wf_map_map_of)

lemma config_map_key_inject [simp]: "config_map_key i = config_map_key j \<longleftrightarrow> i = j"
  by (simp add: config_map_key_def)

text \<open>The two places that name the key of a config file agree.\<close>

lemma config_keys_agree: "config_file_key i = config_map_key i"
  by (simp add: config_file_key_def config_map_key_def)

lemma config_map_data_snoc:
  "config_map_data (files @ [f]) =
     AList.update (config_map_key (length files)) (cf_content f) (config_map_data files)"
  by (simp add: config_map_data_def enumerate_append_eq)

lemma config_map_data_file:
  "i < length files \<Longrightarrow> map_of (config_map_data files) (config_map_key i) = Some (cf_content (files ! i))"
  by (induction files rule: rev_induct)
    (auto simp: config_map_data_snoc update_conv' nth_append less_Suc_eq)

lemma config_map_data_keys:
  "set (go_keys (config_map_data files)) = config_map_key ` {..<length files}"
proof (induction files rule: rev_induct)
  case Nil
  then show ?case by (simp add: config_map_data_def go_keys_def)
next
  case (snoc f files)
  then show ?case by (simp add: config_map_data_snoc set_go_keys update_conv' lessThan_Suc)
qed

section \<open>What a successful reconciliation of a child leaves\<close>

definition ensured_sts :: "steam_server \<Rightarrow> stateful_set \<Rightarrow> stateful_set option \<Rightarrow> stateful_set \<Rightarrow> bool" where
  "ensured_sts server desired old new \<longleftrightarrow>
     (case old of
        None \<Rightarrow> \<exists>os. new = admit_sts (desired\<lparr>sts_meta := (sts_meta desired)\<lparr>om_owners := os\<rparr>\<rparr>) \<and>
                     sole_controller (server_meta server) (sts_meta new)
      | Some s \<Rightarrow> new = s\<lparr>sts_spec := sts_spec desired,
                            sts_meta := (sts_meta s)\<lparr>om_labels := om_labels (sts_meta desired)\<rparr>\<rparr>)"

definition ensured_svc :: "steam_server \<Rightarrow> service \<Rightarrow> service option \<Rightarrow> service \<Rightarrow> bool" where
  "ensured_svc server desired old new \<longleftrightarrow>
     (case old of
        None \<Rightarrow> (\<exists>os. svc_declared new =
                   svc_declared (desired\<lparr>svc_meta := (svc_meta desired)\<lparr>om_owners := os\<rparr>\<rparr>)) \<and>
                sole_controller (server_meta server) (svc_meta new)
      | Some s \<Rightarrow> svc_declared new =
                   svc_declared (desired\<lparr>svc_meta := (svc_meta s)\<lparr>om_labels := om_labels (svc_meta desired)\<rparr>\<rparr>) \<and>
                  (svc_clusterIP s \<noteq> [] \<and> svc_type desired \<noteq> ''ExternalName'' \<longrightarrow>
                     svc_clusterIP new = svc_clusterIP s))"

definition ensured_pvc ::
  "steam_server \<Rightarrow> persistent_volume_claim \<Rightarrow> persistent_volume_claim option \<Rightarrow>
   persistent_volume_claim \<Rightarrow> bool" where
  "ensured_pvc server desired old new \<longleftrightarrow>
     (case old of
        None \<Rightarrow> (\<exists>os. pvc_declared new =
                   pvc_declared (desired\<lparr>pvc_meta := (pvc_meta desired)\<lparr>om_owners := os\<rparr>\<rparr>)) \<and>
                (\<forall>cls. pvc_storageClassName desired = Some cls \<longrightarrow> pvc_storageClassName new = Some cls) \<and>
                sole_controller (server_meta server) (pvc_meta new)
      | Some p \<Rightarrow> new = (if hasLabels (om_labels (pvc_meta p)) (om_labels (pvc_meta desired)) then p
                          else p\<lparr>pvc_meta := (pvc_meta p)\<lparr>om_labels := om_labels (pvc_meta desired)\<rparr>\<rparr>))"

definition ensured_cm :: "steam_server \<Rightarrow> config_map option \<Rightarrow> config_map \<Rightarrow> bool" where
  "ensured_cm server old new \<longleftrightarrow>
     cm_key new = cm_key_of server \<and>
     om_labels (cm_meta new) = commonLabels (server_name server) (ss_gameDefinition (server_spec server)) \<and>
     cm_data new = config_map_data (ss_configFiles (server_spec server)) \<and>
     controlled_by (server_meta server) (cm_meta new) \<and>
     controllers (cm_meta new) \<subseteq> insert (om_uid (server_meta server))
       (case old of None \<Rightarrow> {} | Some c \<Rightarrow> controllers (cm_meta c))"

context api_server begin

lemma sts_reconciled:
  assumes "reconcileStatefulSet L it K server gd w = (None, w')"
  shows "\<exists>new. view w' = put_sts (child_key server) (Some new) (view w) \<and>
     ensured_sts server (StatefulSet_Build L it (NewStatefulSetBuilder server gd))
       (cl_statefulsets (view w) (child_key server)) new"
proof -
  define d where "d = StatefulSet_Build L it (NewStatefulSetBuilder server gd)"
  have dm: "meta_key (sts_meta d) = child_key server" "om_owners (sts_meta d) = []" by (simp_all add: d_def)
  obtain m where m: "k_set_controller_reference K (server_meta server) (sts_meta d) = Inr m"
    using assms by (auto simp: reconcileStatefulSet_def d_def [symmetric] split: sum.splits)
  note mk = refs.setref_keeps [OF m]
  obtain os where os: "m = (sts_meta d)\<lparr>om_owners := os\<rparr>" using refs.setref_done [OF m] by blast
  obtain r w1 where g: "sto_get (k_statefulsets K) (child_key server) w = (r, w1)" by fastforce
  note v = sts.get_view [OF g]
  show ?thesis
  proof (cases r)
    case (Inl e)
    with assms g m mk dm have "IsNotFound e" and c: "sto_create (k_statefulsets K) (d\<lparr>sts_meta := m\<rparr>) w1 = (None, w')"
      by (auto simp: reconcileStatefulSet_def d_def [symmetric] split: if_splits)
    then have "cl_statefulsets (view w) (child_key server) = None"
      using Inl g by (auto dest: sts.missing_if_NotFound)
    with sts.create_done [OF c] v mk(2) dm os refs.setref_sole [OF m dm(2)] show ?thesis
      by (auto simp: ensured_sts_def d_def [symmetric] admit_sts_def)
  next
    case (Inr s)
    with g have s: "cl_statefulsets (view w) (child_key server) = Some s" by (auto dest: sts.get_found)
    let ?s' = "s\<lparr>sts_spec := sts_spec d, sts_meta := (sts_meta s)\<lparr>om_labels := om_labels (sts_meta d)\<rparr>\<rparr>"
    have k: "sts_key ?s' = child_key server" using sts_keyed [OF s] by (simp add: meta_key_def)
    from Inr assms g m mk dm os have u: "sto_update (k_statefulsets K) ?s' w1 = (None, w')"
      by (simp add: reconcileStatefulSet_def d_def [symmetric])
    from sts.update_done [OF u] k v s show ?thesis
      by (auto simp: ensured_sts_def d_def [symmetric] merge_sts_def)
  qed
qed

lemma sts_not_reconciled:
  assumes "reconcileStatefulSet L it K server gd w = (Some e, w')"
  shows "view w' = view w"
  using assms
  by (auto simp: reconcileStatefulSet_def Let_def dest!: sts.get_view sts.create_failed sts.update_failed
      split: sum.splits prod.splits if_splits)

lemma svc_reconciled:
  assumes "reconcileService K server gd w = (None, w')"
  shows "\<exists>new. view w' = put_svc (child_key server) (Some new) (view w) \<and>
     ensured_svc server (Service_Build (NewServiceBuilder server gd))
       (cl_services (view w) (child_key server)) new"
proof -
  define d where "d = Service_Build (NewServiceBuilder server gd)"
  have dm: "meta_key (svc_meta d) = child_key server" "om_owners (svc_meta d) = []" by (simp_all add: d_def)
  obtain r w1 where g: "sto_get (k_services K) (child_key server) w = (r, w1)" by fastforce
  note v = svc.get_view [OF g]
  show ?thesis
  proof (cases r)
    case (Inl e)
    with assms g dm obtain m where "IsNotFound e"
      and m: "k_set_controller_reference K (server_meta server) (svc_meta d) = Inr m"
      and c: "sto_create (k_services K) (d\<lparr>svc_meta := m\<rparr>) w1 = (None, w')"
      by (auto simp: reconcileService_def d_def [symmetric] split: if_splits sum.splits)
    note mk = refs.setref_keeps [OF m]
    obtain os where os: "m = (svc_meta d)\<lparr>om_owners := os\<rparr>" using refs.setref_done [OF m] by blast
    have meta: "svc_meta (admit_svc (d\<lparr>svc_meta := m\<rparr>)) = m"
      using svc_declared_eqD(1) [OF admit_declared] by simp
    from \<open>IsNotFound e\<close> have "cl_services (view w) (child_key server) = None"
      using Inl g by (auto dest: svc.missing_if_NotFound)
    moreover have "ensured_svc server d None (admit_svc (d\<lparr>svc_meta := m\<rparr>))"
      using refs.setref_sole [OF m dm(2)] meta os by (auto simp: ensured_svc_def admit_declared)
    ultimately show ?thesis
      using svc.create_done [OF c] v mk dm by (auto simp: d_def [symmetric])
  next
    case (Inr s)
    with g have s: "cl_services (view w) (child_key server) = Some s" by (auto dest: svc.get_found)
    define x where "x = s\<lparr>svc_type := svc_type d, svc_selector := svc_selector d, svc_ports := svc_ports d,
      svc_meta := (svc_meta s)\<lparr>om_labels := om_labels (svc_meta d)\<rparr>\<rparr>"
    have k: "svc_key x = child_key server" using svc_keyed [OF s] by (simp add: x_def meta_key_def)
    from Inr assms g dm have u: "sto_update (k_services K) x w1 = (None, w')"
      by (simp add: reconcileService_def d_def [symmetric] x_def)
    have "svc_declared x = svc_declared (d\<lparr>svc_meta := (svc_meta s)\<lparr>om_labels := om_labels (svc_meta d)\<rparr>\<rparr>)"
      by (simp add: x_def svc_declared_def)
    moreover have "svc_clusterIP (merge_svc s x) = svc_clusterIP s"
      if "svc_clusterIP s \<noteq> []" "svc_type d \<noteq> ''ExternalName''"
      by (rule merge_clusterIP) (use that in \<open>simp_all add: x_def\<close>)
    ultimately have "ensured_svc server d (Some s) (merge_svc s x)"
      by (simp add: ensured_svc_def merge_declared)
    with svc.update_done [OF u] k v s show ?thesis
      by (auto simp: d_def [symmetric])
  qed
qed

lemma svc_not_reconciled:
  assumes "reconcileService K server gd w = (Some e, w')"
  shows "view w' = view w"
  using assms
  by (auto simp: reconcileService_def Let_def dest!: svc.get_view svc.create_failed svc.update_failed
      split: sum.splits prod.splits if_splits)

lemma pvc_reconciled:
  assumes "reconcilePVC L K server gd w = (None, w')"
    and d: "PVC_Build L (NewPVCBuilder server gd) = Some d"
  shows "\<exists>new. view w' = put_pvc (pvc_key_of server) (Some new) (view w) \<and>
     ensured_pvc server d (cl_pvcs (view w) (pvc_key_of server)) new"
proof -
  have dm: "meta_key (pvc_meta d) = pvc_key_of server" "om_owners (pvc_meta d) = []"
    using PVC_Build_meta [OF d] by simp_all
  obtain r w1 where g: "sto_get (k_pvcs K) (pvc_key_of server) w = (r, w1)" by fastforce
  note v = pvc.get_view [OF g]
  show ?thesis
  proof (cases r)
    case (Inl e)
    with assms g dm obtain m where "IsNotFound e"
      and m: "k_set_controller_reference K (server_meta server) (pvc_meta d) = Inr m"
      and c: "sto_create (k_pvcs K) (d\<lparr>pvc_meta := m\<rparr>) w1 = (None, w')"
      by (auto simp: reconcilePVC_def split: if_splits sum.splits)
    note mk = refs.setref_keeps [OF m]
    obtain os where os: "m = (pvc_meta d)\<lparr>om_owners := os\<rparr>" using refs.setref_done [OF m] by blast
    from \<open>IsNotFound e\<close> have "cl_pvcs (view w) (pvc_key_of server) = None"
      using Inl g by (auto dest: pvc.missing_if_NotFound)
    moreover have "ensured_pvc server d None (admit_pvc (d\<lparr>pvc_meta := m\<rparr>))"
      using refs.setref_sole [OF m dm(2)] os admit_pvc_class [of "d\<lparr>pvc_meta := m\<rparr>"]
        admit_pvc_declared [of "d\<lparr>pvc_meta := m\<rparr>"] pvc_declared_meta(5) [OF admit_pvc_declared]
      by (auto simp: ensured_pvc_def)
    ultimately show ?thesis
      using pvc.create_done [OF c] v mk(2) dm by auto
  next
    case (Inr p)
    with g have p: "cl_pvcs (view w) (pvc_key_of server) = Some p" by (auto dest: pvc.get_found)
    let ?p' = "p\<lparr>pvc_meta := (pvc_meta p)\<lparr>om_labels := om_labels (pvc_meta d)\<rparr>\<rparr>"
    have k: "pvc_key ?p' = pvc_key_of server" using pvc_keyed [OF p] by (simp add: meta_key_def)
    show ?thesis
    proof (cases "hasLabels (om_labels (pvc_meta p)) (om_labels (pvc_meta d))")
      case True
      with Inr assms g dm v p show ?thesis
        by (simp add: reconcilePVC_def ensured_pvc_def put_pvc_def fun_upd_idem)
    next
      case False
      with Inr assms g dm have u: "sto_update (k_pvcs K) ?p' w1 = (None, w')"
        by (simp add: reconcilePVC_def)
      from pvc.update_done [OF u] k v p False show ?thesis
        by (auto simp: ensured_pvc_def)
    qed
  qed
qed

lemma pvc_not_reconciled:
  assumes "reconcilePVC L K server gd w = (Some e, w')"
  shows "view w' = view w"
  using assms
  by (auto simp: reconcilePVC_def dest!: pvc.get_view pvc.create_failed pvc.update_failed
      split: sum.splits prod.splits if_splits option.splits)

lemma cm_reconciled:
  assumes "reconcileConfigMap K server w = (None, w')"
    and "ss_configFiles (server_spec server) \<noteq> []"
  shows "\<exists>new. view w' = put_cm (cm_key_of server) (Some new) (view w) \<and>
     ensured_cm server (cl_configmaps (view w) (cm_key_of server)) new"
proof -
  define c0 where "c0 = \<lparr>cm_meta = new_meta (ConfigMapName (server_name server)) (server_namespace server) [],
    cm_data = []\<rparr>"
  have k0: "cm_key c0 = cm_key_of server" by (simp add: c0_def)
  let ?old = "case cl_configmaps (view w) (cm_key_of server) of None \<Rightarrow> c0 | Some c \<Rightarrow> c"
  from assms have "k_configmap_create_or_update K c0 (mutate_config_map K server) w = (None, w')"
    by (simp add: reconcileConfigMap_def c0_def)
  from apply_cm_done [OF this] k0 obtain new where new: "mutate_config_map K server ?old = Inr new"
    and v: "view w' = put_cm (cm_key_of server) (Some new) (view w)"
    by auto
  have "cm_key ?old = cm_key_of server"
    using k0 cm_keyed by (auto split: option.split)
  moreover have "controllers (cm_meta ?old) =
      (case cl_configmaps (view w) (cm_key_of server) of None \<Rightarrow> {} | Some c \<Rightarrow> controllers (cm_meta c))"
    by (auto simp: c0_def split: option.split)
  ultimately have "ensured_cm server (cl_configmaps (view w) (cm_key_of server)) new"
    using new refs.setref_keeps refs.setref_only unfolding ensured_cm_def mutate_config_map_def
    by (fastforce simp: Let_def meta_key_def split: sum.splits)
  with v show ?thesis by blast
qed

lemma cm_not_reconciled:
  assumes "reconcileConfigMap K server w = (Some e, w')"
  shows "view w' = view w"
  using assms by (auto simp: reconcileConfigMap_def dest: apply_cm_failed split: if_splits)

lemmas not_reconciled = cm_not_reconciled pvc_not_reconciled sts_not_reconciled svc_not_reconciled

end

section \<open>When the children can be reconciled\<close>

text \<open>The API accepts what would be submitted for a child, in the place of what is there.\<close>

definition accepted_sts ::
  "(stateful_set option \<Rightarrow> stateful_set \<Rightarrow> bool) \<Rightarrow> stateful_set \<Rightarrow> stateful_set option \<Rightarrow> bool" where
  "accepted_sts acc d old \<longleftrightarrow>
     (case old of
        None \<Rightarrow> \<forall>os. acc None (d\<lparr>sts_meta := (sts_meta d)\<lparr>om_owners := os\<rparr>\<rparr>)
      | Some s \<Rightarrow> acc (Some s) (s\<lparr>sts_spec := sts_spec d,
                      sts_meta := (sts_meta s)\<lparr>om_labels := om_labels (sts_meta d)\<rparr>\<rparr>))"

definition accepted_svc :: "(service option \<Rightarrow> service \<Rightarrow> bool) \<Rightarrow> service \<Rightarrow> service option \<Rightarrow> bool" where
  "accepted_svc acc d old \<longleftrightarrow>
     (case old of
        None \<Rightarrow> \<forall>os. acc None (d\<lparr>svc_meta := (svc_meta d)\<lparr>om_owners := os\<rparr>\<rparr>)
      | Some s \<Rightarrow> acc (Some s) (s\<lparr>svc_type := svc_type d, svc_selector := svc_selector d,
                      svc_ports := svc_ports d,
                      svc_meta := (svc_meta s)\<lparr>om_labels := om_labels (svc_meta d)\<rparr>\<rparr>))"

definition accepted_pvc ::
  "(persistent_volume_claim option \<Rightarrow> persistent_volume_claim \<Rightarrow> bool) \<Rightarrow>
   persistent_volume_claim \<Rightarrow> persistent_volume_claim option \<Rightarrow> bool" where
  "accepted_pvc acc d old \<longleftrightarrow>
     (case old of
        None \<Rightarrow> \<forall>os. acc None (d\<lparr>pvc_meta := (pvc_meta d)\<lparr>om_owners := os\<rparr>\<rparr>)
      | Some p \<Rightarrow> acc (Some p) (p\<lparr>pvc_meta := (pvc_meta p)\<lparr>om_labels := om_labels (pvc_meta d)\<rparr>\<rparr>))"

text \<open>A ConfigMap of the server's name is either missing or free to be owned by the server.\<close>

definition cm_ownable :: "steam_server \<Rightarrow> config_map option \<Rightarrow> bool" where
  "cm_ownable server old \<longleftrightarrow>
     (case old of None \<Rightarrow> True
      | Some c \<Rightarrow> om_owners (cm_meta c) = [] \<or> controlled_by (server_meta server) (cm_meta c))"

context reliable_api_server begin

lemma setref_child:
  obtains os where
    "k_set_controller_reference K (server_meta s) (new_meta n (server_namespace s) ls) =
       Inr ((new_meta n (server_namespace s) ls)\<lparr>om_owners := os\<rparr>)"
  using refs.setref_new [of "new_meta n (server_namespace s) ls" "server_meta s"] refs.setref_done
  by (metis new_meta_simps(2) new_meta_simps(5))

lemma sts_returns:
  assumes "accepted_sts acc_sts (StatefulSet_Build L it (NewStatefulSetBuilder server gd))
             (cl_statefulsets (view w) (child_key server))"
  shows "\<exists>w'. reconcileStatefulSet L it K server gd w = (None, w')"
proof -
  define d where "d = StatefulSet_Build L it (NewStatefulSetBuilder server gd)"
  have dm: "sts_meta d = new_meta (server_name server) (server_namespace server)
      (sts_labels (NewStatefulSetBuilder server gd))" by (simp add: d_def)
  obtain os where m: "k_set_controller_reference K (server_meta server) (sts_meta d) =
      Inr ((sts_meta d)\<lparr>om_owners := os\<rparr>)"
    unfolding dm by (rule setref_child)
  have key: "meta_key ((sts_meta d)\<lparr>om_owners := os\<rparr>) = child_key server"
    by (simp add: dm meta_key_def)
  show ?thesis
  proof (cases rule: sts.get_total [of w "child_key server"])
    case (there s w1)
    let ?s' = "s\<lparr>sts_spec := sts_spec d, sts_meta := (sts_meta s)\<lparr>om_labels := om_labels (sts_meta d)\<rparr>\<rparr>"
    have "\<exists>w'. sto_update (k_statefulsets K) ?s' w1 = (None, w')"
      by (rule sts.update_accepted)
        (use there assms sts_keyed [OF there(1)] in \<open>simp_all add: accepted_sts_def d_def meta_key_def\<close>)
    with m key there show ?thesis by (auto simp: reconcileStatefulSet_def d_def [symmetric])
  next
    case (absent t w1)
    have "\<exists>w'. sto_create (k_statefulsets K) (d\<lparr>sts_meta := (sts_meta d)\<lparr>om_owners := os\<rparr>\<rparr>) w1 = (None, w')"
      by (rule sts.create_accepted)
        (use absent key assms in \<open>simp_all add: accepted_sts_def d_def\<close>)
    with m key absent show ?thesis by (auto simp: reconcileStatefulSet_def d_def [symmetric])
  qed
qed

lemma sts_refused:
  assumes "cl_statefulsets (view w) (child_key server) = Some s"
    and "map_of (sts_selector (sts_spec s)) \<noteq> map_of (sts_labels (NewStatefulSetBuilder server gd))"
  shows "\<exists>t w'. reconcileStatefulSet L it K server gd w = (Some (PlainError t), w')"
proof -
  define d where "d = StatefulSet_Build L it (NewStatefulSetBuilder server gd)"
  have dm: "sts_meta d = new_meta (server_name server) (server_namespace server)
      (sts_labels (NewStatefulSetBuilder server gd))" by (simp add: d_def)
  obtain os where m: "k_set_controller_reference K (server_meta server) (sts_meta d) =
      Inr ((sts_meta d)\<lparr>om_owners := os\<rparr>)"
    unfolding dm by (rule setref_child)
  have key: "meta_key ((sts_meta d)\<lparr>om_owners := os\<rparr>) = child_key server"
    by (simp add: dm meta_key_def)
  let ?s' = "s\<lparr>sts_spec := sts_spec d, sts_meta := (sts_meta s)\<lparr>om_labels := om_labels (sts_meta d)\<rparr>\<rparr>"
  obtain w1 where g: "sto_get (k_statefulsets K) (child_key server) w = (Inr s, w1)"
    using sts.get_there [OF assms(1)] by blast
  have "\<not> sts_mutable s ?s'"
    using assms(2) by (auto simp: sts_mutable_def d_def StatefulSet_Build_def Let_def)
  then have "\<not> acc_sts (Some s) ?s'" using acc_sts_mutable by blast
  moreover have "cl_statefulsets (view w1) (sts_key ?s') = Some s"
    using sts.get_view [OF g] assms(1) sts_keyed [OF assms(1)] by (simp add: meta_key_def)
  ultimately obtain t w' where "sto_update (k_statefulsets K) ?s' w1 = (Some (PlainError t), w')"
    using sts.update_rejected by blast
  with m key g show ?thesis by (auto simp: reconcileStatefulSet_def d_def [symmetric])
qed

lemma svc_returns:
  assumes "accepted_svc acc_svc (Service_Build (NewServiceBuilder server gd))
             (cl_services (view w) (child_key server))"
  shows "\<exists>w'. reconcileService K server gd w = (None, w')"
proof -
  define d where "d = Service_Build (NewServiceBuilder server gd)"
  have dm: "svc_meta d = new_meta (server_name server) (server_namespace server)
      (svc_labels (NewServiceBuilder server gd))" by (simp add: d_def)
  obtain os where m: "k_set_controller_reference K (server_meta server) (svc_meta d) =
      Inr ((svc_meta d)\<lparr>om_owners := os\<rparr>)"
    unfolding dm by (rule setref_child)
  have key: "meta_key ((svc_meta d)\<lparr>om_owners := os\<rparr>) = child_key server" "svc_key d = child_key server"
    by (simp_all add: dm meta_key_def)
  show ?thesis
  proof (cases rule: svc.get_total [of w "child_key server"])
    case (there s w1)
    let ?s' = "s\<lparr>svc_type := svc_type d, svc_selector := svc_selector d, svc_ports := svc_ports d,
      svc_meta := (svc_meta s)\<lparr>om_labels := om_labels (svc_meta d)\<rparr>\<rparr>"
    have "\<exists>w'. sto_update (k_services K) ?s' w1 = (None, w')"
      by (rule svc.update_accepted)
        (use there assms svc_keyed [OF there(1)] in \<open>simp_all add: accepted_svc_def d_def meta_key_def\<close>)
    with key there show ?thesis by (auto simp: reconcileService_def d_def [symmetric])
  next
    case (absent t w1)
    have "\<exists>w'. sto_create (k_services K) (d\<lparr>svc_meta := (svc_meta d)\<lparr>om_owners := os\<rparr>\<rparr>) w1 = (None, w')"
      by (rule svc.create_accepted)
        (use absent key assms in \<open>simp_all add: accepted_svc_def d_def\<close>)
    with m key absent show ?thesis by (auto simp: reconcileService_def d_def [symmetric])
  qed
qed

lemma pvc_returns:
  assumes "\<And>d. PVC_Build L (NewPVCBuilder server gd) = Some d \<Longrightarrow>
             accepted_pvc acc_pvc d (cl_pvcs (view w) (pvc_key_of server))"
  shows "\<exists>w'. reconcilePVC L K server gd w = (None, w')"
proof (cases "PVC_Build L (NewPVCBuilder server gd)")
  case None
  then show ?thesis by (simp add: reconcilePVC_def)
next
  case (Some d)
  note dm = PVC_Build_meta [OF Some]
  obtain os where m: "k_set_controller_reference K (server_meta server) (pvc_meta d) =
      Inr ((pvc_meta d)\<lparr>om_owners := os\<rparr>)"
    unfolding dm by (rule setref_child)
  have key: "meta_key ((pvc_meta d)\<lparr>om_owners := os\<rparr>) = pvc_key_of server" "pvc_key d = pvc_key_of server"
    by (simp_all add: dm meta_key_def)
  show ?thesis
  proof (cases rule: pvc.get_total [of w "pvc_key_of server"])
    case (there p w1)
    let ?p' = "p\<lparr>pvc_meta := (pvc_meta p)\<lparr>om_labels := om_labels (pvc_meta d)\<rparr>\<rparr>"
    have "\<exists>w'. sto_update (k_pvcs K) ?p' w1 = (None, w')"
      by (rule pvc.update_accepted)
        (use there assms [OF Some] pvc_keyed [OF there(1)] in \<open>simp_all add: accepted_pvc_def meta_key_def\<close>)
    with key there Some show ?thesis by (auto simp: reconcilePVC_def)
  next
    case (absent t w1)
    have "\<exists>w'. sto_create (k_pvcs K) (d\<lparr>pvc_meta := (pvc_meta d)\<lparr>om_owners := os\<rparr>\<rparr>) w1 = (None, w')"
      by (rule pvc.create_accepted)
        (use absent key assms [OF Some] in \<open>simp_all add: accepted_pvc_def\<close>)
    with m key absent Some show ?thesis by (auto simp: reconcilePVC_def)
  qed
qed

lemma cm_returns:
  assumes "cm_ownable server (cl_configmaps (view w) (cm_key_of server))"
  shows "\<exists>w'. reconcileConfigMap K server w = (None, w')"
proof (cases "ss_configFiles (server_spec server) = []")
  case True
  then show ?thesis by (simp add: reconcileConfigMap_def)
next
  case False
  define c0 where "c0 = \<lparr>cm_meta = new_meta (ConfigMapName (server_name server)) (server_namespace server) [],
    cm_data = []\<rparr>"
  define c where "c = (case cl_configmaps (view w) (cm_key c0) of None \<Rightarrow> c0 | Some c \<Rightarrow> c)"
  have k0: "cm_key c0 = cm_key_of server" by (simp add: c0_def)
  then have "cm_key c = cm_key_of server"
    using cm_keyed by (auto simp: c_def split: option.split)
  then have key: "om_namespace (cm_meta c) = server_namespace server" by (simp add: meta_key_def)
  have own: "om_owners (cm_meta c) = [] \<or> controlled_by (server_meta server) (cm_meta c)"
    using assms k0 by (auto simp: c_def cm_ownable_def c0_def split: option.splits)
  let ?m = "(cm_meta c)\<lparr>om_labels := commonLabels (server_name server) (ss_gameDefinition (server_spec server))\<rparr>"
  have "om_owners ?m = [] \<or> controlled_by (server_meta server) ?m"
    using own by (simp add: controlled_by_def)
  moreover have "om_namespace ?m = server_namespace server" using key by simp
  ultimately obtain m where m: "k_set_controller_reference K (server_meta server) ?m = Inr m"
    using refs.setref_new refs.setref_again by blast
  then obtain c' where c': "mutate_config_map K server c = Inr c'" and cm: "cm_meta c' = m"
    by (auto simp: mutate_config_map_def Let_def)
  have "cm_key c' = cm_key c0"
    using refs.setref_keeps(2) [OF m] cm k0 \<open>cm_key c = cm_key_of server\<close> by (simp add: meta_key_def)
  with apply_cm_ok [where f = "mutate_config_map K server" and w = w and cm = c0 and cm' = c'] c' show ?thesis
    using False by (simp add: reconcileConfigMap_def c0_def [symmetric] c_def [symmetric] Let_def)
qed

end

section \<open>Sample data\<close>

definition config_file_server :: steam_server where
  "config_file_server = sample_server\<lparr>server_spec := (server_spec sample_server)
     \<lparr>ss_configFiles := [\<lparr>cf_path = ''/serverfiles/adminlist.txt'', cf_content = ''76561198000000000''\<rparr>]\<rparr>\<rparr>"

lemma sample_server_keys [simp]:
  "child_key sample_server = demo_server_key"
  "server_namespace sample_server = ''default''" "server_name sample_server = ''my-valheim''"
  "server_namespace config_file_server = ''default''" "server_name config_file_server = ''my-valheim''"
  by (simp_all add: child_key_def demo_server_with_def config_file_server_def)

lemma sample_world_empty [simp]:
  "cl_statefulsets (sim_view sample_world) k = None" "cl_services (sim_view sample_world) k = None"
  "cl_pvcs (sim_view sample_world) k = None" "cl_configmaps (sim_view sample_world) k = None"
  "cl_pods (sim_view sample_world) k = None"
  by (simp_all add: sim_view_def sample_world_def sim_find_def)

lemma accepted_sample:
  "accepted_sts sim_acc_sts d None" "accepted_svc (\<lambda>_ _. True) e None" "accepted_pvc sim_acc_pvc p None"
  "cm_ownable server None"
  by (simp_all add: accepted_sts_def sim_acc_sts_def accepted_svc_def accepted_pvc_def sim_acc_pvc_def
      cm_ownable_def)

text \<open>A world in which the server's StatefulSet was built while it referred to another game.\<close>

definition other_game_sts :: stateful_set where
  "other_game_sts = StatefulSet_Build sample_lib (\<lambda>_ ks. ks)
     (NewStatefulSetBuilder (sample_server\<lparr>server_spec := (server_spec sample_server)
        \<lparr>ss_gameDefinition := ''satisfactory''\<rparr>\<rparr>) None)"

definition other_game_world :: sim where
  "other_game_world = sample_world\<lparr>sim_statefulsets := [other_game_sts]\<rparr>"

lemma other_game_world_sts:
  "cl_statefulsets (sim_view other_game_world) demo_server_key = Some other_game_sts"
  by (simp add: sim_view_def other_game_world_def sim_find_Cons other_game_sts_def StatefulSet_Build_def
      NewStatefulSetBuilder_def demo_server_with_def Let_def)

section \<open>Properties\<close>

text \<open>
  C16. A reconciliation of the StatefulSet that returns without error leaves, under the server's name,
  a StatefulSet with exactly the spec and labels that were built for the server: a new one is
  controlled by the server, and one that was there keeps everything else.  One that fails changes
  nothing, and no other object of the cluster is touched in either case.
\<close>

theorem reconcileStatefulSet_correct:
  assumes "api_server K view admit_svc merge_svc admit_pvc"
    and "reconcileStatefulSet L it K server gd w = (r, w')"
  shows "case r of
      None \<Rightarrow> \<exists>new. view w' = put_sts (child_key server) (Some new) (view w) \<and>
        ensured_sts server (StatefulSet_Build L it (NewStatefulSetBuilder server gd))
          (cl_statefulsets (view w) (child_key server)) new
    | Some _ \<Rightarrow> view w' = view w"
  using assms(2) api_server.sts_reconciled [OF assms(1)] api_server.sts_not_reconciled [OF assms(1)]
  by (cases r) auto

lemma reconcileStatefulSet_correct_witness:
  "\<exists>new w'. reconcileStatefulSet sample_lib (\<lambda>_. rev) sim_kube sample_server (Some demo_gameDef) sample_world = (None, w') \<and>
     sim_view w' = put_sts demo_server_key (Some new) (sim_view sample_world) \<and>
     ensured_sts sample_server
       (StatefulSet_Build sample_lib (\<lambda>_. rev) (NewStatefulSetBuilder sample_server (Some demo_gameDef))) None new"
proof -
  obtain w' where "reconcileStatefulSet sample_lib (\<lambda>_. rev) sim_kube sample_server (Some demo_gameDef) sample_world = (None, w')"
    using sim.sts_returns accepted_sample(1) sample_world_empty(1) by metis
  with reconcileStatefulSet_correct [OF sim_api_server this] show ?thesis by auto
qed

text \<open>
  C17. A reconciliation of the Service that returns without error leaves, under the server's name, a
  Service with the type, selector, ports and labels that were built for the server, a new one
  controlled by the server; one that was there keeps its cluster address.  One that fails changes
  nothing, and no other object of the cluster is touched in either case.
\<close>

theorem reconcileService_correct:
  assumes "api_server K view admit_svc merge_svc admit_pvc"
    and "reconcileService K server gd w = (r, w')"
  shows "case r of
      None \<Rightarrow> \<exists>new. view w' = put_svc (child_key server) (Some new) (view w) \<and>
        ensured_svc server (Service_Build (NewServiceBuilder server gd))
          (cl_services (view w) (child_key server)) new
    | Some _ \<Rightarrow> view w' = view w"
  using assms(2) api_server.svc_reconciled [OF assms(1)] api_server.svc_not_reconciled [OF assms(1)]
  by (cases r) auto

lemma reconcileService_correct_witness:
  "\<exists>new w'. reconcileService sim_kube sample_server (Some demo_gameDef) sample_world = (None, w') \<and>
     sim_view w' = put_svc demo_server_key (Some new) (sim_view sample_world) \<and>
     ensured_svc sample_server (Service_Build (NewServiceBuilder sample_server (Some demo_gameDef))) None new"
proof -
  obtain w' where "reconcileService sim_kube sample_server (Some demo_gameDef) sample_world = (None, w')"
    using sim.svc_returns accepted_sample(2) sample_world_empty(2) by metis
  with reconcileService_correct [OF sim_api_server this] show ?thesis by auto
qed

text \<open>
  C18. A reconciliation of the claim that returns without error changes nothing if no claim is built,
  creates the claim that is built if there is none, owned by the server, and otherwise changes at
  most the labels of the claim that is there: its size, access modes and storage class are never
  touched.  The API server adds to a new claim at most a default storage class, where the server
  names none, and identity and finalizers of its own.  A reconciliation that fails changes nothing.
\<close>

theorem reconcilePVC_correct:
  assumes "api_server K view admit_svc merge_svc admit_pvc"
    and "reconcilePVC L K server gd w = (r, w')"
  shows "case (r, PVC_Build L (NewPVCBuilder server gd)) of
      (None, Some d) \<Rightarrow>
        (\<exists>new. view w' = put_pvc (pvc_key_of server) (Some new) (view w) \<and>
           ensured_pvc server d (cl_pvcs (view w) (pvc_key_of server)) new \<and>
           (case cl_pvcs (view w) (pvc_key_of server) of None \<Rightarrow> True
            | Some p \<Rightarrow> pvc_requests new = pvc_requests p \<and> pvc_mutable p new))
    | _ \<Rightarrow> view w' = view w"
proof (cases r)
  case None
  show ?thesis
  proof (cases "PVC_Build L (NewPVCBuilder server gd)")
    case (Some d)
    with assms(2) None obtain new
      where "view w' = put_pvc (pvc_key_of server) (Some new) (view w)"
        and new: "ensured_pvc server d (cl_pvcs (view w) (pvc_key_of server)) new"
      using api_server.pvc_reconciled [OF assms(1)] by blast
    moreover have "case cl_pvcs (view w) (pvc_key_of server) of None \<Rightarrow> True
        | Some p \<Rightarrow> pvc_requests new = pvc_requests p \<and> pvc_mutable p new"
      using new by (auto simp: ensured_pvc_def pvc_mutable_def split: option.splits)
    ultimately show ?thesis using Some None by auto
  qed (use assms(2) None in \<open>simp add: reconcilePVC_def\<close>)
next
  case (Some e)
  then show ?thesis using assms(2) api_server.pvc_not_reconciled [OF assms(1)] by auto
qed

lemma reconcilePVC_correct_witness:
  "\<exists>w'. reconcilePVC sample_lib sim_kube sample_server (Some demo_gameDef) sample_world = (None, w') \<and>
     (\<exists>d new. PVC_Build sample_lib (NewPVCBuilder sample_server (Some demo_gameDef)) = Some d \<and>
        sim_view w' = put_pvc (ObjectKey ''default'' (PVCName ''my-valheim'')) (Some new) (sim_view sample_world))"
proof -
  obtain w' where w': "reconcilePVC sample_lib sim_kube sample_server (Some demo_gameDef) sample_world = (None, w')"
    using sim.pvc_returns accepted_sample(3) sample_world_empty(3) by metis
  obtain d where "PVC_Build sample_lib (NewPVCBuilder sample_server (Some demo_gameDef)) = Some d"
    by (simp add: PVC_Build_def getStorageSize_def NewPVCBuilder_def demo_server_with_def sample_lib_def
        gibi_def Let_def)
  with w' reconcilePVC_correct [OF sim_api_server w'] show ?thesis by auto
qed

text \<open>
  C19. After a successful reconciliation of the ConfigMap, every config file of the server is found in
  it: the main container mounts a key of the volume \<^verbatim>\<open>config-files\<close> read-only at the file's path,
  the volume is that ConfigMap, and its data has the file's content under that key.
\<close>

theorem config_files_delivered:
  assumes "api_server K view admit_svc merge_svc admit_pvc"
    and "reconcileConfigMap K server w = (None, w')"
    and "i < length (ss_configFiles (server_spec server))"
  shows "\<exists>cm. cl_configmaps (view w') (cm_key_of server) = Some cm \<and>
     controlled_by (server_meta server) (cm_meta cm) \<and>
     (let pod = sts_podSpec (sts_spec (StatefulSet_Build L it (NewStatefulSetBuilder server gd)));
          file = ss_configFiles (server_spec server) ! i
      in \<exists>m. m \<in> set (ctr_volumeMounts (hd (ps_containers pod))) \<and>
           vm_mountPath m = cf_path file \<and> vm_readOnly m \<and>
           \<lparr>vol_name = vm_name m, vol_source = ConfigMapSource (om_name (cm_meta cm))\<rparr> \<in> set (ps_volumes pod) \<and>
           map_of (cm_data cm) (vm_subPath m) = Some (cf_content file))"
proof -
  let ?file = "ss_configFiles (server_spec server) ! i"
  let ?pod = "sts_podSpec (sts_spec (StatefulSet_Build L it (NewStatefulSetBuilder server gd)))"
  have "ss_configFiles (server_spec server) \<noteq> []" using assms(3) by auto
  from api_server.cm_reconciled [OF assms(1,2) this]
  obtain cm where cm: "cl_configmaps (view w') (cm_key_of server) = Some cm"
    "ensured_cm server (cl_configmaps (view w) (cm_key_of server)) cm"
    by (auto simp: put_cm_def)
  have "config_file_mount (i, ?file) \<in> set (ctr_volumeMounts (hd (ps_containers ?pod)))"
    using assms(3)
    by (simp add: sts_build_defs buildVolumeMounts_def NewStatefulSetBuilder_def enumerate_mem
        image_iff split: prod.split) (metis enumerate_mem)
  moreover have "\<lparr>vol_name = ''config-files'', vol_source = ConfigMapSource (ConfigMapName (server_name server))\<rparr>
      \<in> set (ps_volumes ?pod)"
    using assms(3) by (auto simp: sts_build_defs buildVolumes_def NewStatefulSetBuilder_def)
  moreover have "om_name (cm_meta cm) = ConfigMapName (server_name server)"
    using cm(2) by (simp add: ensured_cm_def meta_key_def)
  moreover have "map_of (cm_data cm) (config_file_key i) = Some (cf_content ?file)"
    using cm(2) config_map_data_file [OF assms(3)] by (simp add: ensured_cm_def config_keys_agree)
  ultimately show ?thesis
    using cm unfolding Let_def
    by (intro exI [of _ cm] conjI exI [of _ "config_file_mount (i, ?file)"])
      (simp_all add: ensured_cm_def config_file_mount_def)
qed

lemma config_files_delivered_witness:
  "\<exists>w' cm. reconcileConfigMap sim_kube config_file_server sample_world = (None, w') \<and>
     cl_configmaps (sim_view w') (ObjectKey ''default'' (ConfigMapName ''my-valheim'')) = Some cm \<and>
     controlled_by (server_meta config_file_server) (cm_meta cm)"
proof -
  obtain w' where w': "reconcileConfigMap sim_kube config_file_server sample_world = (None, w')"
    using sim.cm_returns accepted_sample(4) sample_world_empty(4) by metis
  have "0 < length (ss_configFiles (server_spec config_file_server))"
    by (simp add: config_file_server_def)
  from config_files_delivered [OF sim_api_server w' this] w' show ?thesis
    unfolding sample_server_keys by blast
qed

text \<open>
  A server whose StatefulSet was built for another game can never be brought up to date: the
  game's label is part of the immutable selector, so the reconciliation of its StatefulSet fails on
  every API server that answers its calls, and changes nothing.
\<close>

theorem game_change_is_stuck:
  assumes "reliable_api_server K view admit_svc merge_svc admit_pvc acc_server acc_sts acc_svc acc_pvc"
    and "cl_statefulsets (view w) (child_key server) = Some s"
    and "map_of (sts_selector (sts_spec s)) =
           map_of (sts_selector (sts_spec (StatefulSet_Build L' it' (NewStatefulSetBuilder old gd'))))"
    and "ss_gameDefinition (server_spec old) \<noteq> ss_gameDefinition (server_spec server)"
  shows "\<exists>t w'. reconcileStatefulSet L it K server gd w = (Some (PlainError t), w') \<and> view w' = view w"
proof -
  have "map_of (sts_labels (NewStatefulSetBuilder old gd')) \<noteq> map_of (sts_labels (NewStatefulSetBuilder server gd))"
    using sts_child.labels_game [of old gd'] sts_child.labels_game [of server gd] assms(4) by auto
  then have "map_of (sts_selector (sts_spec s)) \<noteq> map_of (sts_labels (NewStatefulSetBuilder server gd))"
    using assms(3) by (simp add: StatefulSet_Build_def Let_def)
  then obtain t w' where r: "reconcileStatefulSet L it K server gd w = (Some (PlainError t), w')"
    using reliable_api_server.sts_refused [OF assms(1,2)] by blast
  with api_server.sts_not_reconciled [OF reliable_api_server.axioms(1) [OF assms(1)] r] show ?thesis by blast
qed

end
