(* ===== verification/GameDefinition_Controller.thy ===== *)
theory GameDefinition_Controller
  imports Kube_Sim
begin

text \<open>
  \<^verbatim>\<open>internal/controller/gamedefinition_controller.go\<close>: validation of a game definition and the
  reconciler that records the outcome in its status.
\<close>

section \<open>validate\<close>

datatype gamedef_error =
    AppIdNotPositive
  | CommandRequired
  | PortRequired
  | PortNameRequired nat
  | PortOutOfRange nat
  | MapToTypeInvalid string

fun gamedef_error_text :: "gamedef_error \<Rightarrow> string" where
  "gamedef_error_text AppIdNotPositive = ''appId must be a positive integer''"
| "gamedef_error_text CommandRequired = ''command is required''"
| "gamedef_error_text PortRequired = ''at least one port is required''"
| "gamedef_error_text (PortNameRequired i) = ''port['' @ dec_nat i @ ''].name is required''"
| "gamedef_error_text (PortOutOfRange i) =
     ''port['' @ dec_nat i @ ''].containerPort must be between 1 and 65535''"
| "gamedef_error_text (MapToTypeInvalid key) =
     ''configSchema['' @ key @ ''].mapTo.type must be '' @ [CHR 0x27] @ ''arg'' @ [CHR 0x27] @ '', '' @
     [CHR 0x27] @ ''env'' @ [CHR 0x27] @ '', or '' @ [CHR 0x27] @ ''configFile'' @ [CHR 0x27]"

definition check_port :: "nat \<times> server_port \<Rightarrow> gamedef_error option" where
  "check_port ip =
     (case ip of (i, port) \<Rightarrow>
        if port_name port = [] then Some (PortNameRequired i)
        else if sint (port_containerPort port) \<le> 0 \<or> sint (port_containerPort port) > 65535
          then Some (PortOutOfRange i)
        else None)"

definition check_mapTo :: "config_schema_entry gomap \<Rightarrow> string \<Rightarrow> gamedef_error option" where
  "check_mapTo schema key =
     (let entry = go_index zero_schema_entry schema key in
      case cse_mapTo entry of
        None \<Rightarrow> None
      | Some m \<Rightarrow>
          if map_type m \<in> {''arg'', ''env'', ''configFile''} then None
          else Some (MapToTypeInvalid key))"

definition validate :: "range_order \<Rightarrow> game_definition \<Rightarrow> gamedef_error option" where
  "validate it gd =
     (let spec = gamedef_spec gd in
      if sint (gd_appId spec) \<le> 0 then Some AppIdNotPositive
      else if gd_command spec = [] then Some CommandRequired
      else if length (gd_ports spec) = 0 then Some PortRequired
      else
        (case first_error check_port (List.enumerate 0 (gd_ports spec)) of
           Some e \<Rightarrow> Some e
         | None \<Rightarrow> first_error (check_mapTo (schema_of gd)) (it RangeSchema (go_keys (schema_of gd)))))"

section \<open>Reconcile\<close>

definition validated_message :: string where
  "validated_message = ''GameDefinition validated successfully''"

definition set_gamedef_status :: "bool \<Rightarrow> string \<Rightarrow> game_definition \<Rightarrow> game_definition" where
  "set_gamedef_status ready msg gd =
     gd\<lparr>gamedef_status := (gamedef_status gd)\<lparr>gds_ready := ready, gds_message := msg\<rparr>\<rparr>"

definition GameDefinition_Reconcile ::
  "range_order \<Rightarrow> 'w kube \<Rightarrow> object_key \<Rightarrow> 'w \<Rightarrow> (ctrl_result \<times> go_error option) \<times> 'w" where
  "GameDefinition_Reconcile it K req w =
     (case sto_get (k_gamedefs K) req w of
        (Inl err, w1) \<Rightarrow> ((no_result, IgnoreNotFound err), w1)
      | (Inr gameDef, w1) \<Rightarrow>
          (case validate it gameDef of
             Some err \<Rightarrow>
               (case k_gamedef_status_update K
                       (set_gamedef_status False (gamedef_error_text err) gameDef) w1 of
                  (Some statusErr, w2) \<Rightarrow> ((no_result, Some statusErr), w2)
                | (None, w2) \<Rightarrow> ((no_result, None), w2))
           | None \<Rightarrow>
               if \<not> gds_ready (gamedef_status gameDef) \<or>
                  gds_message (gamedef_status gameDef) \<noteq> validated_message
               then (case k_gamedef_status_update K
                             (set_gamedef_status True validated_message gameDef) w1 of
                       (Some err, w2) \<Rightarrow> ((no_result, Some err), w2)
                     | (None, w2) \<Rightarrow> ((no_result, None), w2))
               else ((no_result, None), w1)))"

section \<open>Facts\<close>

definition valid_port :: "server_port \<Rightarrow> bool" where
  "valid_port p \<longleftrightarrow> port_name p \<noteq> [] \<and> 1 \<le> sint (port_containerPort p) \<and> sint (port_containerPort p) \<le> 65535"

definition valid_mapTo :: "config_schema_entry \<Rightarrow> bool" where
  "valid_mapTo entry \<longleftrightarrow>
     (case cse_mapTo entry of
        None \<Rightarrow> True | Some m \<Rightarrow> map_type m \<in> {''arg'', ''env'', ''configFile''})"

definition valid_gamedef :: "game_definition \<Rightarrow> bool" where
  "valid_gamedef gd \<longleftrightarrow>
     sint (gd_appId (gamedef_spec gd)) > 0 \<and> gd_command (gamedef_spec gd) \<noteq> [] \<and>
     gd_ports (gamedef_spec gd) \<noteq> [] \<and> list_all valid_port (gd_ports (gamedef_spec gd)) \<and>
     (\<forall>k entry. map_of (schema_of gd) k = Some entry \<longrightarrow> valid_mapTo entry)"

lemma check_port_None: "check_port (i, p) = None \<longleftrightarrow> valid_port p"
  by (auto simp: check_port_def valid_port_def)

lemma check_ports_None:
  "first_error check_port (List.enumerate 0 ps) = None \<longleftrightarrow> list_all valid_port ps"
  by (rule first_error_enumerate) (rule check_port_None)

lemma check_mapTo_None:
  "map_of schema k = Some entry \<Longrightarrow> check_mapTo schema k = None \<longleftrightarrow> valid_mapTo entry"
  by (simp add: check_mapTo_def valid_mapTo_def split: option.split)

lemma check_mapTos_None:
  assumes "permuting it"
  shows "first_error (check_mapTo schema) (it l (go_keys schema)) = None \<longleftrightarrow>
     (\<forall>k entry. map_of schema k = Some entry \<longrightarrow> valid_mapTo entry)"
  unfolding first_error_None permuting_set [OF assms]
  by (metis check_mapTo_None in_go_keys_iff)

lemma validate_None:
  assumes "permuting it"
  shows "validate it gd = None \<longleftrightarrow> valid_gamedef gd"
  unfolding valid_gamedef_def check_mapTos_None [OF assms, of _ RangeSchema, symmetric]
    check_ports_None [symmetric]
  by (simp add: validate_def Let_def not_le split: option.split)

text \<open>What each error says of the definition.\<close>

fun blames_gamedef :: "game_definition \<Rightarrow> gamedef_error \<Rightarrow> bool" where
  "blames_gamedef gd AppIdNotPositive \<longleftrightarrow> sint (gd_appId (gamedef_spec gd)) \<le> 0"
| "blames_gamedef gd CommandRequired \<longleftrightarrow> gd_command (gamedef_spec gd) = []"
| "blames_gamedef gd PortRequired \<longleftrightarrow> gd_ports (gamedef_spec gd) = []"
| "blames_gamedef gd (PortNameRequired i) \<longleftrightarrow>
     i < length (gd_ports (gamedef_spec gd)) \<and> port_name (gd_ports (gamedef_spec gd) ! i) = []"
| "blames_gamedef gd (PortOutOfRange i) \<longleftrightarrow>
     i < length (gd_ports (gamedef_spec gd)) \<and>
     sint (port_containerPort (gd_ports (gamedef_spec gd) ! i)) \<notin> {1..65535}"
| "blames_gamedef gd (MapToTypeInvalid k) \<longleftrightarrow>
     (\<exists>entry m. map_of (schema_of gd) k = Some entry \<and> cse_mapTo entry = Some m \<and>
        map_type m \<notin> {''arg'', ''env'', ''configFile''})"

lemma check_port_blames:
  assumes "first_error check_port (List.enumerate 0 (gd_ports (gamedef_spec gd))) = Some e"
  shows "blames_gamedef gd e"
  using first_error_Some [OF assms]
  by (auto simp: in_set_enumerate_eq check_port_def split: if_splits)

lemma check_mapTo_blames:
  assumes "permuting it"
    and "first_error (check_mapTo (schema_of gd)) (it l (go_keys (schema_of gd))) = Some e"
  shows "blames_gamedef gd e"
proof -
  obtain k entry where entry: "map_of (schema_of gd) k = Some entry"
    and e: "check_mapTo (schema_of gd) k = Some e"
    using first_error_Some [OF assms(2)] by (auto simp: permuting_set [OF assms(1)] in_go_keys_iff)
  then show ?thesis
    by (cases "cse_mapTo entry") (auto simp: check_mapTo_def simp del: insert_iff split: if_splits)
qed

lemma validate_Some:
  "permuting it \<Longrightarrow> validate it gd = Some e \<Longrightarrow> blames_gamedef gd e"
  by (auto simp: validate_def Let_def dest: check_port_blames check_mapTo_blames
      split: if_splits option.splits)

text \<open>
  The outcome depends on the order in which the schema is visited only through the choice among
  several entries with an unknown mapping type: with at most one, it does not.
\<close>

definition bad_mapping :: "game_definition \<Rightarrow> string \<Rightarrow> bool" where
  "bad_mapping gd k \<longleftrightarrow>
     (case map_of (schema_of gd) k of None \<Rightarrow> False | Some entry \<Rightarrow> \<not> valid_mapTo entry)"

lemma check_mapTo_bad:
  assumes "permuting it" and "first_error (check_mapTo (schema_of gd)) (it l (go_keys (schema_of gd))) = Some e"
  obtains k where "bad_mapping gd k" "check_mapTo (schema_of gd) k = Some e"
proof -
  obtain k where "k \<in> set (go_keys (schema_of gd))" and e: "check_mapTo (schema_of gd) k = Some e"
    using first_error_Some [OF assms(2)] by (auto simp: permuting_set [OF assms(1)])
  then obtain entry where entry: "map_of (schema_of gd) k = Some entry" by (auto simp: in_go_keys_iff)
  with e check_mapTo_None [OF entry] have "bad_mapping gd k" by (simp add: bad_mapping_def)
  with e that show thesis by blast
qed

lemma check_mapTos_order:
  assumes it: "permuting it" "permuting it'"
    and one: "\<And>k k'. bad_mapping gd k \<Longrightarrow> bad_mapping gd k' \<Longrightarrow> k = k'"
  shows "first_error (check_mapTo (schema_of gd)) (it l (go_keys (schema_of gd))) =
     first_error (check_mapTo (schema_of gd)) (it' l (go_keys (schema_of gd)))"
    (is "?e = ?e'")
proof (cases ?e)
  case None
  with check_mapTos_None [OF it(1)] check_mapTos_None [OF it(2)] show ?thesis by metis
next
  case (Some e)
  then have "?e' \<noteq> None" using check_mapTos_None [OF it(1)] check_mapTos_None [OF it(2)] by (metis not_None_eq)
  then obtain e' where e': "?e' = Some e'" by blast
  obtain k where "bad_mapping gd k" "check_mapTo (schema_of gd) k = Some e"
    using check_mapTo_bad [OF it(1) Some] by blast
  moreover obtain k' where "bad_mapping gd k'" "check_mapTo (schema_of gd) k' = Some e'"
    using check_mapTo_bad [OF it(2) e'] by blast
  ultimately show ?thesis using Some e' one by fastforce
qed

lemma validate_order:
  assumes "permuting it" and "permuting it'"
    and "\<And>k k'. bad_mapping gd k \<Longrightarrow> bad_mapping gd k' \<Longrightarrow> k = k'"
  shows "validate it gd = validate it' gd"
  using check_mapTos_order [of it it' gd RangeSchema] assms
  by (simp add: validate_def Let_def split: option.split)

text \<open>With two, the error names the one that is visited first.\<close>

definition two_bad_gameDef :: game_definition where
  "two_bad_gameDef = demo_gameDef\<lparr>gamedef_spec := (gamedef_spec demo_gameDef)
     \<lparr>gd_configSchema := Some (map (\<lambda>k. (k, zero_schema_entry\<lparr>cse_mapTo := Some
        \<lparr>map_type = ''file'', map_value = [], map_condition = [], map_path = [], map_template = []\<rparr>\<rparr>))
        [''a'', ''b''])\<rparr>\<rparr>"

lemma validate_order_dependent:
  "validate (\<lambda>_ ks. ks) two_bad_gameDef = Some (MapToTypeInvalid ''a'')"
  "validate (\<lambda>_. rev) two_bad_gameDef = Some (MapToTypeInvalid ''b'')"
  by code_simp+

text \<open>The status a definition is to have.\<close>

definition verdict :: "range_order \<Rightarrow> game_definition \<Rightarrow> game_definition" where
  "verdict it gd =
     (case validate it gd of
        None \<Rightarrow> set_gamedef_status True validated_message gd
      | Some e \<Rightarrow> set_gamedef_status False (gamedef_error_text e) gd)"

lemma set_gamedef_status_simps [simp]:
  "gamedef_meta (set_gamedef_status r t g) = gamedef_meta g"
  "gamedef_spec (set_gamedef_status r t g) = gamedef_spec g"
  "gds_ready (gamedef_status (set_gamedef_status r t g)) = r"
  "gds_message (gamedef_status (set_gamedef_status r t g)) = t"
  "merge_gamedef_status g (set_gamedef_status r t g) = set_gamedef_status r t g"
  "set_gamedef_status r t (set_gamedef_status r' t' g) = set_gamedef_status r t g"
  by (simp_all add: set_gamedef_status_def merge_gamedef_status_def)

lemma set_gamedef_status_same:
  "gds_ready (gamedef_status g) = r \<Longrightarrow> gds_message (gamedef_status g) = t \<Longrightarrow>
   set_gamedef_status r t g = g"
  by (simp add: set_gamedef_status_def)

lemma validate_spec_only:
  assumes "gamedef_spec g = gamedef_spec g'"
  shows "validate it g = validate it g'"
proof -
  have "schema_of g = schema_of g'" using assms by (simp add: schema_of_def)
  then show ?thesis using assms by (simp only: validate_def Let_def)
qed

lemma verdict_simps [simp]:
  "gamedef_meta (verdict it g) = gamedef_meta g" "gamedef_spec (verdict it g) = gamedef_spec g"
  "merge_gamedef_status g (verdict it g) = verdict it g"
  "gds_ready (gamedef_status (verdict it g)) \<longleftrightarrow> validate it g = None"
  by (simp_all add: verdict_def split: option.split)

text \<open>A second verdict replaces the first.\<close>

lemma verdict_verdict [simp]: "verdict it' (verdict it g) = verdict it' g"
  by (simp add: verdict_def validate_spec_only [of "set_gamedef_status _ _ g" g] split: option.split)

lemma verdict_status:
  assumes "permuting it"
  obtains msg where "verdict it g = set_gamedef_status (valid_gamedef g) msg g"
  using validate_None [OF assms, of g] by (cases "validate it g") (auto simp: verdict_def)

section \<open>The reconciler on an API server\<close>

context api_server begin

lemma gamedef_write:
  assumes "cl_gamedefs (view w) k = Some g" and "gamedef_key x = k"
    and "k_gamedef_status_update K x w = (None, w')"
  shows "view w' = put_gamedef k (Some (merge_gamedef_status g x)) (view w)"
  using gamedef_status_done [OF assms(3)] assms(1,2) by auto

lemma gamedef_reconciled:
  assumes "GameDefinition_Reconcile it K req w = ((res, None), w')"
    and "cl_gamedefs (view w) req = Some g"
  shows "res = no_result \<and> view w' = put_gamedef req (Some (verdict it g)) (view w)"
proof -
  obtain r w1 where get: "sto_get (k_gamedefs K) req w = (r, w1)" by fastforce
  note v1 = gamedefs.get_view [OF get]
  have "r = Inr g"
  proof (cases r)
    case (Inl e)
    with assms get have "IsNotFound e"
      by (auto simp: GameDefinition_Reconcile_def IgnoreNotFound_def split: if_splits)
    with Inl get assms(2) show ?thesis by (auto dest: gamedefs.missing_if_NotFound)
  next
    case (Inr x)
    with get assms(2) show ?thesis by (auto dest: gamedefs.get_found)
  qed
  have there: "cl_gamedefs (view w1) req = Some g" using v1 assms(2) by simp
  have "gamedef_key g = req" using gamedefs_keyed [OF assms(2)] .
  then have wr: "k_gamedef_status_update K (set_gamedef_status r t g) w1 = (None, w') \<Longrightarrow>
      view w' = put_gamedef req (Some (set_gamedef_status r t g)) (view w)" for r t
    using gamedef_write [OF there, of "set_gamedef_status r t g"] v1 by simp
  have same: "put_gamedef req (Some g) (view w) = view w"
    using assms(2) by (simp add: put_gamedef_def fun_upd_idem)
  show ?thesis
    using assms(1) get v1 same \<open>r = Inr g\<close>
    by (auto simp: GameDefinition_Reconcile_def verdict_def set_gamedef_status_same
        dest!: wr split: option.splits if_splits prod.splits)
qed

lemma gamedef_absent_noop:
  assumes "GameDefinition_Reconcile it K req w = ((res, e), w')" and "cl_gamedefs (view w) req = None"
  shows "view w' = view w"
proof -
  obtain r w1 where get: "sto_get (k_gamedefs K) req w = (r, w1)" by fastforce
  with assms(2) obtain err where "r = Inl err"
    by (cases r) (auto dest: gamedefs.get_found)
  with get gamedefs.get_view [OF get] assms(1) show ?thesis
    by (simp add: GameDefinition_Reconcile_def)
qed

lemma gamedef_effect:
  assumes "GameDefinition_Reconcile it K req w = (out, w')"
  shows "view w' = view w \<or>
     (\<exists>g. cl_gamedefs (view w) req = Some g \<and> view w' = put_gamedef req (Some (verdict it g)) (view w))"
proof (cases "snd out")
  case None
  show ?thesis
  proof (cases "cl_gamedefs (view w) req")
    case None
    then show ?thesis using gamedef_absent_noop [of it req w "fst out" "snd out" w'] assms by simp
  next
    case (Some g)
    then show ?thesis using gamedef_reconciled [of it req w "fst out" w'] assms None by (metis prod.collapse)
  qed
next
  case (Some e)
  then show ?thesis
    using assms
    by (auto simp: GameDefinition_Reconcile_def IgnoreNotFound_def
        dest!: gamedefs.get_view gamedef_status_failed split: sum.splits prod.splits option.splits if_splits)
qed

end

context reliable_api_server begin

lemma gamedef_reconcile_returns:
  "\<exists>w'. GameDefinition_Reconcile it K req w = ((no_result, None), w')"
proof (cases "cl_gamedefs (view w) req")
  case None
  with gamedef_absent obtain m w1 where "sto_get (k_gamedefs K) req w = (Inl (NotFoundError m), w1)"
    by blast
  then show ?thesis by (simp add: GameDefinition_Reconcile_def IgnoreNotFound_def)
next
  case (Some g)
  with gamedef_there obtain w1 where get: "sto_get (k_gamedefs K) req w = (Inr g, w1)" by blast
  have "\<exists>w'. k_gamedef_status_update K (set_gamedef_status r t g) w1 = (None, w')" for r t
    using gamedefs.get_view [OF get] gamedefs_keyed [OF Some] Some
    by (intro gamedef_status_there [where g' = g]) simp
  then obtain f where "\<And>r t. k_gamedef_status_update K (set_gamedef_status r t g) w1 = (None, f r t)"
    by metis
  then show ?thesis
    using get by (simp add: GameDefinition_Reconcile_def split: option.split)
qed

end

lemma demo_gamedef_valid: "valid_gamedef demo_gameDef"
proof -
  have "validate (\<lambda>_ ks. ks) demo_gameDef = None" by code_simp
  then show ?thesis by (simp add: validate_None [OF permuting_id])
qed

section \<open>Properties\<close>

text \<open>
  \<open>validate\<close> accepts exactly the definitions with a positive application id, a command, at least
  one port, ports that are all named and between 1 and 65535, and known mapping types; an error it
  returns is true of the definition.  Neither depends on the order in which the schema is visited.
\<close>

theorem validate_correct:
  assumes "permuting it"
  shows "case validate it gd of
      None \<Rightarrow> valid_gamedef gd
    | Some e \<Rightarrow> \<not> valid_gamedef gd \<and> blames_gamedef gd e"
  using validate_None [OF assms, of gd] validate_Some [OF assms, of gd]
  by (auto split: option.split)

lemma validate_correct_witness: "valid_gamedef demo_gameDef"
proof -
  have "validate (\<lambda>_ ks. ks) demo_gameDef = None" by code_simp
  then show ?thesis using validate_correct [OF permuting_id, of demo_gameDef] by simp
qed

text \<open>
  C25. When a reconciliation of an existing game definition returns without error, the only change of
  the cluster is the status of that definition, which is then ready exactly when the definition is
  valid, with the success message or the text of a true error as its message.
\<close>

theorem GameDefinition_Reconcile_verdict:
  assumes "api_server K view admit_svc merge_svc admit_pvc" and "permuting it"
    and "GameDefinition_Reconcile it K req w = ((res, None), w')"
    and "cl_gamedefs (view w) req = Some g"
  shows "res = no_result \<and>
     (\<exists>msg. view w' = put_gamedef req (Some (set_gamedef_status (valid_gamedef g) msg g)) (view w) \<and>
        (if valid_gamedef g then msg = validated_message
         else \<exists>e. blames_gamedef g e \<and> msg = gamedef_error_text e))"
  using api_server.gamedef_reconciled [OF assms(1,3,4)] validate_None [OF assms(2), of g]
    validate_Some [OF assms(2), of g]
  by (auto simp: verdict_def split: option.splits)

lemma GameDefinition_Reconcile_verdict_witness:
  "\<exists>w'. GameDefinition_Reconcile (\<lambda>_ ks. ks) sim_kube demo_gamedef_key sample_world = ((no_result, None), w') \<and>
     sim_view w' = put_gamedef demo_gamedef_key
       (Some (set_gamedef_status True validated_message demo_gameDef)) (sim_view sample_world)"
proof -
  obtain w' where "GameDefinition_Reconcile (\<lambda>_ ks. ks) sim_kube demo_gamedef_key sample_world = ((no_result, None), w')"
    using sim.gamedef_reconcile_returns by blast
  then show ?thesis
    using GameDefinition_Reconcile_verdict [OF sim_api_server permuting_id, of demo_gamedef_key sample_world
        no_result w' demo_gameDef]
    by (simp add: sample_world_view demo_gamedef_valid)
qed

text \<open>
  C26. On an API server that answers its calls the reconciler of game definitions always returns
  without error and without a request to run again.  When it runs twice, each time visiting the schema
  in an order of its own, a definition that is missing stays so and nothing changes; one that is there
  is ready after both runs exactly when it is valid, and the second run changes nothing but its
  message, and not even that when at most one entry of the schema has an unknown mapping type.
\<close>

theorem GameDefinition_Reconcile_twice:
  assumes "reliable_api_server K view admit_svc merge_svc admit_pvc acc_server acc_sts acc_svc acc_pvc"
    and "permuting it" and "permuting it'"
  shows "\<exists>w1 w2. GameDefinition_Reconcile it K req w = ((no_result, None), w1) \<and>
     GameDefinition_Reconcile it' K req w1 = ((no_result, None), w2) \<and>
     (case cl_gamedefs (view w) req of
        None \<Rightarrow> view w1 = view w \<and> view w2 = view w
      | Some g \<Rightarrow>
          (\<exists>m1 m2. view w1 = put_gamedef req (Some (set_gamedef_status (valid_gamedef g) m1 g)) (view w) \<and>
             view w2 = put_gamedef req (Some (set_gamedef_status (valid_gamedef g) m2 g)) (view w)) \<and>
          ((\<forall>k k'. bad_mapping g k \<and> bad_mapping g k' \<longrightarrow> k = k') \<longrightarrow> view w2 = view w1))"
proof -
  note api = reliable_api_server.axioms(1) [OF assms(1)]
  obtain w1 where r1: "GameDefinition_Reconcile it K req w = ((no_result, None), w1)"
    using reliable_api_server.gamedef_reconcile_returns [OF assms(1)] by blast
  obtain w2 where r2: "GameDefinition_Reconcile it' K req w1 = ((no_result, None), w2)"
    using reliable_api_server.gamedef_reconcile_returns [OF assms(1)] by blast
  show ?thesis
  proof (cases "cl_gamedefs (view w) req")
    case None
    then have v1: "view w1 = view w" using api_server.gamedef_absent_noop [OF api r1] by simp
    then have "view w2 = view w" using api_server.gamedef_absent_noop [OF api r2] None by simp
    with v1 r1 r2 None show ?thesis by auto
  next
    case (Some g)
    then have v1: "view w1 = put_gamedef req (Some (verdict it g)) (view w)"
      using api_server.gamedef_reconciled [OF api r1] by simp
    then have v2: "view w2 = put_gamedef req (Some (verdict it' g)) (view w)"
      using api_server.gamedef_reconciled [OF api r2, of "verdict it g"] by (simp add: put_gamedef_def)
    have "verdict it g = verdict it' g" if "\<forall>k k'. bad_mapping g k \<and> bad_mapping g k' \<longrightarrow> k = k'"
      using validate_order [OF assms(2,3), of g] that by (auto simp: verdict_def)
    moreover obtain m1 m2 where "verdict it g = set_gamedef_status (valid_gamedef g) m1 g"
      "verdict it' g = set_gamedef_status (valid_gamedef g) m2 g"
      using verdict_status [OF assms(2)] verdict_status [OF assms(3)] by metis
    ultimately show ?thesis using r1 r2 v1 v2 Some by auto
  qed
qed

lemma GameDefinition_Reconcile_twice_witness:
  "\<exists>w1 w2. GameDefinition_Reconcile (\<lambda>_ ks. ks) sim_kube demo_gamedef_key sample_world = ((no_result, None), w1) \<and>
     GameDefinition_Reconcile (\<lambda>_. rev) sim_kube demo_gamedef_key w1 = ((no_result, None), w2) \<and>
     sim_view w2 = sim_view w1"
proof -
  have "\<not> bad_mapping demo_gameDef k" for k
    by (simp add: bad_mapping_def schema_of_def) (simp add: demo_gameDef_def)
  then show ?thesis
    using GameDefinition_Reconcile_twice [OF sim_reliable permuting_id permuting_rev, of demo_gamedef_key
        sample_world]
    by (auto simp: sample_world_view)
qed

end
