(* ===== verification/SteamServer_Controller.thy ===== *)
theory SteamServer_Controller
  imports SteamServer_Children GameDefinition_Controller
begin

text \<open>
  The reconciler of \<^verbatim>\<open>internal/controller/steamserver_controller.go\<close>: the game definition is
  fetched, deletion and finalizer are handled, and the children and the status are reconciled in
  the source's order.
\<close>

definition FinalizerName :: string where
  "FinalizerName = ''boilerr.dev/steamserver-finalizer''"

definition fetchGameDefinition ::
  "golib \<Rightarrow> 'w kube \<Rightarrow> steam_server \<Rightarrow> 'w \<Rightarrow> (go_error + game_definition option) \<times> 'w" where
  "fetchGameDefinition L K server w =
     (let name = ss_gameDefinition (server_spec server) in
      if name = [] then (Inr None, w)
      else
        (case sto_get (k_gamedefs K) (ObjectKey [] name) w of
           (Inl err, w1) \<Rightarrow>
             if IsNotFound err then
               (Inl (PlainError (''GameDefinition '' @ quote L name @ '' not found'')), w1)
             else (Inl err, w1)
         | (Inr g, w1) \<Rightarrow> (Inr (Some g), w1)))"

definition handleDeletion ::
  "'w kube \<Rightarrow> steam_server \<Rightarrow> 'w \<Rightarrow> (ctrl_result \<times> go_error option) \<times> 'w" where
  "handleDeletion K server w =
     (if k_contains_finalizer K (server_meta server) FinalizerName then
        (case sto_update (k_servers K)
                (server\<lparr>server_meta := k_remove_finalizer K (server_meta server) FinalizerName\<rparr>) w of
           (Some err, w1) \<Rightarrow> ((no_result, Some err), w1)
         | (None, w1) \<Rightarrow> ((no_result, None), w1))
      else ((no_result, None), w))"

definition not_ready_error :: "golib \<Rightarrow> steam_server \<Rightarrow> game_definition \<Rightarrow> go_error" where
  "not_ready_error L server g =
     PlainError (''GameDefinition '' @ quote L (ss_gameDefinition (server_spec server)) @
       '' is not ready: '' @ gds_message (gamedef_status g))"

text \<open>Step 7: the four children in order, each error ending the reconciliation.\<close>

definition reconcileChildren ::
  "golib \<Rightarrow> range_order \<Rightarrow> 'w kube \<Rightarrow> steam_server \<Rightarrow> game_definition option \<Rightarrow> 'w \<Rightarrow>
   (ctrl_result \<times> go_error option) \<times> 'w" where
  "reconcileChildren L it K server gameDef w =
     (case reconcileConfigMap K server w of
        (Some err, w1) \<Rightarrow> setErrorStatus K server ''ConfigMap'' err w1
      | (None, w1) \<Rightarrow>
     (case reconcilePVC L K server gameDef w1 of
        (Some err, w2) \<Rightarrow> setErrorStatus K server ''PVC'' err w2
      | (None, w2) \<Rightarrow>
     (case reconcileStatefulSet L it K server gameDef w2 of
        (Some err, w3) \<Rightarrow> setErrorStatus K server ''StatefulSet'' err w3
      | (None, w3) \<Rightarrow>
     (case reconcileService K server gameDef w3 of
        (Some err, w4) \<Rightarrow> setErrorStatus K server ''Service'' err w4
      | (None, w4) \<Rightarrow> updateStatus K server w4))))"

text \<open>Step 6: the configuration is checked when there is a game definition with a schema.\<close>

definition config_check ::
  "range_order \<Rightarrow> steam_server \<Rightarrow> game_definition option \<Rightarrow> config_error option" where
  "config_check it server gameDef =
     (case gameDef of
        None \<Rightarrow> None
      | Some g \<Rightarrow>
          (case gd_configSchema (gamedef_spec g) of
             None \<Rightarrow> None
           | Some schema \<Rightarrow> ValidateConfig it (ss_config (server_spec server)) schema))"

definition Reconcile ::
  "golib \<Rightarrow> range_order \<Rightarrow> 'w kube \<Rightarrow> object_key \<Rightarrow> 'w \<Rightarrow> (ctrl_result \<times> go_error option) \<times> 'w" where
  "Reconcile L it K req w =
     (case sto_get (k_servers K) req w of
        (Inl err, w1) \<Rightarrow> ((no_result, if IsNotFound err then None else Some err), w1)
      | (Inr server, w1) \<Rightarrow>
          if om_deletionTimestamp (server_meta server) \<noteq> None then handleDeletion K server w1
          else if \<not> k_contains_finalizer K (server_meta server) FinalizerName then
            (case sto_update (k_servers K)
                    (server\<lparr>server_meta := k_add_finalizer K (server_meta server) FinalizerName\<rparr>) w1 of
               (Some err, w2) \<Rightarrow> ((no_result, Some err), w2)
             | (None, w2) \<Rightarrow> ((requeue_now, None), w2))
          else
            (case fetchGameDefinition L K server w1 of
               (Inl err, w2) \<Rightarrow> setErrorStatus K server ''GameDefinition'' err w2
             | (Inr gameDef, w2) \<Rightarrow>
                 (case gameDef of
                    Some g \<Rightarrow>
                      if \<not> gds_ready (gamedef_status g) then
                        (case setErrorStatus K server ''GameDefinition'' (not_ready_error L server g) w2 of
                           (_, w3) \<Rightarrow> ((requeue_after 30, None), w3))
                      else
                        (case config_check it server gameDef of
                           Some e \<Rightarrow>
                             setErrorStatus K server ''Config'' (PlainError (config_error_text L e)) w2
                         | None \<Rightarrow> reconcileChildren L it K server gameDef w2)
                  | None \<Rightarrow> reconcileChildren L it K server gameDef w2)))"

definition findSteamServersForGameDef ::
  "'w kube \<Rightarrow> game_definition \<Rightarrow> 'w \<Rightarrow> object_key list \<times> 'w" where
  "findSteamServersForGameDef K gameDef w =
     (case k_server_list K w of
        (Inl _, w1) \<Rightarrow> ([], w1)
      | (Inr servers, w1) \<Rightarrow>
          (map (\<lambda>s. meta_key (server_meta s))
             (filter (\<lambda>s. ss_gameDefinition (server_spec s) = om_name (gamedef_meta gameDef)) servers), w1))"

section \<open>Vocabulary for what a reconciliation changes\<close>

definition children :: "cluster \<Rightarrow>
  (object_key \<rightharpoonup> stateful_set) \<times> (object_key \<rightharpoonup> service) \<times> (object_key \<rightharpoonup> persistent_volume_claim) \<times>
  (object_key \<rightharpoonup> config_map)" where
  "children v = (cl_statefulsets v, cl_services v, cl_pvcs v, cl_configmaps v)"

text \<open>The parts of the cluster that belong to the server with a given key, and all the rest.\<close>

definition only_own :: "object_key \<Rightarrow> cluster \<Rightarrow> cluster \<Rightarrow> bool" where
  "only_own k v v' \<longleftrightarrow>
     cl_gamedefs v' = cl_gamedefs v \<and> cl_pods v' = cl_pods v \<and>
     (\<forall>k'. k' \<noteq> k \<longrightarrow> cl_servers v' k' = cl_servers v k' \<and> cl_statefulsets v' k' = cl_statefulsets v k' \<and>
        cl_services v' k' = cl_services v k') \<and>
     (\<forall>k'. k' \<noteq> ObjectKey (key_namespace k) (PVCName (key_name k)) \<longrightarrow> cl_pvcs v' k' = cl_pvcs v k') \<and>
     (\<forall>k'. k' \<noteq> ObjectKey (key_namespace k) (ConfigMapName (key_name k)) \<longrightarrow>
        cl_configmaps v' k' = cl_configmaps v k')"

lemma only_own_refl [simp]: "only_own k v v"
  by (simp add: only_own_def)

lemma only_own_trans: "only_own k v v' \<Longrightarrow> only_own k v' v'' \<Longrightarrow> only_own k v v''"
  by (simp add: only_own_def)

lemma server_key_child [simp]: "meta_key (server_meta s) = child_key s"
  by (simp add: meta_key_def child_key_def del: child_key_fold)

lemma child_key_parts [simp]:
  "key_namespace (child_key s) = server_namespace s" "key_name (child_key s) = server_name s"
  by (simp_all add: child_key_def del: child_key_fold)

lemma only_own_puts [simp]:
  "only_own k v (put_server k ox v)" "only_own k v (put_sts k os v)" "only_own k v (put_svc k oy v)"
  "only_own (child_key s) v (put_pvc (pvc_key_of s) op v)"
  "only_own (child_key s) v (put_cm (cm_key_of s) oc v)"
  by (simp_all add: only_own_def put_defs)

lemma children_puts [simp]:
  "children (put_server k ox v) = children v"
  "cl_servers (put_sts k os v) = cl_servers v" "cl_servers (put_svc k oy v) = cl_servers v"
  "cl_servers (put_pvc k op v) = cl_servers v" "cl_servers (put_cm k oc v) = cl_servers v"
  by (simp_all add: children_def put_defs)

text \<open>
  What the reconciler may make of a server: it keeps spec and metadata but for the finalizers, takes
  none of them away unless the server is being deleted, and gives the server up only when it is being
  deleted and nobody else's finalizer is left.
\<close>

definition server_step :: "steam_server \<Rightarrow> steam_server option \<Rightarrow> bool" where
  "server_step old ox \<longleftrightarrow>
     (case ox of
        None \<Rightarrow> om_deletionTimestamp (server_meta old) \<noteq> None \<and>
                set (om_finalizers (server_meta old)) \<subseteq> {FinalizerName}
      | Some s' \<Rightarrow> server_spec s' = server_spec old \<and>
                  (server_status s' = server_status old \<or> reported (server_status s')) \<and>
                  (\<exists>fs. server_meta s' = (server_meta old)\<lparr>om_finalizers := fs\<rparr> \<and>
                    (if om_deletionTimestamp (server_meta old) = None
                     then set (om_finalizers (server_meta old)) \<subseteq> set fs
                     else set fs = set (om_finalizers (server_meta old)) - {FinalizerName} \<or>
                          fs = om_finalizers (server_meta old))))"

lemma server_step_status: "reported st \<Longrightarrow> server_step old (Some (old\<lparr>server_status := st\<rparr>))"
  by (cases old) (auto simp: server_step_def intro!: exI [of _ "om_finalizers (server_meta old)"])

definition server_change :: "object_key \<Rightarrow> cluster \<Rightarrow> cluster \<Rightarrow> bool" where
  "server_change k v v' \<longleftrightarrow>
     v' = v \<or> (\<exists>old ox. cl_servers v k = Some old \<and> v' = put_server k ox v \<and> server_step old ox)"

lemma server_change_put:
  "cl_servers v k = Some old \<Longrightarrow> server_step old ox \<Longrightarrow> server_change k v (put_server k ox v)"
  by (auto simp: server_change_def)

lemma server_step_finalizers:
  assumes "om_deletionTimestamp (server_meta s) = None"
    and "set (om_finalizers (server_meta s)) \<subseteq> set fs"
  shows "server_step s (merge_server s (s\<lparr>server_meta := (server_meta s)\<lparr>om_finalizers := fs\<rparr>\<rparr>))"
proof -
  have "(server_meta s)\<lparr>om_finalizers := fs, om_deletionTimestamp := None\<rparr> =
      (server_meta s)\<lparr>om_finalizers := fs\<rparr>"
    using assms(1) by (cases "server_meta s") simp
  then have "merge_server s (s\<lparr>server_meta := (server_meta s)\<lparr>om_finalizers := fs\<rparr>\<rparr>) =
      Some (s\<lparr>server_meta := (server_meta s)\<lparr>om_finalizers := fs\<rparr>\<rparr>)"
    using assms(1) by (simp add: merge_server_def)
  then show ?thesis
    using assms by (simp add: server_step_def) (rule exI [of _ fs], simp)
qed

lemma removeAll_Nil: "removeAll n fs = [] \<Longrightarrow> set fs \<subseteq> {n}"
  by (induction fs) (auto split: if_splits)

lemma server_step_released:
  assumes "om_deletionTimestamp (server_meta s) \<noteq> None"
  shows "server_step s (merge_server s
     (s\<lparr>server_meta := (server_meta s)\<lparr>om_finalizers := removeAll FinalizerName (om_finalizers (server_meta s))\<rparr>\<rparr>))"
proof -
  let ?fs = "removeAll FinalizerName (om_finalizers (server_meta s))"
  have "(server_meta s)\<lparr>om_finalizers := ?fs, om_deletionTimestamp := om_deletionTimestamp (server_meta s)\<rparr> =
      (server_meta s)\<lparr>om_finalizers := ?fs\<rparr>" by (cases "server_meta s") simp
  moreover have "set (om_finalizers (server_meta s)) - {FinalizerName} = set ?fs" by simp
  ultimately show ?thesis
    using assms removeAll_Nil [of FinalizerName "om_finalizers (server_meta s)"]
    by (auto simp: server_step_def merge_server_def)
qed

lemma server_change_simps:
  "server_change k v v' \<Longrightarrow> children v' = children v" "server_change k v v' \<Longrightarrow> only_own k v v'"
  by (auto simp: server_change_def)

text \<open>
  The conditions under which the children of a server are reconciled: the server is not being
  deleted, has the finalizer, and its game, if it names one, is there, ready and accepts the
  configuration.
\<close>

definition gate_passed :: "range_order \<Rightarrow> cluster \<Rightarrow> steam_server \<Rightarrow> game_definition option \<Rightarrow> bool" where
  "gate_passed it v server gd \<longleftrightarrow>
     om_deletionTimestamp (server_meta server) = None \<and>
     FinalizerName \<in> set (om_finalizers (server_meta server)) \<and>
     (case gd of
        None \<Rightarrow> ss_gameDefinition (server_spec server) = []
      | Some g \<Rightarrow> ss_gameDefinition (server_spec server) \<noteq> [] \<and>
                 cl_gamedefs v (ObjectKey [] (ss_gameDefinition (server_spec server))) = Some g \<and>
                 gds_ready (gamedef_status g) \<and> config_check it server gd = None)"

context api_server begin

lemma setErrorStatus_change:
  assumes "setErrorStatus K server resource err w = (out, w')"
    and "cl_servers (view w) (child_key server) = Some server"
  shows "server_change (child_key server) (view w) (view w')"
  using setErrorStatus_effect [of server resource err w "fst out" "snd out" w'] assms
  by (auto simp: server_change_def merge_server_status_def server_step_status)

lemma updateStatus_change:
  assumes "updateStatus K server w = (out, w')"
  shows "server_change (child_key server) (view w) (view w')"
proof -
  consider "view w' = view w"
    | old st where "cl_servers (view w) (child_key server) = Some old" "reported st"
        "view w' = put_server (child_key server) (Some (old\<lparr>server_status := st\<rparr>)) (view w)"
    using updateStatus_effect [of server w "fst out" "snd out" w'] assms by auto
  then show ?thesis
    by cases (simp_all add: server_change_def [of _ "view w" "view w"] server_change_put server_step_status)
qed

lemma fetch_view: "fetchGameDefinition L K server w = (r, w') \<Longrightarrow> view w' = view w"
  by (auto simp: fetchGameDefinition_def Let_def dest: gamedefs.get_view split: sum.splits prod.splits if_splits)

lemma fetched:
  assumes "fetchGameDefinition L K server w = (Inr gd, w')"
  shows "case gd of
      None \<Rightarrow> ss_gameDefinition (server_spec server) = []
    | Some g \<Rightarrow> ss_gameDefinition (server_spec server) \<noteq> [] \<and>
        cl_gamedefs (view w) (ObjectKey [] (ss_gameDefinition (server_spec server))) = Some g"
  using assms
  by (auto simp: fetchGameDefinition_def Let_def dest: gamedefs.get_found split: sum.splits prod.splits if_splits)

lemma meta_update_change:
  assumes "sto_update (k_servers K) (server\<lparr>server_meta := (server_meta server)\<lparr>om_finalizers := fs\<rparr>\<rparr>) w = (r, w')"
    and "cl_servers (view w) (child_key server) = Some server"
    and "server_step server (merge_server server (server\<lparr>server_meta := (server_meta server)\<lparr>om_finalizers := fs\<rparr>\<rparr>))"
  shows "server_change (child_key server) (view w) (view w')"
proof -
  have "server_key (server\<lparr>server_meta := (server_meta server)\<lparr>om_finalizers := fs\<rparr>\<rparr>) = child_key server"
    by (simp add: meta_key_def child_key_def del: server_key_child child_key_fold)
  with servers.update_effect [OF assms(1)] assms(2,3) show ?thesis
    by (auto simp: server_change_def [of _ "view w" "view w"] server_change_put)
qed

lemma add_finalizer_change:
  assumes "sto_update (k_servers K)
      (server\<lparr>server_meta := k_add_finalizer K (server_meta server) FinalizerName\<rparr>) w = (r, w')"
    and "cl_servers (view w) (child_key server) = Some server"
    and "om_deletionTimestamp (server_meta server) = None"
  shows "server_change (child_key server) (view w) (view w')"
  by (rule meta_update_change [OF assms(1) [unfolded finalizer_add] assms(2)],
      rule server_step_finalizers [OF assms(3)]) auto

lemma remove_finalizer_change:
  assumes "sto_update (k_servers K)
      (server\<lparr>server_meta := k_remove_finalizer K (server_meta server) FinalizerName\<rparr>) w = (r, w')"
    and "cl_servers (view w) (child_key server) = Some server"
    and "om_deletionTimestamp (server_meta server) \<noteq> None"
  shows "server_change (child_key server) (view w) (view w')"
  by (rule meta_update_change [OF assms(1) [unfolded finalizer_remove] assms(2)],
      rule server_step_released [OF assms(3)])

end

text \<open>All children are as one successful reconciliation from \<open>v\<close> leaves them.\<close>

definition children_reconciled ::
  "golib \<Rightarrow> range_order \<Rightarrow> steam_server \<Rightarrow> game_definition option \<Rightarrow> cluster \<Rightarrow> cluster \<Rightarrow> bool" where
  "children_reconciled L it server gd v v' \<longleftrightarrow>
     (\<exists>new. cl_statefulsets v' (child_key server) = Some new \<and>
        ensured_sts server (StatefulSet_Build L it (NewStatefulSetBuilder server gd))
          (cl_statefulsets v (child_key server)) new) \<and>
     (\<exists>new. cl_services v' (child_key server) = Some new \<and>
        ensured_svc server (Service_Build (NewServiceBuilder server gd)) (cl_services v (child_key server)) new) \<and>
     (case PVC_Build L (NewPVCBuilder server gd) of
        None \<Rightarrow> cl_pvcs v' (pvc_key_of server) = cl_pvcs v (pvc_key_of server)
      | Some d \<Rightarrow> \<exists>new. cl_pvcs v' (pvc_key_of server) = Some new \<and>
                    ensured_pvc server d (cl_pvcs v (pvc_key_of server)) new) \<and>
     (if ss_configFiles (server_spec server) = []
      then cl_configmaps v' (cm_key_of server) = cl_configmaps v (cm_key_of server)
      else \<exists>new. cl_configmaps v' (cm_key_of server) = Some new \<and>
             ensured_cm server (cl_configmaps v (cm_key_of server)) new)"

lemma children_reconciled_cong:
  "children v' = children v'' \<Longrightarrow> children_reconciled L it server gd v v' = children_reconciled L it server gd v v''"
  by (simp add: children_reconciled_def children_def split: option.split)

text \<open>The writes of a reconciliation to the children of a server, one rule for each kind.\<close>

inductive child_write ::
  "golib \<Rightarrow> range_order \<Rightarrow> steam_server \<Rightarrow> game_definition option \<Rightarrow> cluster \<Rightarrow> cluster \<Rightarrow> bool"
  for L it server gd where
  write_cm: "ss_configFiles (server_spec server) \<noteq> [] \<Longrightarrow>
     ensured_cm server (cl_configmaps v (cm_key_of server)) c \<Longrightarrow>
     child_write L it server gd v (put_cm (cm_key_of server) (Some c) v)"
| write_pvc: "PVC_Build L (NewPVCBuilder server gd) = Some d \<Longrightarrow>
     ensured_pvc server d (cl_pvcs v (pvc_key_of server)) p \<Longrightarrow>
     child_write L it server gd v (put_pvc (pvc_key_of server) (Some p) v)"
| write_sts: "ensured_sts server (StatefulSet_Build L it (NewStatefulSetBuilder server gd))
       (cl_statefulsets v (child_key server)) t \<Longrightarrow>
     child_write L it server gd v (put_sts (child_key server) (Some t) v)"
| write_svc: "ensured_svc server (Service_Build (NewServiceBuilder server gd))
       (cl_services v (child_key server)) y \<Longrightarrow>
     child_write L it server gd v (put_svc (child_key server) (Some y) v)"

lemma child_write_own:
  "child_write L it server gd v v' \<Longrightarrow> only_own (child_key server) v v' \<and> cl_servers v' = cl_servers v"
  by (cases rule: child_write.cases) auto

lemma child_writes_own:
  "(child_write L it server gd)\<^sup>*\<^sup>* v v' \<Longrightarrow>
   only_own (child_key server) v v' \<and> cl_servers v' = cl_servers v"
  by (induction rule: rtranclp_induct) (auto dest: child_write_own only_own_trans)

context api_server begin

lemma cm_writes:
  assumes "reconcileConfigMap K server w = (r, w')"
  shows "(child_write L it server gd)\<^sup>*\<^sup>* (view w) (view w')"
proof (cases "r = None \<and> ss_configFiles (server_spec server) \<noteq> []")
  case True
  with assms cm_reconciled [of server w w'] write_cm show ?thesis by (metis r_into_rtranclp)
next
  case False
  then have "view w' = view w"
    using assms cm_not_reconciled by (cases r) (auto simp: reconcileConfigMap_def)
  then show ?thesis by simp
qed

lemma pvc_writes:
  assumes "reconcilePVC L K server gd w = (r, w')"
  shows "(child_write L it server gd)\<^sup>*\<^sup>* (view w) (view w')"
proof (cases "r = None \<and> PVC_Build L (NewPVCBuilder server gd) \<noteq> None")
  case True
  with assms pvc_reconciled [of L server gd w w'] write_pvc show ?thesis
    by (metis option.exhaust r_into_rtranclp)
next
  case False
  then have "view w' = view w"
    using assms pvc_not_reconciled by (cases r) (auto simp: reconcilePVC_def)
  then show ?thesis by simp
qed

lemma sts_writes:
  assumes "reconcileStatefulSet L it K server gd w = (r, w')"
  shows "(child_write L it server gd)\<^sup>*\<^sup>* (view w) (view w')"
  using assms sts_reconciled [of L it server gd w w'] sts_not_reconciled [of L it server gd w _ w'] write_sts
  by (cases r) (metis r_into_rtranclp rtranclp.rtrancl_refl)+

lemma svc_writes:
  assumes "reconcileService K server gd w = (r, w')"
  shows "(child_write L it server gd)\<^sup>*\<^sup>* (view w) (view w')"
  using assms svc_reconciled [of server gd w w'] svc_not_reconciled [of server gd w _ w'] write_svc
  by (cases r) (metis r_into_rtranclp rtranclp.rtrancl_refl)+

lemmas cm_own = child_writes_own [OF cm_writes]
lemmas pvc_own = child_writes_own [OF pvc_writes]
lemmas sts_own = child_writes_own [OF sts_writes]
lemmas svc_own = child_writes_own [OF svc_writes]

text \<open>
  However it ends, the reconciliation of the children is some of these writes and then at most a
  write of the status.
\<close>

lemma reconcileChildren_writes:
  assumes "reconcileChildren L it K server gd w = (out, w')"
    and "cl_servers (view w) (child_key server) = Some server"
  shows "\<exists>v. (child_write L it server gd)\<^sup>*\<^sup>* (view w) v \<and> server_change (child_key server) v (view w')"
proof -
  let ?W = "(child_write L it server gd)\<^sup>*\<^sup>*"
  have err: "\<exists>v. ?W (view w) v \<and> server_change (child_key server) v (view w')"
    if "?W (view w) (view wi)" "setErrorStatus K server t e wi = (out, w')" for wi t e
    using setErrorStatus_change [OF that(2)] child_writes_own [OF that(1)] that(1) assms(2) by auto
  obtain r1 w1 where 1: "reconcileConfigMap K server w = (r1, w1)" by fastforce
  obtain r2 w2 where 2: "reconcilePVC L K server gd w1 = (r2, w2)" by fastforce
  obtain r3 w3 where 3: "reconcileStatefulSet L it K server gd w2 = (r3, w3)" by fastforce
  obtain r4 w4 where 4: "reconcileService K server gd w3 = (r4, w4)" by fastforce
  have o1: "?W (view w) (view w1)" by (rule cm_writes [OF 1])
  have o2: "?W (view w) (view w2)" by (rule rtranclp_trans [OF o1 pvc_writes [OF 2]])
  have o3: "?W (view w) (view w3)" by (rule rtranclp_trans [OF o2 sts_writes [OF 3]])
  have o4: "?W (view w) (view w4)" by (rule rtranclp_trans [OF o3 svc_writes [OF 4]])
  have fin: "\<exists>v. ?W (view w) v \<and> server_change (child_key server) v (view w')"
    if "updateStatus K server w4 = (out, w')"
    using updateStatus_change [OF that] o4 by auto
  show ?thesis
    using assms(1) err [OF o1] err [OF o2] err [OF o3] err [OF o4] fin 1 2 3 4
    by (simp add: reconcileChildren_def split: option.splits)
qed

lemma reconcileChildren_own:
  assumes "reconcileChildren L it K server gd w = (out, w')"
    and "cl_servers (view w) (child_key server) = Some server"
  shows "\<exists>v. only_own (child_key server) (view w) v \<and> cl_servers v = cl_servers (view w) \<and>
     server_change (child_key server) v (view w')"
  using reconcileChildren_writes [OF assms] child_writes_own by blast

lemma reconcileChildren_done:
  assumes "reconcileChildren L it K server gd w = ((res, None), w')"
  shows "children_reconciled L it server gd (view w) (view w')"
proof -
  obtain r1 w1 where 1: "reconcileConfigMap K server w = (r1, w1)" by fastforce
  obtain r2 w2 where 2: "reconcilePVC L K server gd w1 = (r2, w2)" by fastforce
  obtain r3 w3 where 3: "reconcileStatefulSet L it K server gd w2 = (r3, w3)" by fastforce
  obtain r4 w4 where 4: "reconcileService K server gd w3 = (r4, w4)" by fastforce
  have no: "setErrorStatus K server t e wi \<noteq> ((res, None), w')" for t e wi
    using setErrorStatus_effect by blast
  have r: "r1 = None" "r2 = None" "r3 = None" "r4 = None" and u: "updateStatus K server w4 = ((res, None), w')"
    using assms no 1 2 3 4 by (auto simp: reconcileChildren_def split: option.splits)
  have cm: "if ss_configFiles (server_spec server) = [] then view w1 = view w
      else \<exists>new. view w1 = put_cm (cm_key_of server) (Some new) (view w) \<and>
        ensured_cm server (cl_configmaps (view w) (cm_key_of server)) new"
    using cm_reconciled [of server w w1] 1 r by (auto simp: reconcileConfigMap_def)
  have pvc: "case PVC_Build L (NewPVCBuilder server gd) of None \<Rightarrow> view w2 = view w1
      | Some d \<Rightarrow> \<exists>new. view w2 = put_pvc (pvc_key_of server) (Some new) (view w1) \<and>
          ensured_pvc server d (cl_pvcs (view w1) (pvc_key_of server)) new"
    using pvc_reconciled [of L server gd w1 w2] 2 r by (auto simp: reconcilePVC_def split: option.splits)
  obtain s where s: "view w3 = put_sts (child_key server) (Some s) (view w2)"
    "ensured_sts server (StatefulSet_Build L it (NewStatefulSetBuilder server gd))
       (cl_statefulsets (view w2) (child_key server)) s"
    using sts_reconciled [of L it server gd w2 w3] 3 r by auto
  obtain y where y: "view w4 = put_svc (child_key server) (Some y) (view w3)"
    "ensured_svc server (Service_Build (NewServiceBuilder server gd)) (cl_services (view w3) (child_key server)) y"
    using svc_reconciled [of server gd w3 w4] 4 r by auto
  have "children_reconciled L it server gd (view w) (view w4)"
    using cm pvc s y
    by (auto simp: children_reconciled_def put_defs split: option.splits if_splits)
  then show ?thesis
    using children_reconciled_cong [OF server_change_simps(1) [OF updateStatus_change [OF u]]] by simp
qed

text \<open>What the fetched game definition decides.\<close>

lemma past_fetch:
  assumes f: "fetchGameDefinition L K server w = (rf, w')"
    and live: "om_deletionTimestamp (server_meta server) = None"
      "FinalizerName \<in> set (om_finalizers (server_meta server))"
  obtains (failed) e where "rf = Inl e"
  | (unready) g where "rf = Inr (Some g)" "\<not> gds_ready (gamedef_status g)"
      "\<And>gd. \<not> gate_passed it (view w) server gd"
  | (invalid) g e where "rf = Inr (Some g)" "gds_ready (gamedef_status g)"
      "config_check it server (Some g) = Some e"
  | (passed) gd where "rf = Inr gd" "gate_passed it (view w) server gd"
      "\<And>g. gd = Some g \<Longrightarrow> gds_ready (gamedef_status g) \<and> config_check it server gd = None"
proof (cases rf)
  case (Inl e)
  then show thesis by (rule failed)
next
  case (Inr gd)
  note fd = fetched [OF f [unfolded Inr]]
  show thesis
  proof (cases gd)
    case None
    with Inr fd live show thesis by (intro passed [of gd]) (simp_all add: gate_passed_def)
  next
    case (Some g)
    consider "\<not> gds_ready (gamedef_status g)"
      | e where "gds_ready (gamedef_status g)" "config_check it server (Some g) = Some e"
      | "gds_ready (gamedef_status g)" "config_check it server (Some g) = None"
      by fastforce
    then show thesis
    proof cases
      case 1
      with Inr Some fd show thesis
        by (intro unready [of g]) (auto simp: gate_passed_def split: option.splits)
    next
      case 3
      with Inr Some fd live show thesis by (intro passed [of gd]) (simp_all add: gate_passed_def)
    qed (use Inr Some invalid in simp)
  qed
qed

text \<open>
  A reconciliation either stays with the server object itself or, past the gate, is the
  reconciliation of the children.
\<close>

lemma Reconcile_cases:
  assumes "Reconcile L it K req w = (out, w')"
  obtains (server_only) "server_change req (view w) (view w')"
    "\<And>server gd. cl_servers (view w) req = Some server \<Longrightarrow> gate_passed it (view w) server gd \<Longrightarrow> snd out \<noteq> None"
  | (children) server gd w1 where "cl_servers (view w) req = Some server" "child_key server = req"
      "gate_passed it (view w) server gd" "view w1 = view w"
      "reconcileChildren L it K server gd w1 = (out, w')"
proof -
  obtain r w1 where get: "sto_get (k_servers K) req w = (r, w1)" by fastforce
  note v1 = servers.get_view [OF get]
  show thesis
  proof (cases r)
    case (Inl e)
    then show thesis
      using assms get v1 server_only
      by (auto simp: Reconcile_def server_change_def dest: servers.missing_if_NotFound split: if_splits)
  next
    case (Inr server)
    with get have s: "cl_servers (view w) req = Some server" by (auto dest: servers.get_found)
    with servers_keyed have k: "child_key server = req" by auto
    have same: "server_change req (view w) (view wi)" if "view wi = view w" for wi
      using that by (simp add: server_change_def)
    have err: thesis if "setErrorStatus K server t e wi = (out, w')" "view wi = view w" for t e wi
    proof (rule server_only)
      show "server_change req (view w) (view w')"
        using setErrorStatus_change [OF that(1)] that(2) s k by simp
      show "snd out \<noteq> None"
        using setErrorStatus_effect [of server t e wi "fst out" "snd out" w'] that(1) by simp
    qed
    consider (deleting) "om_deletionTimestamp (server_meta server) \<noteq> None"
      | (fresh) "om_deletionTimestamp (server_meta server) = None"
          "FinalizerName \<notin> set (om_finalizers (server_meta server))"
      | (live) "om_deletionTimestamp (server_meta server) = None"
          "FinalizerName \<in> set (om_finalizers (server_meta server))"
      by blast
    then show thesis
    proof cases
      case deleting
      then have "server_change req (view w) (view w')"
        using assms get Inr v1 s k same remove_finalizer_change [of server w1]
        by (auto simp: Reconcile_def handleDeletion_def split: if_splits option.splits prod.splits)
      with deleting s show thesis by (intro server_only) (auto simp: gate_passed_def)
    next
      case fresh
      then have "server_change req (view w) (view w')"
        using assms get Inr v1 s k add_finalizer_change [of server w1]
        by (auto simp: Reconcile_def finalizer_in split: option.splits prod.splits)
      with fresh s show thesis by (intro server_only) (auto simp: gate_passed_def)
    next
      case live
      obtain rf w2 where f: "fetchGameDefinition L K server w1 = (rf, w2)" by fastforce
      have v2: "view w2 = view w" using fetch_view [OF f] v1 by simp
      note run = assms [unfolded Reconcile_def get Inr] live finalizer_in f
      from f live show thesis
      proof (cases rule: past_fetch [where it = it])
        case (unready g)
        obtain o3 w3 where e: "setErrorStatus K server ''GameDefinition'' (not_ready_error L server g) w2 = (o3, w3)"
          by fastforce
        with run unready have "w' = w3" by simp
        then have "server_change req (view w) (view w')"
          using setErrorStatus_change [OF e] v2 s k by simp
        with unready(3) v1 s show thesis by (intro server_only) auto
      next
        case (passed gd)
        with run have "reconcileChildren L it K server gd w2 = (out, w')"
          by (cases gd) simp_all
        with passed(2) v1 v2 s k children show thesis by simp
      qed (use run err v2 in simp_all)
    qed
  qed
qed

lemma Reconcile_own:
  assumes "Reconcile L it K req w = (out, w')"
  shows "only_own req (view w) (view w')"
  using assms
proof (cases rule: Reconcile_cases)
  case server_only
  then show ?thesis by (simp add: server_change_simps(2))
next
  case (children server gd w1)
  then obtain v where "only_own req (view w) v" "server_change req v (view w')"
    using reconcileChildren_own [of L it server gd w1 out w'] by auto
  then show ?thesis using server_change_simps(2) only_own_trans by blast
qed

end

end
