(* ===== verification/Operator_Main.thy ===== *)
theory Operator_Main
  imports Operator_Flags SteamServer_Controller
begin

text \<open>
  The entry point of the operator (\<^verbatim>\<open>cmd/main.go\<close>) and the \<open>SetupWithManager\<close> functions of the two
  reconcilers: the options the manager is made from, the controllers it is given and the order in
  which it is put together and started.  controller-runtime's manager is a parameter.
\<close>

section \<open>The options of the servers\<close>

text \<open>\<open>tls.Config\<close> with the protocols it offers; the rest is opaque.  An option changes a configuration.\<close>

record tls_config =
  NextProtos :: "string list"
  tls_rest :: string

type_synonym tls_option = "tls_config \<Rightarrow> tls_config"

definition disableHTTP2 :: tls_option where
  "disableHTTP2 c = c\<lparr>NextProtos := [''http/1.1'']\<rparr>"

definition tlsOpts :: "main_flags \<Rightarrow> tls_option list" where
  "tlsOpts f = (if \<not> enableHTTP2 f then [disableHTTP2] else [])"

record webhook_options =
  wh_TLSOpts :: "tls_option list"
  wh_CertDir :: string
  wh_CertName :: string
  wh_KeyName :: string

definition webhookServerOptions :: "main_flags \<Rightarrow> webhook_options" where
  "webhookServerOptions f =
     (let opts = \<lparr>wh_TLSOpts = tlsOpts f, wh_CertDir = [], wh_CertName = [], wh_KeyName = []\<rparr> in
      if length (webhookCertPath f) > 0 then
        opts\<lparr>wh_CertDir := webhookCertPath f, wh_CertName := webhookCertName f,
             wh_KeyName := webhookCertKey f\<rparr>
      else opts)"

datatype filter_provider = WithAuthenticationAndAuthorization

record metrics_options =
  mo_BindAddress :: string
  mo_SecureServing :: bool
  mo_TLSOpts :: "tls_option list"
  mo_FilterProvider :: "filter_provider option"
  mo_CertDir :: string
  mo_CertName :: string
  mo_KeyName :: string

definition metricsServerOptions :: "main_flags \<Rightarrow> metrics_options" where
  "metricsServerOptions f =
     (let opts = \<lparr>mo_BindAddress = metricsAddr f, mo_SecureServing = secureMetrics f,
                  mo_TLSOpts = tlsOpts f, mo_FilterProvider = None,
                  mo_CertDir = [], mo_CertName = [], mo_KeyName = []\<rparr>;
          opts = (if secureMetrics f
                  then opts\<lparr>mo_FilterProvider := Some WithAuthenticationAndAuthorization\<rparr> else opts)
      in if length (metricsCertPath f) > 0 then
           opts\<lparr>mo_CertDir := metricsCertPath f, mo_CertName := metricsCertName f,
                mo_KeyName := metricsCertKey f\<rparr>
         else opts)"

record manager_options =
  mgr_Metrics :: metrics_options
  mgr_WebhookServer :: webhook_options
  mgr_HealthProbeBindAddress :: string
  mgr_LeaderElection :: bool
  mgr_LeaderElectionID :: string

definition managerOptions :: "main_flags \<Rightarrow> manager_options" where
  "managerOptions f =
     \<lparr>mgr_Metrics = metricsServerOptions f,
      mgr_WebhookServer = webhookServerOptions f,
      mgr_HealthProbeBindAddress = probeAddr f,
      mgr_LeaderElection = enableLeaderElection f,
      mgr_LeaderElectionID = ''c017541f.boilerr.dev''\<rparr>"

section \<open>The controllers\<close>

datatype object_kind =
    KSteamServer | KGameDefinition | KStatefulSet | KService | KPersistentVolumeClaim | KConfigMap

text \<open>
  What the builder \<open>ctrl.NewControllerManagedBy\<close> is told: the kind of object that is reconciled, the
  kinds of objects whose owner is, the kinds whose changes are mapped to requests, the name and the
  reconciler.
\<close>

record 'w controller =
  ct_For :: object_kind
  ct_Owns :: "object_kind list"
  ct_Watches :: "(object_kind \<times> (game_definition \<Rightarrow> 'w \<Rightarrow> object_key list \<times> 'w)) list"
  ct_Named :: string
  ct_Reconciler :: "range_order \<Rightarrow> object_key \<Rightarrow> 'w \<Rightarrow> (ctrl_result \<times> go_error option) \<times> 'w"

definition GameDefinition_controller :: "'w kube \<Rightarrow> 'w controller" where
  "GameDefinition_controller K =
     \<lparr>ct_For = KGameDefinition, ct_Owns = [], ct_Watches = [], ct_Named = ''gamedefinition'',
      ct_Reconciler = (\<lambda>it. GameDefinition_Reconcile it K)\<rparr>"

definition SteamServer_controller :: "golib \<Rightarrow> 'w kube \<Rightarrow> 'w controller" where
  "SteamServer_controller L K =
     \<lparr>ct_For = KSteamServer,
      ct_Owns = [KStatefulSet, KService, KPersistentVolumeClaim, KConfigMap],
      ct_Watches = [(KGameDefinition, findSteamServersForGameDef K)],
      ct_Named = ''steamserver'',
      ct_Reconciler = (\<lambda>it. Reconcile L it K)\<rparr>"

section \<open>The program\<close>

text \<open>
  The manager's functions, over a state \<open>'m\<close> of the process; an error is the result \<^const>\<open>Some\<close>.
  \<open>ml_complete\<close> is the builder's \<open>Complete\<close>, \<open>ml_client\<close> is \<open>GetClient\<close>.
\<close>

record ('w, 'm) manager_lib =
  ml_add_to_scheme :: "string \<Rightarrow> 'm \<Rightarrow> go_error option \<times> 'm"
  ml_get_config :: "'m \<Rightarrow> go_error option \<times> 'm"
  ml_new_manager :: "manager_options \<Rightarrow> 'm \<Rightarrow> go_error option \<times> 'm"
  ml_client :: "'m \<Rightarrow> 'w kube"
  ml_complete :: "'w controller \<Rightarrow> 'm \<Rightarrow> go_error option \<times> 'm"
  ml_add_healthz :: "string \<Rightarrow> 'm \<Rightarrow> go_error option \<times> 'm"
  ml_add_readyz :: "string \<Rightarrow> 'm \<Rightarrow> go_error option \<times> 'm"
  ml_start :: "'m \<Rightarrow> go_error option \<times> 'm"

datatype outcome = Finished | Exit nat | Panicked

definition GameDefinition_SetupWithManager :: "('w, 'm) manager_lib \<Rightarrow> 'm \<Rightarrow> go_error option \<times> 'm" where
  "GameDefinition_SetupWithManager M m = ml_complete M (GameDefinition_controller (ml_client M m)) m"

definition SteamServer_SetupWithManager :: "golib \<Rightarrow> ('w, 'm) manager_lib \<Rightarrow> 'm \<Rightarrow> go_error option \<times> 'm" where
  "SteamServer_SetupWithManager L M m = ml_complete M (SteamServer_controller L (ml_client M m)) m"

text \<open>\<open>init\<close>: a scheme that cannot be filled is a panic.\<close>

definition operator_init :: "('w, 'm) manager_lib \<Rightarrow> 'm \<Rightarrow> outcome \<times> 'm" where
  "operator_init M m =
     (case ml_add_to_scheme M ''clientgoscheme'' m of
        (Some _, m1) \<Rightarrow> (Panicked, m1)
      | (None, m1) \<Rightarrow>
          (case ml_add_to_scheme M ''boilerrv1alpha1'' m1 of
             (Some _, m2) \<Rightarrow> (Panicked, m2)
           | (None, m2) \<Rightarrow> (Finished, m2)))"

definition operator_main ::
  "other_flags \<Rightarrow> golib \<Rightarrow> ('w, 'm) manager_lib \<Rightarrow> string list \<Rightarrow> 'm \<Rightarrow> outcome \<times> 'm" where
  "operator_main X L M args m =
     (case parse_flags X default_flags args of
        HelpRequested \<Rightarrow> (Exit 0, m)
      | ParseFailed \<Rightarrow> (Exit 2, m)
      | ParsedFlags f \<Rightarrow>
     (case ml_get_config M m of
        (Some _, m1) \<Rightarrow> (Exit 1, m1)
      | (None, m1) \<Rightarrow>
     (case ml_new_manager M (managerOptions f) m1 of
        (Some _, m2) \<Rightarrow> (Exit 1, m2)
      | (None, m2) \<Rightarrow>
     (case GameDefinition_SetupWithManager M m2 of
        (Some _, m3) \<Rightarrow> (Exit 1, m3)
      | (None, m3) \<Rightarrow>
     (case SteamServer_SetupWithManager L M m3 of
        (Some _, m4) \<Rightarrow> (Exit 1, m4)
      | (None, m4) \<Rightarrow>
     (case ml_add_healthz M ''healthz'' m4 of
        (Some _, m5) \<Rightarrow> (Exit 1, m5)
      | (None, m5) \<Rightarrow>
     (case ml_add_readyz M ''readyz'' m5 of
        (Some _, m6) \<Rightarrow> (Exit 1, m6)
      | (None, m6) \<Rightarrow>
     (case ml_start M m6 of
        (Some _, m7) \<Rightarrow> (Exit 1, m7)
      | (None, m7) \<Rightarrow> (Finished, m7)))))))))"

definition operator_process ::
  "other_flags \<Rightarrow> golib \<Rightarrow> ('w, 'm) manager_lib \<Rightarrow> string list \<Rightarrow> 'm \<Rightarrow> outcome \<times> 'm" where
  "operator_process X L M args m =
     (case operator_init M m of
        (Finished, m1) \<Rightarrow> operator_main X L M args m1
      | (out, m1) \<Rightarrow> (out, m1))"

section \<open>A manager that records its calls\<close>

text \<open>
  The calls the program makes, and the manager that only records them; which of them fail is given by
  a predicate.
\<close>

datatype 'w call =
    AddToScheme string
  | GetConfig
  | NewManager manager_options
  | Complete "'w controller"
  | AddHealthzCheck string
  | AddReadyzCheck string
  | StartManager

definition record_call :: "('w call \<Rightarrow> bool) \<Rightarrow> 'w call \<Rightarrow> 'w call list \<Rightarrow> go_error option \<times> 'w call list" where
  "record_call fails c cs = (if fails c then Some (PlainError ''failed'') else None, cs @ [c])"

definition recorder :: "'w kube \<Rightarrow> ('w call \<Rightarrow> bool) \<Rightarrow> ('w, 'w call list) manager_lib" where
  "recorder K fails =
     \<lparr>ml_add_to_scheme = (\<lambda>s. record_call fails (AddToScheme s)),
      ml_get_config = record_call fails GetConfig,
      ml_new_manager = (\<lambda>opts. record_call fails (NewManager opts)),
      ml_client = (\<lambda>_. K),
      ml_complete = (\<lambda>c. record_call fails (Complete c)),
      ml_add_healthz = (\<lambda>n. record_call fails (AddHealthzCheck n)),
      ml_add_readyz = (\<lambda>n. record_call fails (AddReadyzCheck n)),
      ml_start = record_call fails StartManager\<rparr>"

definition scheme_calls :: "'w call list" where
  "scheme_calls = [AddToScheme ''clientgoscheme'', AddToScheme ''boilerrv1alpha1'']"

definition startup_calls :: "golib \<Rightarrow> 'w kube \<Rightarrow> main_flags \<Rightarrow> 'w call list" where
  "startup_calls L K f =
     [GetConfig, NewManager (managerOptions f), Complete (GameDefinition_controller K),
      Complete (SteamServer_controller L K), AddHealthzCheck ''healthz'', AddReadyzCheck ''readyz'',
      StartManager]"

text \<open>The calls up to the first that fails, that one included.\<close>

fun upto_failure :: "('c \<Rightarrow> bool) \<Rightarrow> 'c list \<Rightarrow> 'c list" where
  "upto_failure fails [] = []"
| "upto_failure fails (c # cs) = c # (if fails c then [] else upto_failure fails cs)"

section \<open>Properties\<close>

text \<open>
  C40. Whatever calls fail, a start of the operator makes the calls of the startup sequence in their
  order and stops with exit code 1 at the first that fails (a scheme that cannot be filled is a panic);
  on a malformed command line it exits with 2 before any of them.  So the manager is started only with
  both controllers and both health checks in place.
\<close>

theorem operator_startup:
  "operator_process X L (recorder K fails) args [] =
     (if list_ex fails scheme_calls then (Panicked, upto_failure fails scheme_calls)
      else
        (case parse_flags X default_flags args of
           HelpRequested \<Rightarrow> (Exit 0, scheme_calls)
         | ParseFailed \<Rightarrow> (Exit 2, scheme_calls)
         | ParsedFlags f \<Rightarrow> (if list_ex fails (startup_calls L K f) then Exit 1 else Finished,
                        scheme_calls @ upto_failure fails (startup_calls L K f))))"
  by (simp add: operator_process_def operator_init_def operator_main_def recorder_def record_call_def
      scheme_calls_def startup_calls_def GameDefinition_SetupWithManager_def
      SteamServer_SetupWithManager_def split: parse_outcome.split)

text \<open>
  Unless \<^verbatim>\<open>--enable-http2\<close> is given, both servers of the manager offer HTTP/1.1 only, whatever
  configuration they start from, and with it they offer what that configuration does; the metrics
  endpoint is served without authentication only when it is asked to be insecure.
\<close>

theorem manager_options_secure:
  "NextProtos (fold (\<lambda>opt. opt) (wh_TLSOpts (mgr_WebhookServer (managerOptions f))) c) =
     (if enableHTTP2 f then NextProtos c else [''http/1.1'']) \<and>
   NextProtos (fold (\<lambda>opt. opt) (mo_TLSOpts (mgr_Metrics (managerOptions f))) c) =
     (if enableHTTP2 f then NextProtos c else [''http/1.1'']) \<and>
   (mo_FilterProvider (mgr_Metrics (managerOptions f)) = None) = (\<not> secureMetrics f) \<and>
   mo_SecureServing (mgr_Metrics (managerOptions f)) = secureMetrics f"
  by (simp add: managerOptions_def webhookServerOptions_def metricsServerOptions_def tlsOpts_def
      disableHTTP2_def Let_def)

end
