(* ===== verification/Reconcile_Progress.thy ===== *)
theory Reconcile_Progress
  imports SteamServer_Controller
begin

text \<open>
  What the reconciler of servers achieves on an API server that answers its calls: the obstacles it
  reports, the life cycle of the server object, the children it brings about, and that reconciling
  again leaves them as they are.
\<close>

section \<open>The reconciler on an API server that answers its calls\<close>

text \<open>What the API has to accept for the children of a server to be reconciled.\<close>

definition children_accepted ::
  "(stateful_set option \<Rightarrow> stateful_set \<Rightarrow> bool) \<Rightarrow> (service option \<Rightarrow> service \<Rightarrow> bool) \<Rightarrow>
   (persistent_volume_claim option \<Rightarrow> persistent_volume_claim \<Rightarrow> bool) \<Rightarrow>
   golib \<Rightarrow> range_order \<Rightarrow> cluster \<Rightarrow> steam_server \<Rightarrow> game_definition option \<Rightarrow> bool" where
  "children_accepted acc_sts acc_svc acc_pvc L it v server gd \<longleftrightarrow>
     cm_ownable server (cl_configmaps v (cm_key_of server)) \<and>
     (case PVC_Build L (NewPVCBuilder server gd) of
        None \<Rightarrow> True | Some d \<Rightarrow> accepted_pvc acc_pvc d (cl_pvcs v (pvc_key_of server))) \<and>
     accepted_sts acc_sts (StatefulSet_Build L it (NewStatefulSetBuilder server gd))
       (cl_statefulsets v (child_key server)) \<and>
     accepted_svc acc_svc (Service_Build (NewServiceBuilder server gd)) (cl_services v (child_key server))"

text \<open>The first obstacle on the way to the children, with the text it is reported under.\<close>

definition obstacle ::
  "golib \<Rightarrow> range_order \<Rightarrow> cluster \<Rightarrow> steam_server \<Rightarrow> (string \<times> go_error \<times> bool) option" where
  "obstacle L it v server =
     (let game = ss_gameDefinition (server_spec server) in
      if game = [] then None
      else
        (case cl_gamedefs v (ObjectKey [] game) of
           None \<Rightarrow> Some (''GameDefinition'', PlainError (''GameDefinition '' @ quote L game @ '' not found''), False)
         | Some g \<Rightarrow>
             if \<not> gds_ready (gamedef_status g) then Some (''GameDefinition'', not_ready_error L server g, True)
             else (case config_check it server (Some g) of
                     Some e \<Rightarrow> Some (''Config'', PlainError (config_error_text L e), False)
                   | None \<Rightarrow> None)))"

definition game_of :: "cluster \<Rightarrow> steam_server \<Rightarrow> game_definition option" where
  "game_of v server =
     (if ss_gameDefinition (server_spec server) = [] then None
      else cl_gamedefs v (ObjectKey [] (ss_gameDefinition (server_spec server))))"

context reliable_api_server begin

lemma setErrorStatus_written:
  assumes "cl_servers (view w) (child_key server) = Some server"
  shows "\<exists>now w'. setErrorStatus K server resource err w = ((no_result, Some err), w') \<and>
     view w' = put_server (child_key server) (Some (error_status resource err now server)) (view w)"
proof -
  obtain now w1 where n: "k_now K w = (now, w1)" by fastforce
  note v = now_view [OF n]
  let ?x = "error_status resource err now server"
  obtain w2 where u: "k_server_status_update K ?x w1 = (None, w2)"
    using server_status_there [of w1 ?x server] assms v by auto
  moreover have "merge_server_status server ?x = ?x"
    by (simp add: merge_server_status_def error_status_def)
  ultimately show ?thesis
    using server_status_done [OF u] n v assms by (auto simp: setErrorStatus_def)
qed

lemma fetch_found:
  "\<exists>w'. fetchGameDefinition L K server w =
     (if ss_gameDefinition (server_spec server) \<noteq> [] \<and> game_of (view w) server = None
      then Inl (PlainError (''GameDefinition '' @ quote L (ss_gameDefinition (server_spec server)) @ '' not found''))
      else Inr (game_of (view w) server), w') \<and> view w' = view w"
proof (cases "ss_gameDefinition (server_spec server) = []")
  case True
  then show ?thesis by (simp add: fetchGameDefinition_def game_of_def)
next
  case False
  let ?k = "ObjectKey [] (ss_gameDefinition (server_spec server))"
  show ?thesis
  proof (cases "cl_gamedefs (view w) ?k")
    case None
    with gamedef_absent obtain m w1 where g: "sto_get (k_gamedefs K) ?k w = (Inl (NotFoundError m), w1)" by blast
    with gamedefs.get_view [OF g] None False show ?thesis
      by (simp add: fetchGameDefinition_def game_of_def)
  next
    case (Some x)
    with gamedef_there obtain w1 where g: "sto_get (k_gamedefs K) ?k w = (Inr x, w1)" by blast
    with gamedefs.get_view [OF g] Some False show ?thesis
      by (simp add: fetchGameDefinition_def game_of_def)
  qed
qed

lemma reconcileChildren_returns:
  assumes stored: "cl_servers (view w) (child_key server) = Some server"
    and acc: "children_accepted acc_sts acc_svc acc_pvc L it (view w) server gd"
  shows "\<exists>now w' v. reconcileChildren L it K server gd w =
       ((if observed_state v server = ServerStateRunning then no_result else requeue_after 10, None), w') \<and>
     view w' = put_server (child_key server) (Some (observed_server v now server)) v \<and>
     cl_servers v = cl_servers (view w) \<and> only_own (child_key server) (view w) v"
proof -
  let ?k = "child_key server"
  note acc' = acc [unfolded children_accepted_def]
  obtain w1 where 1: "reconcileConfigMap K server w = (None, w1)" using cm_returns acc' by blast
  have v1: "cl_pvcs (view w1) = cl_pvcs (view w)" "cl_statefulsets (view w1) = cl_statefulsets (view w)"
    "cl_services (view w1) = cl_services (view w)"
    using cm_reconciled [OF 1] 1 by (auto simp: put_defs reconcileConfigMap_def split: if_splits)
  obtain w2 where 2: "reconcilePVC L K server gd w1 = (None, w2)"
    using pvc_returns [of L server gd w1] acc' v1 by (auto split: option.splits)
  have v2: "cl_statefulsets (view w2) = cl_statefulsets (view w)" "cl_services (view w2) = cl_services (view w)"
    using pvc_reconciled [OF 2] 2 v1
    by (cases "PVC_Build L (NewPVCBuilder server gd)"; auto simp: put_defs reconcilePVC_def)+
  obtain w3 where 3: "reconcileStatefulSet L it K server gd w2 = (None, w3)"
    using sts_returns [of L it server gd w2] acc' v2 by auto
  have v3: "cl_services (view w3) = cl_services (view w)"
    using sts_reconciled [OF 3] v2 by (auto simp: put_defs)
  obtain w4 where 4: "reconcileService K server gd w3 = (None, w4)"
    using svc_returns [of server gd w3] acc' v3 by auto
  have own: "only_own ?k (view w) (view w4)" "cl_servers (view w4) = cl_servers (view w)"
    using cm_own [OF 1] pvc_own [OF 2] sts_own [OF 3] svc_own [OF 4] by (auto dest: only_own_trans)
  then obtain now w' where "updateStatus K server w4 =
      ((if observed_state (view w4) server = ServerStateRunning then no_result else requeue_after 10, None), w')"
    "view w' = put_server ?k (Some (observed_server (view w4) now server)) (view w4)"
    using updateStatus_reported [of w4 server] stored by auto
  with own 1 2 3 4 show ?thesis
    by (intro exI [of _ now] exI [of _ w'] exI [of _ "view w4"]) (simp add: reconcileChildren_def)
qed

lemma Reconcile_live:
  assumes "cl_servers (view w) req = Some server"
    and "om_deletionTimestamp (server_meta server) = None"
    and "FinalizerName \<in> set (om_finalizers (server_meta server))"
  obtains w1 w2 where "sto_get (k_servers K) req w = (Inr server, w1)" "view w2 = view w"
    "fetchGameDefinition L K server w1 =
       (if ss_gameDefinition (server_spec server) \<noteq> [] \<and> game_of (view w) server = None
        then Inl (PlainError (''GameDefinition '' @ quote L (ss_gameDefinition (server_spec server)) @ '' not found''))
        else Inr (game_of (view w) server), w2)"
proof -
  obtain w1 where g: "sto_get (k_servers K) req w = (Inr server, w1)"
    using servers.get_there [OF assms(1)] by blast
  with servers.get_view [OF g] fetch_found [of L server w1] that show thesis by auto
qed

lemma Reconcile_obstacle:
  assumes s: "cl_servers (view w) req = Some server"
    and "om_deletionTimestamp (server_meta server) = None"
    and "FinalizerName \<in> set (om_finalizers (server_meta server))"
    and ob: "obstacle L it (view w) server = Some (resource, err, wait)"
  shows "\<exists>now w'. Reconcile L it K req w =
       ((if wait then (requeue_after 30, None) else (no_result, Some err)), w') \<and>
     view w' = put_server req (Some (error_status resource err now server)) (view w)"
proof -
  have k: "child_key server = req" using servers_keyed [OF s] by simp
  obtain w1 w2 where g: "sto_get (k_servers K) req w = (Inr server, w1)" and v2: "view w2 = view w"
    and f: "fetchGameDefinition L K server w1 =
       (if ss_gameDefinition (server_spec server) \<noteq> [] \<and> game_of (view w) server = None
        then Inl (PlainError (''GameDefinition '' @ quote L (ss_gameDefinition (server_spec server)) @ '' not found''))
        else Inr (game_of (view w) server), w2)"
    by (rule Reconcile_live [OF assms(1-3)])
  obtain now w3 where e: "setErrorStatus K server resource err w2 = ((no_result, Some err), w3)"
    and v3: "view w3 = put_server req (Some (error_status resource err now server)) (view w)"
    using setErrorStatus_written [of w2 server resource err] s k v2 by auto
  have "Reconcile L it K req w = ((if wait then (requeue_after 30, None) else (no_result, Some err)), w3)"
    using ob assms(2,3) g f e
    by (auto simp: Reconcile_def obstacle_def game_of_def finalizer_in Let_def split: option.splits if_splits)
  with v3 show ?thesis by blast
qed

lemma Reconcile_passes:
  assumes s: "cl_servers (view w) req = Some server"
    and "om_deletionTimestamp (server_meta server) = None"
    and "FinalizerName \<in> set (om_finalizers (server_meta server))"
    and ob: "obstacle L it (view w) server = None"
  obtains w2 where "view w2 = view w"
    "Reconcile L it K req w = reconcileChildren L it K server (game_of (view w) server) w2"
proof -
  obtain w1 w2 where g: "sto_get (k_servers K) req w = (Inr server, w1)" and v2: "view w2 = view w"
    and f: "fetchGameDefinition L K server w1 =
       (if ss_gameDefinition (server_spec server) \<noteq> [] \<and> game_of (view w) server = None
        then Inl (PlainError (''GameDefinition '' @ quote L (ss_gameDefinition (server_spec server)) @ '' not found''))
        else Inr (game_of (view w) server), w2)"
    by (rule Reconcile_live [OF assms(1-3)])
  have "Reconcile L it K req w = reconcileChildren L it K server (game_of (view w) server) w2"
    using ob assms(2,3) g f
    by (auto simp: Reconcile_def obstacle_def game_of_def finalizer_in Let_def split: option.splits if_splits)
  with v2 that show thesis by blast
qed

lemma live_converges:
  assumes s: "cl_servers (view w) req = Some server"
    and "om_deletionTimestamp (server_meta server) = None"
    and "FinalizerName \<in> set (om_finalizers (server_meta server))"
    and "obstacle L it (view w) server = None"
    and acc: "children_accepted acc_sts acc_svc acc_pvc L it (view w) server (game_of (view w) server)"
  shows "\<exists>now w' v. Reconcile L it K req w =
       ((if observed_state v server = ServerStateRunning then no_result else requeue_after 10, None), w') \<and>
     view w' = put_server req (Some (observed_server v now server)) v \<and>
     children_reconciled L it server (game_of (view w) server) (view w) v \<and>
     cl_servers v = cl_servers (view w) \<and> only_own req (view w) v"
proof -
  have k: "child_key server = req" using servers_keyed [OF s] by simp
  obtain w2 where v2: "view w2 = view w"
    and r: "Reconcile L it K req w = reconcileChildren L it K server (game_of (view w) server) w2"
    by (rule Reconcile_passes [OF assms(1-4)])
  obtain now w' v where w': "reconcileChildren L it K server (game_of (view w) server) w2 =
       ((if observed_state v server = ServerStateRunning then no_result else requeue_after 10, None), w')"
    "view w' = put_server req (Some (observed_server v now server)) v"
    "cl_servers v = cl_servers (view w)" "only_own req (view w) v"
    using reconcileChildren_returns [of w2 server L it "game_of (view w) server"] s acc k v2 by auto
  moreover have "children_reconciled L it server (game_of (view w) server) (view w) v"
    using reconcileChildren_done [OF w'(1)] v2 children_reconciled_cong [of "view w'" v] w'(2) by simp
  ultimately show ?thesis using r by auto
qed

end

section \<open>Life cycle and stability\<close>

definition with_finalizers :: "string list \<Rightarrow> steam_server \<Rightarrow> steam_server" where
  "with_finalizers fs s = s\<lparr>server_meta := (server_meta s)\<lparr>om_finalizers := fs\<rparr>\<rparr>"

text \<open>
  The reconciliations that concern the server object only: the result, and what becomes of the
  server.  In all other cases the reconciliation goes on to the game definition.
\<close>

definition lifecycle :: "cluster \<Rightarrow> object_key \<Rightarrow> (ctrl_result \<times> steam_server option) option" where
  "lifecycle v req =
     (case cl_servers v req of
        None \<Rightarrow> Some (no_result, None)
      | Some s \<Rightarrow>
          (let fs = om_finalizers (server_meta s); rest = removeAll FinalizerName fs in
           if om_deletionTimestamp (server_meta s) \<noteq> None then
             Some (no_result, if FinalizerName \<notin> set fs then Some s
                              else if rest = [] then None else Some (with_finalizers rest s))
           else if FinalizerName \<notin> set fs then
             Some (requeue_now, Some (with_finalizers (fs @ [FinalizerName]) s))
           else None))"

lemma merge_with_finalizers:
  "merge_server s (with_finalizers fs s) =
     (if om_deletionTimestamp (server_meta s) \<noteq> None \<and> fs = [] then None else Some (with_finalizers fs s))"
  by (cases s; cases "server_meta s") (simp add: merge_server_def with_finalizers_def)

lemma with_finalizers_key [simp]: "child_key (with_finalizers fs s) = child_key s"
  by (simp add: child_key_def with_finalizers_def del: child_key_fold)

lemma put_server_same: "cl_servers v k = ox \<Longrightarrow> put_server k ox v = v"
  by (auto simp: put_server_def)

context reliable_api_server begin

lemma finalizers_written:
  assumes "cl_servers (view w) (child_key server) = Some server"
  shows "\<exists>w'. sto_update (k_servers K) (with_finalizers fs server) w = (None, w') \<and>
     view w' = put_server (child_key server) (merge_server server (with_finalizers fs server)) (view w)"
proof -
  obtain w' where u: "sto_update (k_servers K) (with_finalizers fs server) w = (None, w')"
    using servers.update_accepted [of w "with_finalizers fs server" server] assms
      acc_server_finalizers [of server fs] by (auto simp: with_finalizers_def [symmetric])
  with servers.update_done [OF u] assms show ?thesis by auto
qed

lemma Reconcile_lifecycle:
  assumes "lifecycle (view w) req = Some (res, ox)"
  shows "\<exists>w'. Reconcile L it K req w = ((res, None), w') \<and> view w' = put_server req ox (view w)"
proof (cases "cl_servers (view w) req")
  case None
  obtain m w1 where g: "sto_get (k_servers K) req w = (Inl (NotFoundError m), w1)"
    using servers.get_absent [OF None] by blast
  with None assms servers.get_view [OF g] show ?thesis
    by (auto simp: Reconcile_def lifecycle_def put_server_same)
next
  case (Some s)
  have k: "child_key s = req" using servers_keyed [OF Some] by simp
  obtain w1 where g: "sto_get (k_servers K) req w = (Inr s, w1)"
    using servers.get_there [OF Some] by blast
  note v1 = servers.get_view [OF g]
  note fin = finalizer_in finalizer_add finalizer_remove
  have upd: "\<exists>w'. sto_update (k_servers K) (s\<lparr>server_meta := (server_meta s)\<lparr>om_finalizers := fs\<rparr>\<rparr>) w1 = (None, w') \<and>
      view w' = put_server req (merge_server s (with_finalizers fs s)) (view w)" for fs
    using finalizers_written [of w1 s fs] Some k v1 by (simp add: with_finalizers_def)
  from assms Some show ?thesis
    using g v1 upd [of "om_finalizers (server_meta s) @ [FinalizerName]"]
      upd [of "removeAll FinalizerName (om_finalizers (server_meta s))"]
    by (auto simp: lifecycle_def Reconcile_def handleDeletion_def fin Let_def merge_with_finalizers
        put_server_same split: if_splits)
qed

end

text \<open>The objects built for a server depend on its spec, name and namespace.\<close>

definition same_server :: "steam_server \<Rightarrow> steam_server \<Rightarrow> bool" where
  "same_server s s' \<longleftrightarrow> server_spec s' = server_spec s \<and>
     (\<exists>fs. server_meta s' = (server_meta s)\<lparr>om_finalizers := fs\<rparr>)"

lemma same_server_simps:
  assumes "same_server s s'"
  shows "server_spec s' = server_spec s" "server_name s' = server_name s"
    "server_namespace s' = server_namespace s" "child_key s' = child_key s"
    "controlled_by (server_meta s') m = controlled_by (server_meta s) m"
    "sole_controller (server_meta s') m = sole_controller (server_meta s) m"
    "om_uid (server_meta s') = om_uid (server_meta s)"
    "om_deletionTimestamp (server_meta s') = om_deletionTimestamp (server_meta s)"
proof -
  obtain fs where "server_spec s' = server_spec s" "server_meta s' = (server_meta s)\<lparr>om_finalizers := fs\<rparr>"
    using assms by (auto simp: same_server_def)
  then show "server_spec s' = server_spec s" "server_name s' = server_name s"
    "server_namespace s' = server_namespace s" "child_key s' = child_key s"
    "controlled_by (server_meta s') m = controlled_by (server_meta s) m"
    "sole_controller (server_meta s') m = sole_controller (server_meta s) m"
    "om_uid (server_meta s') = om_uid (server_meta s)"
    "om_deletionTimestamp (server_meta s') = om_deletionTimestamp (server_meta s)"
    by (simp_all add: child_key_def controlled_by_def sole_controller_def del: child_key_fold)
qed

lemma same_server_builds:
  assumes "same_server s s'"
  shows "StatefulSet_Build L it (NewStatefulSetBuilder s' gd) = StatefulSet_Build L it (NewStatefulSetBuilder s gd)"
    and "Service_Build (NewServiceBuilder s' gd) = Service_Build (NewServiceBuilder s gd)"
    and "PVC_Build L (NewPVCBuilder s' gd) = PVC_Build L (NewPVCBuilder s gd)"
proof -
  note eqs = same_server_simps(1-3) [OF assms]
  have g: "getResources (NewStatefulSetBuilder s' gd) = getResources (NewStatefulSetBuilder s gd)"
    "getImage (NewStatefulSetBuilder s' gd) = getImage (NewStatefulSetBuilder s gd)"
    "getInstallDir (NewStatefulSetBuilder s' gd) = getInstallDir (NewStatefulSetBuilder s gd)"
    "getCommand (NewStatefulSetBuilder s' gd) = getCommand (NewStatefulSetBuilder s gd)"
    "getArgs (NewStatefulSetBuilder s' gd) = getArgs (NewStatefulSetBuilder s gd)"
    "getAppID (NewStatefulSetBuilder s' gd) = getAppID (NewStatefulSetBuilder s gd)"
    "getPorts (NewStatefulSetBuilder s' gd) = getPorts (NewStatefulSetBuilder s gd)"
    "resolveConfigValues L it (NewStatefulSetBuilder s' gd) = resolveConfigValues L it (NewStatefulSetBuilder s gd)"
    by (simp_all add: eqs NewStatefulSetBuilder_def getResources_def getImage_def getInstallDir_def
        getCommand_def getArgs_def getAppID_def getPorts_def resolveConfigValues_def cong: option.case_cong)
  have m: "buildMainEnvVars (NewStatefulSetBuilder s' gd) es = buildMainEnvVars (NewStatefulSetBuilder s gd) es"
    "getInterpolatedArgs L (NewStatefulSetBuilder s' gd) cfg = getInterpolatedArgs L (NewStatefulSetBuilder s gd) cfg" for es cfg
    by (simp_all add: buildMainEnvVars_def getInterpolatedArgs_def g)
      (simp add: NewStatefulSetBuilder_def eqs)
  show "StatefulSet_Build L it (NewStatefulSetBuilder s' gd) = StatefulSet_Build L it (NewStatefulSetBuilder s gd)"
    by (simp add: sts_build_defs g m sts_labels_def buildSteamCMDArgs_def buildInitEnvVars_def isAnonymous_def
        shouldValidate_def buildContainerPorts_def buildVolumes_def buildVolumeMounts_def)
      (simp add: NewStatefulSetBuilder_def eqs)
  show "Service_Build (NewServiceBuilder s' gd) = Service_Build (NewServiceBuilder s gd)"
    by (simp add: Service_Build_def NewServiceBuilder_def svc_labels_def getServiceType_def
        buildServicePorts_def svc_getPorts_def eqs)
  show "PVC_Build L (NewPVCBuilder s' gd) = PVC_Build L (NewPVCBuilder s gd)"
    unfolding PVC_Build_def NewPVCBuilder_def pvc_labels_def getStorageSize_def PVCBuilder.simps eqs ..
qed

text \<open>
  What a second reconciliation leaves as it was, whatever order it visits the maps in: the claim, the
  Service up to what the API server allocates, and labels and data of the ConfigMap.
\<close>

definition children_unchanged :: "steam_server \<Rightarrow> cluster \<Rightarrow> cluster \<Rightarrow> bool" where
  "children_unchanged s v v' \<longleftrightarrow>
     cl_pvcs v' (pvc_key_of s) = cl_pvcs v (pvc_key_of s) \<and>
     map_option svc_declared (cl_services v' (child_key s)) = map_option svc_declared (cl_services v (child_key s)) \<and>
     map_option (\<lambda>c. (om_labels (cm_meta c), cm_data c)) (cl_configmaps v' (cm_key_of s)) =
       map_option (\<lambda>c. (om_labels (cm_meta c), cm_data c)) (cl_configmaps v (cm_key_of s))"

lemma ensured_sts_twice: "ensured_sts s d old new \<Longrightarrow> ensured_sts s d (Some new) new' \<Longrightarrow> new' = new"
  by (auto simp: ensured_sts_def admit_sts_def split: option.splits if_splits)

lemma ensured_pvc_twice:
  assumes "ensured_pvc s p oldp newp" and "wf_map (om_labels (pvc_meta p))"
    and "ensured_pvc s p (Some newp) newp'"
  shows "newp' = newp"
proof -
  have "hasLabels (om_labels (pvc_meta newp)) (om_labels (pvc_meta p))"
    using assms(1,2)
    by (auto simp: ensured_pvc_def hasLabels_self dest: pvc_declared_meta(2) split: option.splits if_splits)
  then show ?thesis using assms(3) by (simp add: ensured_pvc_def)
qed

lemma ensured_svc_twice:
  assumes "ensured_svc s d old new" and "ensured_svc s d (Some new) new'"
  shows "svc_declared new' = svc_declared new"
proof -
  have "svc_declared new = svc_declared (d\<lparr>svc_meta := svc_meta new\<rparr>) \<and>
      om_labels (svc_meta new) = om_labels (svc_meta d)"
  proof (cases old)
    case None
    with assms(1) obtain os where new: "svc_declared new = svc_declared (d\<lparr>svc_meta := (svc_meta d)\<lparr>om_owners := os\<rparr>\<rparr>)"
      by (auto simp: ensured_svc_def)
    from svc_declared_eqD(1) [OF new] new show ?thesis by simp
  next
    case (Some s0)
    with assms(1) have new: "svc_declared new =
        svc_declared (d\<lparr>svc_meta := (svc_meta s0)\<lparr>om_labels := om_labels (svc_meta d)\<rparr>\<rparr>)"
      by (simp add: ensured_svc_def)
    from svc_declared_eqD(1) [OF new] new show ?thesis by simp
  qed
  then have new: "svc_declared new = svc_declared (d\<lparr>svc_meta := svc_meta new\<rparr>)"
    and labels: "om_labels (svc_meta d) = om_labels (svc_meta new)" by simp_all
  have "(svc_meta new)\<lparr>om_labels := om_labels (svc_meta new)\<rparr> = svc_meta new"
    by (cases "svc_meta new") simp
  then show ?thesis
    using assms(2) unfolding ensured_svc_def labels new by simp
qed

lemma children_reconciled_twice:
  assumes "children_reconciled L it s gd v v1" and "children_reconciled L it' s gd v1 v2"
  shows "children_unchanged s v1 v2"
proof -
  have "PVC_Build L (NewPVCBuilder s gd) = Some d \<Longrightarrow> wf_map (om_labels (pvc_meta d))" for d
    using PVC_Build_meta pvc_child.labels_wf by auto
  then have "cl_pvcs v2 (pvc_key_of s) = cl_pvcs v1 (pvc_key_of s)"
    using assms ensured_pvc_twice by (fastforce simp: children_reconciled_def split: option.splits)
  moreover have "map_option svc_declared (cl_services v2 (child_key s)) =
      map_option svc_declared (cl_services v1 (child_key s))"
    using assms ensured_svc_twice by (fastforce simp: children_reconciled_def)
  moreover have "map_option (\<lambda>c. (om_labels (cm_meta c), cm_data c)) (cl_configmaps v2 (cm_key_of s)) =
      map_option (\<lambda>c. (om_labels (cm_meta c), cm_data c)) (cl_configmaps v1 (cm_key_of s))"
    using assms by (auto simp: children_reconciled_def ensured_cm_def split: if_splits)
  ultimately show ?thesis by (simp add: children_unchanged_def)
qed

text \<open>The StatefulSet is left as it was when both orders build the same one.\<close>

lemma sts_reconciled_twice:
  assumes "children_reconciled L it s gd v v1" and "children_reconciled L it' s gd v1 v2"
    and "StatefulSet_Build L it (NewStatefulSetBuilder s gd) = StatefulSet_Build L it' (NewStatefulSetBuilder s gd)"
  shows "cl_statefulsets v2 (child_key s) = cl_statefulsets v1 (child_key s)"
  using assms ensured_sts_twice by (fastforce simp: children_reconciled_def)

lemma config_check_order:
  "permuting it \<Longrightarrow> permuting it' \<Longrightarrow> config_check it s gd = None \<longleftrightarrow> config_check it' s gd = None"
  by (simp add: config_check_def ValidateConfig_None split: option.split)

lemma gate_order:
  "permuting it \<Longrightarrow> permuting it' \<Longrightarrow> gate_passed it v s gd = gate_passed it' v s gd"
  using config_check_order [of it it' s gd] by (cases gd) (simp_all add: gate_passed_def)

lemma children_reconciled_same:
  assumes "same_server s s'"
  shows "children_reconciled L it s' gd v v' = children_reconciled L it s gd v v'"
  unfolding children_reconciled_def ensured_sts_def ensured_svc_def ensured_pvc_def ensured_cm_def
    same_server_builds [OF assms] same_server_simps [OF assms] ..

context api_server begin

text \<open>What a successful reconciliation past the gate leaves, and that the gate stays open.\<close>

lemma live_reconciliation:
  assumes "Reconcile L it K req w = ((res, None), w')"
    and s: "cl_servers (view w) req = Some server" and gate: "gate_passed it (view w) server gd"
  shows "\<exists>s'. cl_servers (view w') req = Some s' \<and> same_server server s' \<and>
     gate_passed it (view w') s' gd \<and> children_reconciled L it server gd (view w) (view w')"
  using assms(1)
proof (cases rule: Reconcile_cases)
  case server_only
  from this(2) [OF s gate] show ?thesis by simp
next
  case (children server' gd' w1)
  have same: "server' = server" "gd' = gd"
    using children(1,3) s gate by (auto simp: gate_passed_def split: option.splits)
  note run = children(5) [unfolded same] and v1 = children(4) and k = children(2) [unfolded same]
  have rec: "children_reconciled L it server gd (view w) (view w')"
    using reconcileChildren_done [OF run] v1 by simp
  obtain v where own: "only_own req (view w) v" "cl_servers v = cl_servers (view w)" "server_change req v (view w')"
    using reconcileChildren_own [OF run] v1 k s by auto
  have games: "cl_gamedefs (view w') = cl_gamedefs (view w)"
    using own server_change_simps(2) [OF own(3)] by (simp add: only_own_def)
  have live: "om_deletionTimestamp (server_meta server) = None"
    using gate by (simp add: gate_passed_def)
  obtain s' where s': "cl_servers (view w') req = Some s'" "s' = server \<or> server_step server (Some s')"
    using own(2,3) s live by (auto simp: server_change_def put_server_def server_step_def split: option.splits)
  have "same_server server server" by (cases server; cases "server_meta server") (auto simp: same_server_def)
  moreover have "FinalizerName \<in> set (om_finalizers (server_meta s')) \<and> same_server server s'"
    if "server_step server (Some s')"
    using that gate live by (auto simp: server_step_def same_server_def gate_passed_def)
  ultimately have "FinalizerName \<in> set (om_finalizers (server_meta s'))" "same_server server s'"
    using s'(2) gate by (auto simp: gate_passed_def)
  moreover from this have "gate_passed it (view w') s' gd"
    using gate games same_server_simps [OF \<open>same_server server s'\<close>]
    by (auto simp: gate_passed_def config_check_def split: option.splits)
  ultimately show ?thesis using s' rec by blast
qed

end

lemma children_accepted_same:
  assumes "same_server s s'"
  shows "children_accepted acc_sts acc_svc acc_pvc L it v s' gd =
     children_accepted acc_sts acc_svc acc_pvc L it v s gd"
  unfolding children_accepted_def cm_ownable_def
    same_server_builds [OF assms] same_server_simps [OF assms] ..

lemma gate_obstacle:
  "gate_passed it v s gd \<Longrightarrow> obstacle L it v s = None \<and> game_of v s = gd"
  by (auto simp: gate_passed_def obstacle_def game_of_def Let_def split: option.splits)

lemma same_server_with_finalizers: "same_server s (with_finalizers fs s)"
  by (auto simp: same_server_def with_finalizers_def)

lemma obstacle_same:
  assumes "same_server s s'" and "cl_gamedefs v' = cl_gamedefs v"
  shows "obstacle L it v' s' = obstacle L it v s"
  unfolding obstacle_def config_check_def not_ready_error_def same_server_simps [OF assms(1)] assms(2) ..

lemma game_of_same: "same_server s s' \<Longrightarrow> cl_gamedefs v' = cl_gamedefs v \<Longrightarrow> game_of v' s' = game_of v s"
  by (simp add: game_of_def same_server_simps)

lemma observed_state_put_server [simp]: "observed_state (put_server k ox v) s = observed_state v s"
  by (simp add: observed_state_def put_server_def split: option.split)

lemma observed_state_same:
  assumes "same_server s s'"
  shows "observed_state v s' = observed_state v s"
  unfolding observed_state_def pod_key_def same_server_simps [OF assms] ..

lemma put_server_games [simp]: "cl_gamedefs (put_server k ox v) = cl_gamedefs v"
  by (simp add: put_server_def)

lemma children_accepted_cong:
  "children v' = children v \<Longrightarrow> children_accepted acc_sts acc_svc acc_pvc L it v' s gd =
     children_accepted acc_sts acc_svc acc_pvc L it v s gd"
  by (simp add: children_accepted_def children_def cong: option.case_cong)

lemma children_reconciled_cong_left:
  "children v' = children v \<Longrightarrow> children_reconciled L it s gd v' v'' = children_reconciled L it s gd v v''"
  by (simp add: children_reconciled_def children_def cong: option.case_cong)

context reliable_api_server begin

lemma fresh_converges:
  assumes s: "cl_servers (view w) req = Some server"
    and live: "om_deletionTimestamp (server_meta server) = None"
    and fresh: "FinalizerName \<notin> set (om_finalizers (server_meta server))"
    and ob: "obstacle L it (view w) server = None"
    and acc: "children_accepted acc_sts acc_svc acc_pvc L it (view w) server (game_of (view w) server)"
  shows "\<exists>w1 res w2 s2. Reconcile L it0 K req w = ((requeue_now, None), w1) \<and>
     Reconcile L it K req w1 = ((res, None), w2) \<and>
     children_reconciled L it server (game_of (view w) server) (view w) (view w2) \<and>
     cl_servers (view w2) req = Some s2 \<and> same_server server s2 \<and>
     FinalizerName \<in> set (om_finalizers (server_meta s2)) \<and>
     st_state (server_status s2) = observed_state (view w2) server \<and>
     res = (if observed_state (view w2) server = ServerStateRunning then no_result else requeue_after 10)"
proof -
  let ?s1 = "with_finalizers (om_finalizers (server_meta server) @ [FinalizerName]) server"
  note same = same_server_with_finalizers [of server]
  obtain w1 where r1: "Reconcile L it0 K req w = ((requeue_now, None), w1)"
    and v1: "view w1 = put_server req (Some ?s1) (view w)"
    using Reconcile_lifecycle [of w req requeue_now "Some ?s1" L it0] s live fresh
    by (auto simp: lifecycle_def)
  have s1: "cl_servers (view w1) req = Some ?s1" by (simp add: v1 put_server_def)
  have games: "cl_gamedefs (view w1) = cl_gamedefs (view w)" "children (view w1) = children (view w)"
    by (simp_all add: v1)
  have gd: "game_of (view w1) ?s1 = game_of (view w) server" by (rule game_of_same [OF same games(1)])
  have "om_deletionTimestamp (server_meta ?s1) = None" "FinalizerName \<in> set (om_finalizers (server_meta ?s1))"
    using live by (simp_all add: with_finalizers_def)
  moreover have "obstacle L it (view w1) ?s1 = None" using obstacle_same [OF same games(1)] ob by simp
  moreover have "children_accepted acc_sts acc_svc acc_pvc L it (view w1) ?s1 (game_of (view w1) ?s1)"
    using acc unfolding gd children_accepted_same [OF same] children_accepted_cong [OF games(2)] .
  ultimately obtain now w2 v where r2: "Reconcile L it K req w1 =
       ((if observed_state v ?s1 = ServerStateRunning then no_result else requeue_after 10, None), w2)"
    "view w2 = put_server req (Some (observed_server v now ?s1)) v"
    "children_reconciled L it ?s1 (game_of (view w1) ?s1) (view w1) v"
    using live_converges [OF s1, of L it] by blast
  let ?s2 = "observed_server v now ?s1"
  let ?res = "if observed_state (view w2) server = ServerStateRunning then no_result else requeue_after 10"
  have st: "observed_state v ?s1 = observed_state (view w2) server"
    using r2(2) observed_state_same [OF same] by simp
  have ch: "children (view w2) = children v" using r2(2) by simp
  have "children_reconciled L it server (game_of (view w) server) (view w) (view w2)"
    using r2(3) unfolding gd children_reconciled_same [OF same] children_reconciled_cong_left [OF games(2)]
      children_reconciled_cong [OF ch] .
  moreover have "same_server server ?s2"
    by (auto simp: same_server_def with_finalizers_def)
  moreover have "cl_servers (view w2) req = Some ?s2"
    by (simp add: r2(2) put_server_def)
  moreover have "FinalizerName \<in> set (om_finalizers (server_meta ?s2))"
    by (simp add: with_finalizers_def)
  moreover have "st_state (server_status ?s2) = observed_state (view w2) server"
    by (simp only: observed_server_simps st)
  moreover have "Reconcile L it K req w1 = ((?res, None), w2)"
    using r2(1) by (simp only: st)
  ultimately show ?thesis using r1 by blast
qed

text \<open>A StatefulSet with another selector stops the reconciliation of the server for good.\<close>

lemma Reconcile_stuck:
  assumes s: "cl_servers (view w) req = Some server"
    and "om_deletionTimestamp (server_meta server) = None"
    and "FinalizerName \<in> set (om_finalizers (server_meta server))"
    and "obstacle L it (view w) server = None"
    and cm: "cm_ownable server (cl_configmaps (view w) (cm_key_of server))"
    and pvc: "\<And>d. PVC_Build L (NewPVCBuilder server (game_of (view w) server)) = Some d \<Longrightarrow>
           accepted_pvc acc_pvc d (cl_pvcs (view w) (pvc_key_of server))"
    and sts: "cl_statefulsets (view w) req = Some x"
      "map_of (sts_selector (sts_spec x)) \<noteq>
         map_of (sts_labels (NewStatefulSetBuilder server (game_of (view w) server)))"
  shows "\<exists>t now w'. Reconcile L it K req w = ((no_result, Some (PlainError t)), w') \<and>
     cl_servers (view w') req = Some (error_status ''StatefulSet'' (PlainError t) now server) \<and>
     cl_statefulsets (view w') = cl_statefulsets (view w) \<and> cl_services (view w') = cl_services (view w)"
proof -
  let ?gd = "game_of (view w) server"
  have k: "child_key server = req" using servers_keyed [OF s] by simp
  obtain w0 where v0: "view w0 = view w" and r: "Reconcile L it K req w = reconcileChildren L it K server ?gd w0"
    by (rule Reconcile_passes [OF assms(1-4)])
  obtain w1 where 1: "reconcileConfigMap K server w0 = (None, w1)" using cm_returns cm v0 by metis
  have v1: "cl_pvcs (view w1) = cl_pvcs (view w)" "cl_statefulsets (view w1) = cl_statefulsets (view w)"
    "cl_services (view w1) = cl_services (view w)" "cl_servers (view w1) = cl_servers (view w)"
    using cm_reconciled [OF 1] 1 v0 by (auto simp: put_defs reconcileConfigMap_def split: if_splits)
  obtain w2 where 2: "reconcilePVC L K server ?gd w1 = (None, w2)"
    using pvc_returns [of L server ?gd w1] pvc v1 by auto
  have v2: "cl_statefulsets (view w2) = cl_statefulsets (view w)" "cl_services (view w2) = cl_services (view w)"
    "cl_servers (view w2) = cl_servers (view w)"
    using pvc_reconciled [OF 2] 2 v1
    by (cases "PVC_Build L (NewPVCBuilder server ?gd)"; auto simp: put_defs reconcilePVC_def)+
  obtain t w3 where 3: "reconcileStatefulSet L it K server ?gd w2 = (Some (PlainError t), w3)"
    using sts_refused [of w2 server x ?gd L it] sts v2 k by auto
  note v3 = sts_not_reconciled [OF 3]
  obtain now w4 where e: "setErrorStatus K server ''StatefulSet'' (PlainError t) w3 = ((no_result, Some (PlainError t)), w4)"
    and v4: "view w4 = put_server req (Some (error_status ''StatefulSet'' (PlainError t) now server)) (view w3)"
    using setErrorStatus_written [of w3 server "''StatefulSet''" "PlainError t"] s k v2 v3 by auto
  have "reconcileChildren L it K server ?gd w0 = ((no_result, Some (PlainError t)), w4)"
    using 1 2 3 e by (simp add: reconcileChildren_def)
  with r v2 v3 v4 show ?thesis by (auto simp: put_server_def)
qed

end

context api_server begin

lemma found_servers:
  assumes "findSteamServersForGameDef K g w = (ks, w')" and "k_server_list K w = (Inr xs, w')"
  shows "set ks = {k. \<exists>s. cl_servers (view w) k = Some s \<and>
                        ss_gameDefinition (server_spec s) = om_name (gamedef_meta g)}"
proof -
  have xs: "s \<in> set xs \<longleftrightarrow> cl_servers (view w) (child_key s) = Some s" for s
    using list_done [OF assms(2)] by auto
  have "ks = map (\<lambda>s. child_key s)
      (filter (\<lambda>s. ss_gameDefinition (server_spec s) = om_name (gamedef_meta g)) xs)"
    using assms by (simp add: findSteamServersForGameDef_def)
  then have "set ks = child_key ` {s. cl_servers (view w) (child_key s) = Some s \<and>
      ss_gameDefinition (server_spec s) = om_name (gamedef_meta g)}"
    using xs by auto
  moreover have key: "cl_servers (view w) k = Some s \<Longrightarrow> child_key s = k" for k s
    using servers_keyed by simp
  ultimately show ?thesis by (auto simp: image_iff dest: key)
qed

end

end
