(* ===== verification/Cluster_Runs.thy ===== *)
theory Cluster_Runs
  imports Reconcile_Progress
begin

text \<open>
  The operator at work: the states a cluster can get into when the two reconcilers run in any order,
  any of their calls may fail, and users, other controllers and Kubernetes itself change the cluster
  between them.  The invariants are proved for every write of the reconcilers, so they hold in every
  cluster that can be reached.
\<close>

section \<open>The environment\<close>

text \<open>The controllers that own one of the children in the cluster.\<close>

definition child_owners :: "cluster \<Rightarrow> string set" where
  "child_owners v =
     (\<Union>t\<in>ran (cl_statefulsets v). controllers (sts_meta t)) \<union>
     (\<Union>y\<in>ran (cl_services v). controllers (svc_meta y)) \<union>
     (\<Union>p\<in>ran (cl_pvcs v). controllers (pvc_meta p)) \<union>
     (\<Union>c\<in>ran (cl_configmaps v). controllers (cm_meta c))"

definition unset_gamedef_status :: game_definition_status where
  "unset_gamedef_status = \<lparr>gds_ready = False, gds_message = [], gds_conditions = []\<rparr>"

text \<open>
  What happens to the cluster besides the reconcilers.  A new object has no status, and a new server
  a uid of its own.  An edit leaves the metadata but for the finalizers of others.  A deletion marks a
  server that has finalizers.  Kubernetes reports on StatefulSets, Services and pods and collects
  children; objects without a controller belong to somebody else, who may do with them what they like.
\<close>

inductive env_step :: "cluster \<Rightarrow> cluster \<Rightarrow> bool" where
  create_server: "cl_servers v (server_key s) = None \<Longrightarrow> om_deletionTimestamp (server_meta s) = None \<Longrightarrow>
     server_status s = unset_status \<Longrightarrow> om_uid (server_meta s) \<notin> child_owners v \<Longrightarrow>
     (\<forall>s'\<in>ran (cl_servers v). om_uid (server_meta s') \<noteq> om_uid (server_meta s)) \<Longrightarrow>
     env_step v (put_server (server_key s) (Some s) v)"
| edit_server: "cl_servers v k = Some s \<Longrightarrow> (FinalizerName \<in> set fs) = (FinalizerName \<in> set (om_finalizers (server_meta s))) \<Longrightarrow>
     env_step v (put_server k (Some (s\<lparr>server_spec := spec,
       server_meta := (server_meta s)\<lparr>om_finalizers := fs\<rparr>\<rparr>)) v)"
| mark_server: "cl_servers v k = Some s \<Longrightarrow>
     env_step v (put_server k (Some (s\<lparr>server_meta := (server_meta s)\<lparr>om_deletionTimestamp := Some t\<rparr>\<rparr>)) v)"
| drop_server: "cl_servers v k = Some s \<Longrightarrow> om_finalizers (server_meta s) = [] \<Longrightarrow>
     env_step v (put_server k None v)"
| create_gamedef: "cl_gamedefs v (gamedef_key g) = None \<Longrightarrow> gamedef_status g = unset_gamedef_status \<Longrightarrow>
     env_step v (put_gamedef (gamedef_key g) (Some g) v)"
| edit_gamedef: "cl_gamedefs v k = Some g \<Longrightarrow>
     env_step v (put_gamedef k (Some (g\<lparr>gamedef_spec := gspec\<rparr>)) v)"
| drop_gamedef: "env_step v (put_gamedef k None v)"
| sts_status: "cl_statefulsets v k = Some t \<Longrightarrow>
     env_step v (put_sts k (Some (t\<lparr>sts_statusReplicas := m, sts_readyReplicas := n\<rparr>)) v)"
| svc_status: "cl_services v k = Some y \<Longrightarrow> svc_declared y' = svc_declared y \<Longrightarrow>
     env_step v (put_svc k (Some y') v)"
| pods: "env_step v (v\<lparr>cl_pods := ps\<rparr>)"
| drop_sts: "env_step v (put_sts k None v)"
| drop_svc: "env_step v (put_svc k None v)"
| drop_pvc: "env_step v (put_pvc k None v)"
| drop_cm: "env_step v (put_cm k None v)"
| foreign_sts: "\<forall>t'. cl_statefulsets v (sts_key t) = Some t' \<longrightarrow> controllers (sts_meta t') = {} \<Longrightarrow>
     controllers (sts_meta t) = {} \<Longrightarrow> env_step v (put_sts (sts_key t) (Some t) v)"
| foreign_svc: "\<forall>y'. cl_services v (svc_key y) = Some y' \<longrightarrow> controllers (svc_meta y') = {} \<Longrightarrow>
     controllers (svc_meta y) = {} \<Longrightarrow> env_step v (put_svc (svc_key y) (Some y) v)"
| foreign_pvc: "\<forall>p'. cl_pvcs v (pvc_key p) = Some p' \<longrightarrow> controllers (pvc_meta p') = {} \<Longrightarrow>
     controllers (pvc_meta p) = {} \<Longrightarrow> env_step v (put_pvc (pvc_key p) (Some p) v)"
| foreign_cm: "\<forall>c'. cl_configmaps v (cm_key c) = Some c' \<longrightarrow> controllers (cm_meta c') = {} \<Longrightarrow>
     controllers (cm_meta c) = {} \<Longrightarrow> env_step v (put_cm (cm_key c) (Some c) v)"

section \<open>The system\<close>

text \<open>
  A step of the system is a run of one of the reconcilers, on any key and with any order of the map
  iterations, or a step of the environment, after which nothing is known of the world but the cluster.
\<close>

inductive system_step :: "golib \<Rightarrow> 'w kube \<Rightarrow> ('w \<Rightarrow> cluster) \<Rightarrow> 'w \<Rightarrow> 'w \<Rightarrow> bool"
  for L K view where
  reconcile_server: "permuting it \<Longrightarrow> Reconcile L it K req w = (out, w') \<Longrightarrow> system_step L K view w w'"
| reconcile_gamedef: "permuting it \<Longrightarrow> GameDefinition_Reconcile it K req w = (out, w') \<Longrightarrow>
     system_step L K view w w'"
| environment: "env_step (view w) (view w') \<Longrightarrow> system_step L K view w w'"

text \<open>The operator is installed on a cluster that has none of its resources yet.\<close>

definition initial_cluster :: "cluster \<Rightarrow> bool" where
  "initial_cluster v \<longleftrightarrow> cl_servers v = Map.empty \<and> cl_gamedefs v = Map.empty \<and> child_owners v = {}"

text \<open>A run: the worlds the system has been in, the present one first.\<close>

inductive run :: "golib \<Rightarrow> 'w kube \<Rightarrow> ('w \<Rightarrow> cluster) \<Rightarrow> 'w list \<Rightarrow> bool"
  for L K view where
  start: "initial_cluster (view w) \<Longrightarrow> run L K view [w]"
| step: "run L K view (w # ws) \<Longrightarrow> system_step L K view w w' \<Longrightarrow> run L K view (w' # w # ws)"

inductive_cases run_Cons: "run L K view (w # ws)"

section \<open>Invariants\<close>

text \<open>
  A property of the cluster and of the clusters the run has gone through is an invariant when it holds
  at the start and is kept by every write of the reconcilers and by the environment.  A write to a
  child is made for a server, and with a game, that were in the cluster when the reconciliation began.
\<close>

locale cluster_invariant =
  fixes L :: golib and I :: "cluster set \<Rightarrow> cluster \<Rightarrow> bool"
  assumes initially: "initial_cluster v \<Longrightarrow> I H v"
    and monotone: "I H v \<Longrightarrow> H \<subseteq> H' \<Longrightarrow> I H' v"
    and env_kept: "I H v \<Longrightarrow> env_step v v' \<Longrightarrow> I H v'"
    and child_kept: "I H v \<Longrightarrow> v0 \<in> H \<Longrightarrow> cl_servers v0 (child_key server) = Some server \<Longrightarrow>
           permuting it \<Longrightarrow> gate_passed it v0 server gd \<Longrightarrow> cl_servers v = cl_servers v0 \<Longrightarrow>
           child_write L it server gd v v' \<Longrightarrow> I H v'"
    and server_kept: "I H v \<Longrightarrow> cl_servers v k = Some old \<Longrightarrow> server_step old ox \<Longrightarrow> I H (put_server k ox v)"
    and gamedef_kept: "I H v \<Longrightarrow> v \<in> H \<Longrightarrow> permuting it \<Longrightarrow> cl_gamedefs v k = Some g \<Longrightarrow>
           I H (put_gamedef k (Some (verdict it g)) v)"
begin

lemma change_kept: "I H v \<Longrightarrow> server_change k v v' \<Longrightarrow> I H v'"
  by (auto simp: server_change_def intro: server_kept)

lemma children_kept:
  assumes "(child_write L it server gd)\<^sup>*\<^sup>* v0 v" and "I H v0" and "v0 \<in> H"
    and "cl_servers v0 (child_key server) = Some server" and "permuting it" and "gate_passed it v0 server gd"
  shows "I H v"
  using assms(1)
proof (induction rule: rtranclp_induct)
  case base
  then show ?case by (rule assms(2))
next
  case (step v v')
  with child_writes_own [OF step(1)] assms show ?case by (auto intro: child_kept)
qed

lemma step_kept:
  assumes api: "api_server K view admit_svc merge_svc admit_pvc"
    and "system_step L K view w w'" and "I H (view w)" and "view w \<in> H"
  shows "I H (view w')"
  using assms(2)
proof (cases rule: system_step.cases)
  case (reconcile_server it req out)
  show ?thesis
  proof (cases rule: api_server.Reconcile_cases [OF api reconcile_server(2), case_names server_only children])
    case server_only
    show ?thesis by (rule change_kept [OF assms(3) server_only(1)])
  next
    case (children server gd w1)
    from api_server.reconcileChildren_writes [OF api children(5)] children
    obtain v where "(child_write L it server gd)\<^sup>*\<^sup>* (view w) v" "server_change req v (view w')"
      by auto
    with children children_kept [of it server gd "view w" v H] reconcile_server(1) assms(3,4)
    show ?thesis by (auto intro: change_kept)
  qed
next
  case (reconcile_gamedef it req out)
  with api_server.gamedef_effect [OF api reconcile_gamedef(2)] assms(3,4) show ?thesis
    by (auto intro: gamedef_kept)
next
  case environment
  with assms(3) show ?thesis by (rule env_kept)
qed

lemma run_kept:
  assumes "api_server K view admit_svc merge_svc admit_pvc" and "run L K view ws"
  shows "I (view ` set ws) (view (hd ws))"
  using assms(2)
proof (induction rule: run.induct)
  case (start w)
  then show ?case by (simp add: initially)
next
  case (step w ws w')
  then have "I (view ` set (w # ws)) (view w')"
    by (intro step_kept [OF assms(1) step(2)]) auto
  then have "I (view ` set (w' # w # ws)) (view w')" by (rule monotone) auto
  then show ?case by simp
qed

end

section \<open>Who owns the children\<close>

lemma ran_upd_None: "ran (m(k := None)) \<subseteq> ran m"
  by (auto simp: ran_def)

lemma ran_upd_Some: "ran (m(k \<mapsto> x)) \<subseteq> insert x (ran m)"
  by (auto simp: ran_def)

text \<open>A write of one child adds at most the controllers of the child that is written.\<close>

lemma child_owners_puts:
  "child_owners (put_server k os v) = child_owners v"
  "child_owners (put_gamedef k og v) = child_owners v"
  "child_owners (v\<lparr>cl_pods := ps\<rparr>) = child_owners v"
  "child_owners (put_sts k None v) \<subseteq> child_owners v"
  "child_owners (put_svc k None v) \<subseteq> child_owners v"
  "child_owners (put_pvc k None v) \<subseteq> child_owners v"
  "child_owners (put_cm k None v) \<subseteq> child_owners v"
  "child_owners (put_sts k (Some t) v) \<subseteq> controllers (sts_meta t) \<union> child_owners v"
  "child_owners (put_svc k (Some y) v) \<subseteq> controllers (svc_meta y) \<union> child_owners v"
  "child_owners (put_pvc k (Some p) v) \<subseteq> controllers (pvc_meta p) \<union> child_owners v"
  "child_owners (put_cm k (Some c) v) \<subseteq> controllers (cm_meta c) \<union> child_owners v"
proof -
  show "child_owners (put_server k os v) = child_owners v"
    "child_owners (put_gamedef k og v) = child_owners v"
    "child_owners (v\<lparr>cl_pods := ps\<rparr>) = child_owners v"
    by (simp_all add: child_owners_def put_defs)
  show "child_owners (put_sts k None v) \<subseteq> child_owners v"
    using ran_upd_None [of "cl_statefulsets v" k] by (auto simp: child_owners_def put_defs)
  show "child_owners (put_svc k None v) \<subseteq> child_owners v"
    using ran_upd_None [of "cl_services v" k] by (auto simp: child_owners_def put_defs)
  show "child_owners (put_pvc k None v) \<subseteq> child_owners v"
    using ran_upd_None [of "cl_pvcs v" k] by (auto simp: child_owners_def put_defs)
  show "child_owners (put_cm k None v) \<subseteq> child_owners v"
    using ran_upd_None [of "cl_configmaps v" k] by (auto simp: child_owners_def put_defs)
  show "child_owners (put_sts k (Some t) v) \<subseteq> controllers (sts_meta t) \<union> child_owners v"
    using ran_upd_Some [of "cl_statefulsets v" k t] by (auto simp: child_owners_def put_defs)
  show "child_owners (put_svc k (Some y) v) \<subseteq> controllers (svc_meta y) \<union> child_owners v"
    using ran_upd_Some [of "cl_services v" k y] by (auto simp: child_owners_def put_defs)
  show "child_owners (put_pvc k (Some p) v) \<subseteq> controllers (pvc_meta p) \<union> child_owners v"
    using ran_upd_Some [of "cl_pvcs v" k p] by (auto simp: child_owners_def put_defs)
  show "child_owners (put_cm k (Some c) v) \<subseteq> controllers (cm_meta c) \<union> child_owners v"
    using ran_upd_Some [of "cl_configmaps v" k c] by (auto simp: child_owners_def put_defs)
qed

lemma child_owners_there:
  "cl_statefulsets v k = Some t \<Longrightarrow> controllers (sts_meta t) \<subseteq> child_owners v"
  "cl_services v k = Some y \<Longrightarrow> controllers (svc_meta y) \<subseteq> child_owners v"
  "cl_pvcs v k = Some p \<Longrightarrow> controllers (pvc_meta p) \<subseteq> child_owners v"
  "cl_configmaps v k = Some c \<Longrightarrow> controllers (cm_meta c) \<subseteq> child_owners v"
  by (auto simp: child_owners_def intro: ranI)

text \<open>The reconciler makes nobody but the server the owner of a child.\<close>

lemma ensured_controllers:
  "ensured_sts s d old t \<Longrightarrow> controllers (sts_meta t) \<subseteq>
     insert (om_uid (server_meta s)) (case old of None \<Rightarrow> {} | Some t0 \<Rightarrow> controllers (sts_meta t0))"
  "ensured_svc s e olde y \<Longrightarrow> controllers (svc_meta y) \<subseteq>
     insert (om_uid (server_meta s)) (case olde of None \<Rightarrow> {} | Some y0 \<Rightarrow> controllers (svc_meta y0))"
  "ensured_pvc s f oldp p \<Longrightarrow> controllers (pvc_meta p) \<subseteq>
     insert (om_uid (server_meta s)) (case oldp of None \<Rightarrow> {} | Some p0 \<Rightarrow> controllers (pvc_meta p0))"
  "ensured_cm s oldc c \<Longrightarrow> controllers (cm_meta c) \<subseteq>
     insert (om_uid (server_meta s)) (case oldc of None \<Rightarrow> {} | Some c0 \<Rightarrow> controllers (cm_meta c0))"
proof -
  show "controllers (sts_meta t) \<subseteq>
      insert (om_uid (server_meta s)) (case old of None \<Rightarrow> {} | Some t0 \<Rightarrow> controllers (sts_meta t0))"
    if "ensured_sts s d old t"
    using that by (auto simp: ensured_sts_def sole_controller_def split: option.splits)
  show "controllers (svc_meta y) \<subseteq>
      insert (om_uid (server_meta s)) (case olde of None \<Rightarrow> {} | Some y0 \<Rightarrow> controllers (svc_meta y0))"
    if "ensured_svc s e olde y"
    using that by (auto simp: ensured_svc_def sole_controller_def dest: svc_declared_eqD(1) split: option.splits)
  show "controllers (pvc_meta p) \<subseteq>
      insert (om_uid (server_meta s)) (case oldp of None \<Rightarrow> {} | Some p0 \<Rightarrow> controllers (pvc_meta p0))"
    if "ensured_pvc s f oldp p"
    using that
    by (auto simp: ensured_pvc_def sole_controller_def dest: pvc_declared_meta(4) split: option.splits if_splits)
  show "controllers (cm_meta c) \<subseteq>
      insert (om_uid (server_meta s)) (case oldc of None \<Rightarrow> {} | Some c0 \<Rightarrow> controllers (cm_meta c0))"
    if "ensured_cm s oldc c"
    using that by (simp add: ensured_cm_def)
qed

lemma child_write_owners:
  assumes "child_write L it server gd v v'"
  shows "child_owners v' \<subseteq> insert (om_uid (server_meta server)) (child_owners v)"
  using assms
proof (cases rule: child_write.cases)
  case (write_cm c)
  from ensured_controllers(4) [OF write_cm(3)] child_owners_puts(11) [of "cm_key_of server" c v] write_cm(1)
  show ?thesis by (auto dest!: child_owners_there(4) split: option.splits)
next
  case (write_pvc d p)
  from ensured_controllers(3) [OF write_pvc(3)] child_owners_puts(10) [of "pvc_key_of server" p v] write_pvc(1)
  show ?thesis by (auto dest!: child_owners_there(3) split: option.splits)
next
  case (write_sts t)
  from ensured_controllers(1) [OF write_sts(2)] child_owners_puts(8) [of "child_key server" t v] write_sts(1)
  show ?thesis by (auto dest!: child_owners_there(1) split: option.splits)
next
  case (write_svc y)
  from ensured_controllers(2) [OF write_svc(2)] child_owners_puts(9) [of "child_key server" y v] write_svc(1)
  show ?thesis by (auto dest!: child_owners_there(2) split: option.splits)
qed

section \<open>The finalizer protects the owner of children\<close>

text \<open>
  Servers are told apart by their uid, and a server that owns a child has the finalizer unless it is
  being deleted.
\<close>

definition owners_protected :: "cluster \<Rightarrow> bool" where
  "owners_protected v \<longleftrightarrow>
     (\<forall>k k' s s'. cl_servers v k = Some s \<and> cl_servers v k' = Some s' \<and>
        om_uid (server_meta s) = om_uid (server_meta s') \<longrightarrow> k = k') \<and>
     (\<forall>k s. cl_servers v k = Some s \<and> om_uid (server_meta s) \<in> child_owners v \<and>
        om_deletionTimestamp (server_meta s) = None \<longrightarrow> FinalizerName \<in> set (om_finalizers (server_meta s)))"

lemma owners_protectedI:
  assumes "owners_protected v" and "cl_servers v' = cl_servers v" and "child_owners v' \<subseteq> child_owners v"
  shows "owners_protected v'"
  using assms unfolding owners_protected_def by (metis subsetD)

lemma put_server_at: "cl_servers (put_server k os v) = (cl_servers v)(k := os)"
  by (simp add: put_server_def)

text \<open>A server that is replaced keeps its uid; it is deleted, or protected as it was.\<close>

lemma owners_protected_replace:
  assumes "owners_protected v" and "cl_servers v k = Some s"
    and "om_uid (server_meta s') = om_uid (server_meta s)"
    and "om_deletionTimestamp (server_meta s') = None \<Longrightarrow>
           om_deletionTimestamp (server_meta s) = None \<and>
           (FinalizerName \<in> set (om_finalizers (server_meta s)) \<longrightarrow> FinalizerName \<in> set (om_finalizers (server_meta s')))"
  shows "owners_protected (put_server k (Some s') v)"
  using assms unfolding owners_protected_def child_owners_puts put_server_at fun_upd_apply
  by (smt (verit) option.inject)

lemma owners_protected_drop: "owners_protected v \<Longrightarrow> owners_protected (put_server k None v)"
  unfolding owners_protected_def child_owners_puts put_server_at by auto

lemma owners_protected_create:
  assumes "owners_protected v" and "om_uid (server_meta s) \<notin> child_owners v"
    and "\<forall>s'\<in>ran (cl_servers v). om_uid (server_meta s') \<noteq> om_uid (server_meta s)"
  shows "owners_protected (put_server k (Some s) v)"
  using assms unfolding owners_protected_def child_owners_puts put_server_at
  by (auto simp: ran_def split: if_splits)

lemma put_others_servers: "cl_servers (put_gamedef k og v) = cl_servers v" "cl_servers (v\<lparr>cl_pods := ps\<rparr>) = cl_servers v"
  by (simp_all add: put_gamedef_def)

lemma owners_protected_removed:
  assumes "owners_protected v"
  shows "owners_protected (put_gamedef k og v)" "owners_protected (v\<lparr>cl_pods := ps\<rparr>)"
    "owners_protected (put_sts k None v)" "owners_protected (put_svc k None v)"
    "owners_protected (put_pvc k None v)" "owners_protected (put_cm k None v)"
  by (rule owners_protectedI [OF assms];
      use child_owners_puts [where v = v] in \<open>simp add: put_others_servers\<close>)+

lemma owners_protected_puts:
  assumes "owners_protected v"
  shows "controllers (sts_meta t) \<subseteq> child_owners v \<Longrightarrow> owners_protected (put_sts k (Some t) v)"
    and "controllers (svc_meta y) \<subseteq> child_owners v \<Longrightarrow> owners_protected (put_svc k (Some y) v)"
    and "controllers (pvc_meta p) \<subseteq> child_owners v \<Longrightarrow> owners_protected (put_pvc k (Some p) v)"
    and "controllers (cm_meta c) \<subseteq> child_owners v \<Longrightarrow> owners_protected (put_cm k (Some c) v)"
  using child_owners_puts(8) [of k t v] child_owners_puts(9) [of k y v]
    child_owners_puts(10) [of k p v] child_owners_puts(11) [of k c v]
  by (simp_all add: owners_protectedI [OF assms] subset_trans le_supI)

lemma owners_protected_env:
  assumes "owners_protected v" and "env_step v v'"
  shows "owners_protected v'"
  using assms(2)
proof (cases rule: env_step.cases)
  case (create_server s)
  with assms(1) show ?thesis by (simp add: owners_protected_create)
next
  case (edit_server k s fs spec)
  show ?thesis
    unfolding edit_server(1) by (rule owners_protected_replace [OF assms(1) edit_server(2)]) (simp_all add: edit_server(3))
next
  case (mark_server k s t)
  show ?thesis unfolding mark_server(1) by (rule owners_protected_replace [OF assms(1) mark_server(2)]) simp_all
next
  case (drop_server k s)
  with assms(1) show ?thesis by (simp add: owners_protected_drop)
next
  case (sts_status k t m n)
  show ?thesis
    unfolding sts_status(1) by (rule owners_protected_puts(1) [OF assms(1)]) (simp add: child_owners_there(1) [OF sts_status(2)])
next
  case (svc_status k y y')
  show ?thesis
    unfolding svc_status(1) by (rule owners_protected_puts(2) [OF assms(1)])
      (simp add: svc_declared_eqD(1) [OF svc_status(3)] child_owners_there(2) [OF svc_status(2)])
qed (simp_all add: owners_protected_removed [OF assms(1)] owners_protected_puts [OF assms(1)])

lemma owners_protected_child:
  assumes "owners_protected v" and "child_write L it server gd v v'"
    and server: "cl_servers v (child_key server) = Some server"
    and fin: "FinalizerName \<in> set (om_finalizers (server_meta server))"
  shows "owners_protected v'"
proof -
  have same: "cl_servers v' = cl_servers v" using child_write_own [OF assms(2)] by simp
  have "FinalizerName \<in> set (om_finalizers (server_meta s))"
    if s: "cl_servers v k = Some s" "om_uid (server_meta s) \<in> child_owners v'"
      "om_deletionTimestamp (server_meta s) = None" for k s
  proof (cases "om_uid (server_meta s) \<in> child_owners v")
    case True
    with assms(1) s show ?thesis by (auto simp: owners_protected_def)
  next
    case False
    with s(2) child_write_owners [OF assms(2)] have "om_uid (server_meta s) = om_uid (server_meta server)"
      by auto
    then have "k = child_key server" using assms(1) s(1) server unfolding owners_protected_def by blast
    with s(1) server fin show ?thesis by simp
  qed
  with assms(1) same show ?thesis by (simp add: owners_protected_def) blast
qed

lemma owners_protected_server:
  assumes "owners_protected v" and "cl_servers v k = Some old" and "server_step old ox"
  shows "owners_protected (put_server k ox v)"
proof (cases ox)
  case None
  with assms(1) show ?thesis by (simp add: owners_protected_drop)
next
  case (Some s)
  with assms(3) obtain fs where "server_meta s = (server_meta old)\<lparr>om_finalizers := fs\<rparr>"
    "om_deletionTimestamp (server_meta old) = None \<Longrightarrow> set (om_finalizers (server_meta old)) \<subseteq> set fs"
    by (auto simp: server_step_def split: if_splits)
  with Some show ?thesis by (auto intro!: owners_protected_replace [OF assms(1,2)])
qed

interpretation protected: cluster_invariant L "\<lambda>_ v. owners_protected v" for L
proof (unfold_locales, goal_cases)
  case (1 v H)
  then show ?case by (simp add: initial_cluster_def owners_protected_def)
next
  case (4 H v v0 server it gd v')
  then show ?case by (intro owners_protected_child [OF 4(1,7)]) (auto simp: gate_passed_def)
next
  case (6 H v it k g)
  then show ?case by (simp add: owners_protected_removed)
qed (blast intro: owners_protected_env owners_protected_server)+

section \<open>Where StatefulSets come from\<close>

text \<open>The spec was built for a server under that name that had passed the gate in one of the clusters.\<close>

definition admitted_before :: "golib \<Rightarrow> cluster set \<Rightarrow> object_key \<Rightarrow> stateful_set \<Rightarrow> bool" where
  "admitted_before L H k t \<longleftrightarrow>
     (\<exists>v0\<in>H. \<exists>server gd it. permuting it \<and> cl_servers v0 k = Some server \<and> gate_passed it v0 server gd \<and>
        sts_spec t = sts_spec (StatefulSet_Build L it (NewStatefulSetBuilder server gd)))"

definition deployed_admitted :: "golib \<Rightarrow> cluster set \<Rightarrow> cluster \<Rightarrow> bool" where
  "deployed_admitted L H v \<longleftrightarrow>
     (\<forall>k t. cl_statefulsets v k = Some t \<and> controllers (sts_meta t) \<noteq> {} \<longrightarrow> admitted_before L H k t)"

lemma admitted_before_spec:
  "admitted_before L H k (t\<lparr>sts_statusReplicas := m, sts_readyReplicas := n\<rparr>) = admitted_before L H k t"
  by (simp add: admitted_before_def)

lemma put_others_sts [simp]:
  "cl_statefulsets (put_server k os v) = cl_statefulsets v" "cl_statefulsets (put_gamedef k og v) = cl_statefulsets v"
  "cl_statefulsets (put_svc k oy v) = cl_statefulsets v" "cl_statefulsets (put_pvc k op v) = cl_statefulsets v"
  "cl_statefulsets (put_cm k oc v) = cl_statefulsets v" "cl_statefulsets (v\<lparr>cl_pods := ps\<rparr>) = cl_statefulsets v"
  "cl_statefulsets (put_sts k ot v) = (cl_statefulsets v)(k := ot)"
  by (simp_all add: put_defs)

lemma deployed_admitted_put:
  assumes "deployed_admitted L H v" and "\<And>t. ot = Some t \<Longrightarrow> controllers (sts_meta t) \<noteq> {} \<Longrightarrow> admitted_before L H k t"
  shows "deployed_admitted L H (put_sts k ot v)"
  using assms by (auto simp: deployed_admitted_def)

lemma deployed_admitted_env:
  assumes "deployed_admitted L H v" and "env_step v v'"
  shows "deployed_admitted L H v'"
  using assms(2)
proof (cases rule: env_step.cases)
  case (sts_status k t m n)
  with assms(1) have "controllers (sts_meta t) \<noteq> {} \<longrightarrow> admitted_before L H k t"
    by (simp add: deployed_admitted_def)
  then show ?thesis
    unfolding sts_status(1) by (auto simp: admitted_before_spec intro!: deployed_admitted_put [OF assms(1)])
next
  case (foreign_sts t)
  then show ?thesis by (auto intro: deployed_admitted_put [OF assms(1)])
next
  case (drop_sts k)
  then show ?thesis by (auto intro: deployed_admitted_put [OF assms(1)])
qed (use assms(1) in \<open>simp_all add: deployed_admitted_def\<close>)

lemma deployed_admitted_child:
  assumes "deployed_admitted L H v" and "child_write L it server gd v v'" and "v0 \<in> H" and "permuting it"
    and "cl_servers v0 (child_key server) = Some server" and "gate_passed it v0 server gd"
  shows "deployed_admitted L H v'"
  using assms(2)
proof (cases rule: child_write.cases)
  case (write_sts t)
  then have "sts_spec t = sts_spec (StatefulSet_Build L it (NewStatefulSetBuilder server gd))"
    by (auto simp: ensured_sts_def admit_sts_def split: option.splits)
  with assms have "admitted_before L H (child_key server) t" unfolding admitted_before_def by blast
  with write_sts show ?thesis by (auto intro: deployed_admitted_put [OF assms(1)])
qed (use assms(1) in \<open>simp_all add: deployed_admitted_def\<close>)

lemma admitted_before_mono: "admitted_before L H k t \<Longrightarrow> H \<subseteq> H' \<Longrightarrow> admitted_before L H' k t"
  unfolding admitted_before_def by blast

interpretation deployed: cluster_invariant L "deployed_admitted L" for L
proof (unfold_locales, goal_cases)
  case (1 v H)
  then show ?case by (fastforce simp: initial_cluster_def child_owners_def deployed_admitted_def ran_def)
next
  case (2 H v H')
  then show ?case unfolding deployed_admitted_def by (blast intro: admitted_before_mono)
next
  case (4 H v v0 server it gd v')
  then show ?case by (blast intro: deployed_admitted_child)
qed (simp_all add: deployed_admitted_env, simp_all add: deployed_admitted_def)

section \<open>What a ready game definition has been through\<close>

definition ready_validated :: "cluster set \<Rightarrow> cluster \<Rightarrow> bool" where
  "ready_validated H v \<longleftrightarrow>
     (\<forall>k g. cl_gamedefs v k = Some g \<and> gds_ready (gamedef_status g) \<longrightarrow>
        gds_message (gamedef_status g) = validated_message \<and>
        (\<exists>v0\<in>H. \<exists>g0. cl_gamedefs v0 k = Some g0 \<and> valid_gamedef g0))"

lemma put_others_gamedefs [simp]:
  "cl_gamedefs (put_server k os v) = cl_gamedefs v" "cl_gamedefs (put_sts k ot v) = cl_gamedefs v"
  "cl_gamedefs (put_svc k oy v) = cl_gamedefs v" "cl_gamedefs (put_pvc k op v) = cl_gamedefs v"
  "cl_gamedefs (put_cm k oc v) = cl_gamedefs v" "cl_gamedefs (v\<lparr>cl_pods := ps\<rparr>) = cl_gamedefs v"
  "cl_gamedefs (put_gamedef k og v) = (cl_gamedefs v)(k := og)"
  by (simp_all add: put_defs)

lemma ready_validated_put:
  assumes "ready_validated H v"
    and "\<And>g. og = Some g \<Longrightarrow> gds_ready (gamedef_status g) \<Longrightarrow> gds_message (gamedef_status g) = validated_message \<and>
           (\<exists>v0\<in>H. \<exists>g0. cl_gamedefs v0 k = Some g0 \<and> valid_gamedef g0)"
  shows "ready_validated H (put_gamedef k og v)"
  using assms by (auto simp: ready_validated_def)

lemma ready_validated_env:
  assumes "ready_validated H v" and "env_step v v'"
  shows "ready_validated H v'"
  using assms(2)
proof (cases rule: env_step.cases)
  case (create_gamedef g)
  then show ?thesis by (auto intro!: ready_validated_put [OF assms(1)] simp: unset_gamedef_status_def)
next
  case (edit_gamedef k g gspec)
  with assms(1) have "gds_ready (gamedef_status g) \<Longrightarrow> gds_message (gamedef_status g) = validated_message \<and>
      (\<exists>v0\<in>H. \<exists>g0. cl_gamedefs v0 k = Some g0 \<and> valid_gamedef g0)"
    unfolding ready_validated_def by blast
  then show ?thesis
    unfolding edit_gamedef(1) by (intro ready_validated_put [OF assms(1)]) auto
next
  case (drop_gamedef k)
  then show ?thesis by (auto intro: ready_validated_put [OF assms(1)])
qed (use assms(1) in \<open>simp_all add: ready_validated_def\<close>)

lemma ready_validated_verdict:
  assumes "ready_validated H v" and "v \<in> H" and "permuting it" and "cl_gamedefs v k = Some g"
  shows "ready_validated H (put_gamedef k (Some (verdict it g)) v)"
proof -
  have "gds_message (gamedef_status (verdict it g)) = validated_message \<and> (\<exists>v0\<in>H. \<exists>g0. cl_gamedefs v0 k = Some g0 \<and> valid_gamedef g0)"
    if "gds_ready (gamedef_status (verdict it g))"
    using that validate_None [OF assms(3), of g] assms(2,4) by (auto simp: verdict_def split: option.splits)
  then show ?thesis by (intro ready_validated_put [OF assms(1)]) auto
qed

interpretation readiness: cluster_invariant L ready_validated for L
proof (unfold_locales, goal_cases)
  case (2 H v H')
  then show ?case unfolding ready_validated_def by blast
next
  case (4 H v v0 server it gd v')
  from child_write_own [OF 4(7)] 4(1) show ?case by (simp add: ready_validated_def only_own_def)
next
  case (6 H v it k g)
  then show ?case by (rule ready_validated_verdict)
qed (simp_all add: ready_validated_env, simp_all add: ready_validated_def initial_cluster_def)

section \<open>The status of a server\<close>

definition statuses_reported :: "cluster \<Rightarrow> bool" where
  "statuses_reported v \<longleftrightarrow>
     (\<forall>k s. cl_servers v k = Some s \<longrightarrow> server_status s = unset_status \<or> reported (server_status s))"

lemma statuses_reported_put:
  "statuses_reported v \<Longrightarrow> (\<And>s. ox = Some s \<Longrightarrow> server_status s = unset_status \<or> reported (server_status s)) \<Longrightarrow>
   statuses_reported (put_server k ox v)"
  by (auto simp: statuses_reported_def put_server_at)

lemma statuses_reported_env:
  assumes "statuses_reported v" and "env_step v v'"
  shows "statuses_reported v'"
  using assms(2)
proof (cases rule: env_step.cases)
  case (create_server s)
  then show ?thesis by (auto intro!: statuses_reported_put [OF assms(1)])
next
  case (edit_server k s fs spec)
  then show ?thesis using assms(1) by (auto simp: statuses_reported_def put_server_at)
next
  case (mark_server k s t)
  then show ?thesis using assms(1) by (auto simp: statuses_reported_def put_server_at)
next
  case (drop_server k s)
  then show ?thesis by (auto intro!: statuses_reported_put [OF assms(1)])
qed (use assms(1) in \<open>simp_all add: statuses_reported_def put_others_servers\<close>)

interpretation statuses: cluster_invariant L "\<lambda>_ v. statuses_reported v" for L
proof (unfold_locales, goal_cases)
  case (4 H v v0 server it gd v')
  from child_write_own [OF 4(7)] 4(1) show ?case by (simp add: statuses_reported_def)
next
  case (5 H v k old ox)
  then have "server_status old = unset_status \<or> reported (server_status old)"
    by (simp add: statuses_reported_def)
  with 5 show ?case by (intro statuses_reported_put) (auto simp: server_step_def)
qed (simp_all add: statuses_reported_env, simp_all add: statuses_reported_def initial_cluster_def put_others_servers)

end
