(* ===== verification/Reconcile_Properties.thy ===== *)
theory Reconcile_Properties
  imports Reconcile_Progress
begin

text \<open>
  The properties of the reconciler of servers, each applied to a small concrete cluster.
\<close>

section \<open>Sample data\<close>

text \<open>The demo's server with the finalizer, and its game after validation.\<close>

definition live_server :: steam_server where
  "live_server = with_finalizers [FinalizerName] sample_server"

definition ready_gameDef :: game_definition where
  "ready_gameDef = set_gamedef_status True validated_message demo_gameDef"

definition live_world :: sim where
  "live_world = sample_world\<lparr>sim_servers := [live_server], sim_gamedefs := [ready_gameDef]\<rparr>"

lemma sim_find_Nil [simp]: "sim_find key [] = Map.empty"
  by (simp add: sim_find_def fun_eq_iff)

lemma live_world_simps [simp]:
  "cl_servers (sim_view live_world) = [demo_server_key \<mapsto> live_server]"
  "cl_gamedefs (sim_view live_world) = [demo_gamedef_key \<mapsto> ready_gameDef]"
  "cl_statefulsets (sim_view live_world) k = None" "cl_services (sim_view live_world) k = None"
  "cl_pvcs (sim_view live_world) k = None" "cl_configmaps (sim_view live_world) k = None"
  "cl_pods (sim_view live_world) k = None"
proof -
  have "child_key live_server = demo_server_key" "gamedef_key ready_gameDef = demo_gamedef_key"
    by (simp_all add: live_server_def ready_gameDef_def) (simp add: demo_gameDef_def)
  then show "cl_servers (sim_view live_world) = [demo_server_key \<mapsto> live_server]"
    "cl_gamedefs (sim_view live_world) = [demo_gamedef_key \<mapsto> ready_gameDef]"
    by (simp_all add: sim_view_def live_world_def sample_world_def sim_find_Cons)
qed (simp_all add: sim_view_def live_world_def sample_world_def sim_find_def)

lemma live_server_simps [simp]:
  "child_key live_server = demo_server_key" "om_deletionTimestamp (server_meta live_server) = None"
  "om_finalizers (server_meta live_server) = [FinalizerName]"
  "server_spec live_server = server_spec sample_server"
  "ss_gameDefinition (server_spec sample_server) = ''valheim''"
  by (simp_all add: live_server_def) (simp_all add: with_finalizers_def demo_server_with_def new_meta_def)

lemma ready_gameDef_check:
  "gds_ready (gamedef_status ready_gameDef)" "config_check it s (Some ready_gameDef) = None"
  by (simp_all add: ready_gameDef_def config_check_def) (simp add: demo_gameDef_def)

lemma live_obstacle: "obstacle L it (sim_view live_world) live_server = None"
  by (simp add: obstacle_def ready_gameDef_check)

lemma live_game: "game_of (sim_view live_world) live_server = Some ready_gameDef"
  by (simp add: game_of_def)

lemma live_accepted:
  "children_accepted sim_acc_sts (\<lambda>_ _. True) sim_acc_pvc L it (sim_view live_world) live_server gd"
  by (simp add: children_accepted_def accepted_sample split: option.split)

lemma live_gate: "gate_passed it (sim_view live_world) live_server (Some ready_gameDef)"
  by (simp add: gate_passed_def ready_gameDef_check)

text \<open>The same cluster before the server was given the finalizer.\<close>

definition fresh_world :: sim where
  "fresh_world = live_world\<lparr>sim_servers := [sample_server]\<rparr>"

lemma fresh_world_simps [simp]:
  "cl_servers (sim_view fresh_world) = [demo_server_key \<mapsto> sample_server]"
  "cl_gamedefs (sim_view fresh_world) = [demo_gamedef_key \<mapsto> ready_gameDef]"
  "cl_statefulsets (sim_view fresh_world) k = None" "cl_services (sim_view fresh_world) k = None"
  "cl_pvcs (sim_view fresh_world) k = None" "cl_configmaps (sim_view fresh_world) k = None"
  using live_world_simps by (simp_all add: fresh_world_def sim_view_def sim_find_Cons)

text \<open>The same cluster before the game was validated.\<close>

definition unready_world :: sim where
  "unready_world = live_world\<lparr>sim_gamedefs := [demo_gameDef]\<rparr>"

lemma unready_world_simps [simp]:
  "cl_servers (sim_view unready_world) = [demo_server_key \<mapsto> live_server]"
  "cl_gamedefs (sim_view unready_world) = [demo_gamedef_key \<mapsto> demo_gameDef]"
  using live_world_simps(1)
  by (simp_all add: unready_world_def sim_view_def sim_find_Cons) (simp add: demo_gameDef_def)

lemma quoted_valheim: "quote sample_lib ''valheim'' = ''\"valheim\"''"
  by code_simp

lemma unready_obstacle:
  "obstacle L it (sim_view unready_world) live_server =
     Some (''GameDefinition'', not_ready_error L live_server demo_gameDef, True)"
  by (simp add: obstacle_def) (simp add: demo_gameDef_def)

lemma live_reconciled:
  "\<exists>out w'. Reconcile sample_lib (\<lambda>_ ks. ks) sim_kube demo_server_key live_world = (out, w') \<and>
     cl_statefulsets (sim_view w') demo_server_key \<noteq> None"
proof -
  obtain now w' v where r: "Reconcile sample_lib (\<lambda>_ ks. ks) sim_kube demo_server_key live_world =
       ((if observed_state v live_server = ServerStateRunning then no_result else requeue_after 10, None), w')"
    and v: "sim_view w' = put_server demo_server_key (Some (observed_server v now live_server)) v"
      "children_reconciled sample_lib (\<lambda>_ ks. ks) live_server (Some ready_gameDef) (sim_view live_world) v"
    using sim.live_converges [of live_world demo_server_key live_server sample_lib "\<lambda>_ ks. ks"]
    by (auto simp: live_obstacle live_accepted live_game)
  from v have "cl_statefulsets v demo_server_key \<noteq> None"
    by (auto simp: children_reconciled_def)
  then show ?thesis using r v(1) by (auto simp: put_server_def)
qed

lemma sts_Build_immutable:
  "sts_selector (sts_spec (StatefulSet_Build L it b)) = sts_labels b"
  "sts_serviceName (sts_spec (StatefulSet_Build L it b)) = server_name (sb_server b)"
  by (simp_all add: StatefulSet_Build_def Let_def)

lemma live_accepted_again:
  assumes "children_reconciled L it live_server gd (sim_view live_world) v"
  shows "children_accepted sim_acc_sts (\<lambda>_ _. True) sim_acc_pvc L it' v live_server gd"
proof -
  have "cl_configmaps v (cm_key_of live_server) = None"
    using assms by (simp add: children_reconciled_def) (simp add: demo_server_with_def)
  then show ?thesis
    using assms
    by (auto simp: children_reconciled_def children_accepted_def cm_ownable_def accepted_pvc_def
        accepted_sts_def accepted_svc_def sim_acc_sts_def sim_acc_pvc_def sts_mutable_def pvc_mutable_def
        ensured_sts_def admit_sts_def sts_Build_immutable split: option.splits)
qed

text \<open>The live server can be reconciled twice, the maps visited in two different orders.\<close>

lemma live_reconciled_twice:
  "\<exists>r1 w1 r2 w2. Reconcile sample_lib (\<lambda>_ ks. ks) sim_kube demo_server_key live_world = ((r1, None), w1) \<and>
     Reconcile sample_lib (\<lambda>_. rev) sim_kube demo_server_key w1 = ((r2, None), w2)"
proof -
  obtain r1 w1 where r1: "Reconcile sample_lib (\<lambda>_ ks. ks) sim_kube demo_server_key live_world = ((r1, None), w1)"
    using sim.live_converges [of live_world demo_server_key live_server sample_lib "\<lambda>_ ks. ks"]
    by (auto simp: live_obstacle live_accepted)
  obtain s1 where s1: "cl_servers (sim_view w1) demo_server_key = Some s1" "same_server live_server s1"
    "gate_passed (\<lambda>_ ks. ks) (sim_view w1) s1 (Some ready_gameDef)"
    "children_reconciled sample_lib (\<lambda>_ ks. ks) live_server (Some ready_gameDef) (sim_view live_world) (sim_view w1)"
    using sim.live_reconciliation [OF r1 _ live_gate] by auto
  have g1: "gate_passed (\<lambda>_. rev) (sim_view w1) s1 (Some ready_gameDef)"
    using s1(3) gate_order [OF permuting_id permuting_rev] by simp
  have acc: "children_accepted sim_acc_sts (\<lambda>_ _. True) sim_acc_pvc sample_lib (\<lambda>_. rev) (sim_view w1) s1
      (Some ready_gameDef)"
    using live_accepted_again [OF s1(4)] children_accepted_same [OF s1(2)] by simp
  obtain r2 w2 where "Reconcile sample_lib (\<lambda>_. rev) sim_kube demo_server_key w1 = ((r2, None), w2)"
    using sim.live_converges [OF s1(1), of sample_lib "\<lambda>_. rev"] g1 acc
      gate_obstacle [OF g1, of sample_lib] by (auto simp: gate_passed_def)
  with r1 show ?thesis by blast
qed

lemma sample_server_meta [simp]:
  "om_deletionTimestamp (server_meta sample_server) = None" "om_finalizers (server_meta sample_server) = []"
  by (simp_all add: demo_server_with_def)

lemma sample_fresh:
  "obstacle L it (sim_view fresh_world) sample_server = None"
  "children_accepted sim_acc_sts (\<lambda>_ _. True) sim_acc_pvc L it (sim_view fresh_world) sample_server gd"
  by (simp_all add: obstacle_def ready_gameDef_check children_accepted_def accepted_sample split: option.split)

text \<open>The live server's StatefulSet was built while the server referred to another game.\<close>

definition stuck_world :: sim where
  "stuck_world = live_world\<lparr>sim_statefulsets := [other_game_sts]\<rparr>"

lemma stuck_world_simps [simp]:
  "cl_servers (sim_view stuck_world) = [demo_server_key \<mapsto> live_server]"
  "cl_gamedefs (sim_view stuck_world) = [demo_gamedef_key \<mapsto> ready_gameDef]"
  "cl_statefulsets (sim_view stuck_world) demo_server_key = Some other_game_sts"
  "cl_pvcs (sim_view stuck_world) k = None" "cl_configmaps (sim_view stuck_world) k = None"
  using live_world_simps other_game_world_sts
  by (simp_all add: sim_view_def stuck_world_def live_world_def sample_world_def other_game_world_def)

lemma stuck_selector:
  "map_of (sts_selector (sts_spec other_game_sts)) \<noteq>
   map_of (sts_labels (NewStatefulSetBuilder live_server gd))"
proof -
  have "map_of (sts_selector (sts_spec other_game_sts)) ''boilerr.dev/game'' = Some ''satisfactory''"
    by (simp add: other_game_sts_def StatefulSet_Build_def Let_def sts_child.labels_game)
  moreover have "map_of (sts_labels (NewStatefulSetBuilder live_server gd)) ''boilerr.dev/game'' = Some ''valheim''"
    by (simp add: sts_child.labels_game)
  ultimately show ?thesis by auto
qed

text \<open>The live server finds a StatefulSet and a Service without an owner under its name.\<close>

definition foreign_sts_obj :: stateful_set where
  "foreign_sts_obj =
     (let t = StatefulSet_Build sample_lib (\<lambda>_ ks. ks) (NewStatefulSetBuilder live_server (Some ready_gameDef))
      in t\<lparr>sts_spec := (sts_spec t)\<lparr>sts_replicas := Some 3\<rparr>\<rparr>)"

lemma foreign_sts_obj_simps [simp]:
  "sts_meta foreign_sts_obj = new_meta (server_name live_server) (server_namespace live_server)
     (sts_labels (NewStatefulSetBuilder live_server (Some ready_gameDef)))"
  "sts_mutable foreign_sts_obj (t\<lparr>sts_spec := sts_spec (StatefulSet_Build sample_lib (\<lambda>_ ks. ks)
     (NewStatefulSetBuilder live_server (Some ready_gameDef))), sts_meta := m\<rparr>)"
  by (simp_all add: foreign_sts_obj_def Let_def sts_mutable_def)

definition foreign_world :: sim where
  "foreign_world = live_world
     \<lparr>sim_statefulsets := [foreign_sts_obj],
      sim_services := [Service_Build (NewServiceBuilder live_server None)]\<rparr>"

lemma foreign_world_simps [simp]:
  "cl_servers (sim_view foreign_world) = [demo_server_key \<mapsto> live_server]"
  "cl_gamedefs (sim_view foreign_world) = [demo_gamedef_key \<mapsto> ready_gameDef]"
  "cl_statefulsets (sim_view foreign_world) demo_server_key = Some foreign_sts_obj"
  "cl_services (sim_view foreign_world) demo_server_key = Some (Service_Build (NewServiceBuilder live_server None))"
  "cl_pvcs (sim_view foreign_world) k = None" "cl_configmaps (sim_view foreign_world) k = None"
  using live_world_simps
  by (simp_all add: sim_view_def foreign_world_def live_world_def sample_world_def sim_find_Cons)

lemma foreign_gate: "gate_passed it (sim_view foreign_world) live_server (Some ready_gameDef)"
  by (simp add: gate_passed_def ready_gameDef_check)

lemma foreign_reconciled:
  "\<exists>res w'. Reconcile sample_lib (\<lambda>_ ks. ks) sim_kube demo_server_key foreign_world = ((res, None), w')"
proof -
  have "obstacle sample_lib (\<lambda>_ ks. ks) (sim_view foreign_world) live_server = None"
    and "game_of (sim_view foreign_world) live_server = Some ready_gameDef"
    using gate_obstacle [OF foreign_gate] by auto
  moreover have "children_accepted sim_acc_sts (\<lambda>_ _. True) sim_acc_pvc sample_lib (\<lambda>_ ks. ks) (sim_view foreign_world)
      live_server (Some ready_gameDef)"
    by (simp add: children_accepted_def accepted_sample accepted_sts_def accepted_svc_def sim_acc_sts_def
        split: option.split)
  ultimately show ?thesis
    using sim.live_converges [of foreign_world demo_server_key live_server sample_lib "\<lambda>_ ks. ks"] by fastforce
qed

section \<open>Properties\<close>

text \<open>
  C2. Whatever calls fail, a reconciliation changes a StatefulSet, Service, claim or ConfigMap only
  for a server that is there, is not being deleted, has the finalizer and whose game, if it names one,
  is there, is ready and, when it has a schema, accepts the server's configuration.
\<close>

theorem Reconcile_gate:
  assumes "api_server K view admit_svc merge_svc admit_pvc" and "permuting it"
    and "Reconcile L it K req w = (out, w')" and "children (view w') \<noteq> children (view w)"
  shows "\<exists>server. cl_servers (view w) req = Some server \<and>
     om_deletionTimestamp (server_meta server) = None \<and>
     FinalizerName \<in> set (om_finalizers (server_meta server)) \<and>
     (ss_gameDefinition (server_spec server) = [] \<or>
      (\<exists>g. cl_gamedefs (view w) (ObjectKey [] (ss_gameDefinition (server_spec server))) = Some g \<and>
         gds_ready (gamedef_status g) \<and>
         (case gd_configSchema (gamedef_spec g) of
            None \<Rightarrow> True
          | Some schema \<Rightarrow>
              required_met (ss_config (server_spec server)) schema \<and>
              keys_known (ss_config (server_spec server)) schema \<and>
              enums_met (ss_config (server_spec server)) schema)))"
proof (cases rule: api_server.Reconcile_cases [OF assms(1,3), case_names server_only children])
  case server_only
  with assms(4) show ?thesis by (simp add: server_change_simps(1))
next
  case (children server gd w1)
  then show ?thesis
    by (auto simp: gate_passed_def config_check_def ValidateConfig_None [OF assms(2)] split: option.splits)
qed

lemma Reconcile_gate_witness:
  "\<exists>server. cl_servers (sim_view live_world) demo_server_key = Some server \<and>
     FinalizerName \<in> set (om_finalizers (server_meta server)) \<and>
     (\<exists>g. cl_gamedefs (sim_view live_world) (ObjectKey [] (ss_gameDefinition (server_spec server))) = Some g \<and>
        gds_ready (gamedef_status g))"
proof -
  obtain out w' where r: "Reconcile sample_lib (\<lambda>_ ks. ks) sim_kube demo_server_key live_world = (out, w')"
    and "cl_statefulsets (sim_view w') demo_server_key \<noteq> None"
    using live_reconciled by blast
  then have "children (sim_view w') \<noteq> children (sim_view live_world)"
    by (auto simp: children_def dest: fun_cong [of _ _ demo_server_key])
  from Reconcile_gate [OF sim_api_server permuting_id r this] show ?thesis by auto
qed

text \<open>
  C3. Whatever calls fail, a reconciliation changes no game definition and no pod, no other server,
  and no StatefulSet, Service, claim or ConfigMap but those under the server's own names.
\<close>

theorem Reconcile_isolated:
  assumes "api_server K view admit_svc merge_svc admit_pvc" and "Reconcile L it K req w = (out, w')"
  shows "only_own req (view w) (view w')"
  using assms by (rule api_server.Reconcile_own)

lemma Reconcile_isolated_witness:
  "only_own demo_server_key (sim_view live_world)
     (sim_view (snd (Reconcile sample_lib (\<lambda>_. rev) sim_kube demo_server_key live_world)))"
  by (rule Reconcile_isolated [OF sim_api_server prod.collapse [symmetric]])

text \<open>
  C4. Whatever calls fail, a reconciliation never creates a server and never changes its spec or its
  metadata but for the finalizers; it takes no finalizer away from a server that is not being deleted
  and gives up the server only if it is being deleted and no foreign finalizer is left.
\<close>

theorem Reconcile_keeps_server:
  assumes "api_server K view admit_svc merge_svc admit_pvc" and "Reconcile L it K req w = (out, w')"
  shows "cl_servers (view w') req = cl_servers (view w) req \<or>
     (\<exists>old. cl_servers (view w) req = Some old \<and> server_step old (cl_servers (view w') req))"
proof (cases rule: api_server.Reconcile_cases [OF assms, case_names server_only children])
  case server_only
  then show ?thesis by (auto simp: server_change_def put_server_def)
next
  case (children server gd w1)
  then obtain v where "cl_servers v = cl_servers (view w)" "server_change req v (view w')"
    using api_server.reconcileChildren_own [OF assms(1), of L it server gd w1 out w'] by auto
  then show ?thesis by (auto simp: server_change_def put_server_def)
qed

lemma Reconcile_keeps_server_witness:
  "\<exists>s. cl_servers (sim_view (snd (Reconcile sample_lib (\<lambda>_. rev) sim_kube demo_server_key live_world)))
     demo_server_key = Some s \<and> server_spec s = server_spec live_server"
  using Reconcile_keeps_server [OF sim_api_server prod.collapse [symmetric],
      of sample_lib "\<lambda>_. rev" demo_server_key live_world]
  by (auto simp: server_step_def split: option.splits)

text \<open>
  C1. On an API server that answers its calls and accepts the children, the reconciliation of a live
  server with nothing in its way succeeds: every child is as the builders make it, the status shows
  the resulting cluster, only the server's own objects changed, and the server is looked at again
  after ten seconds exactly when it is not running yet.
\<close>

theorem Reconcile_converges:
  assumes "reliable_api_server K view admit_svc merge_svc admit_pvc acc_server acc_sts acc_svc acc_pvc"
    and "cl_servers (view w) req = Some server"
    and "om_deletionTimestamp (server_meta server) = None"
    and "FinalizerName \<in> set (om_finalizers (server_meta server))"
    and "obstacle L it (view w) server = None"
    and "children_accepted acc_sts acc_svc acc_pvc L it (view w) server (game_of (view w) server)"
  shows "\<exists>now w' v. Reconcile L it K req w =
       ((if observed_state v server = ServerStateRunning then no_result else requeue_after 10, None), w') \<and>
     view w' = put_server req (Some (observed_server v now server)) v \<and>
     children_reconciled L it server (game_of (view w) server) (view w) v \<and>
     cl_servers v = cl_servers (view w) \<and> only_own req (view w) v"
  using assms by (rule reliable_api_server.live_converges)

lemma Reconcile_converges_witness:
  "\<exists>res w' v. Reconcile sample_lib (\<lambda>_ ks. ks) sim_kube demo_server_key live_world = ((res, None), w') \<and>
     children (sim_view w') = children v \<and>
     children_reconciled sample_lib (\<lambda>_ ks. ks) live_server (Some ready_gameDef) (sim_view live_world) v"
proof -
  obtain now w' v where r: "Reconcile sample_lib (\<lambda>_ ks. ks) sim_kube demo_server_key live_world =
       ((if observed_state v live_server = ServerStateRunning then no_result else requeue_after 10, None), w')"
    "sim_view w' = put_server demo_server_key (Some (observed_server v now live_server)) v"
    "children_reconciled sample_lib (\<lambda>_ ks. ks) live_server (game_of (sim_view live_world) live_server) (sim_view live_world) v"
    using Reconcile_converges [OF sim_reliable, of live_world demo_server_key live_server sample_lib "\<lambda>_ ks. ks"]
    by (auto simp: live_obstacle live_accepted)
  then show ?thesis unfolding live_game by auto
qed

text \<open>
  C5. On an API server that answers its calls, a live server whose game is missing, not ready or
  rejects the configuration is put in the error state with a message naming the obstacle, and nothing
  else changes but the time of the last update; the error is returned, except that for a game that is
  not ready the server is looked at again after thirty seconds.
\<close>

theorem Reconcile_reports_obstacle:
  assumes "reliable_api_server K view admit_svc merge_svc admit_pvc acc_server acc_sts acc_svc acc_pvc"
    and "cl_servers (view w) req = Some server"
    and "om_deletionTimestamp (server_meta server) = None"
    and "FinalizerName \<in> set (om_finalizers (server_meta server))"
    and "obstacle L it (view w) server = Some (resource, err, wait)"
  shows "\<exists>now w'. Reconcile L it K req w =
       ((if wait then (requeue_after 30, None) else (no_result, Some err)), w') \<and>
     view w' = put_server req (Some (server\<lparr>server_status := (server_status server)
       \<lparr>st_state := ServerStateError, st_lastUpdated := Some now,
        st_message := ''Failed to reconcile '' @ resource @ '': '' @ err_text err\<rparr>\<rparr>)) (view w)"
proof -
  have "error_status resource err now server = server\<lparr>server_status := (server_status server)
       \<lparr>st_state := ServerStateError, st_lastUpdated := Some now,
        st_message := ''Failed to reconcile '' @ resource @ '': '' @ err_text err\<rparr>\<rparr>" for now
    by (simp add: error_status_def)
  then show ?thesis using reliable_api_server.Reconcile_obstacle [OF assms] by metis
qed

lemma Reconcile_reports_obstacle_witness:
  "\<exists>w'. Reconcile sample_lib (\<lambda>_. rev) sim_kube demo_server_key unready_world = ((requeue_after 30, None), w') \<and>
     map_option (\<lambda>s. st_message (server_status s)) (cl_servers (sim_view w') demo_server_key) =
       Some ''Failed to reconcile GameDefinition: GameDefinition \"valheim\" is not ready: ''"
proof -
  have message: "err_text (not_ready_error sample_lib live_server demo_gameDef) =
      ''GameDefinition \"valheim\" is not ready: ''"
    by (simp add: not_ready_error_def quoted_valheim) (simp add: demo_gameDef_def)
  show ?thesis
    using Reconcile_reports_obstacle [OF sim_reliable, of unready_world demo_server_key live_server sample_lib
        "\<lambda>_. rev" "''GameDefinition''" "not_ready_error sample_lib live_server demo_gameDef" True]
    by (auto simp: unready_obstacle put_server_def message)
qed

text \<open>
  C6. On an API server that answers its calls, the reconciliations that concern the server object
  only: a server that is gone is left alone, a new one is given the finalizer and looked at again at
  once, one that is being deleted loses the finalizer and, with no other finalizer left, is gone.
  Nothing else changes and no error is returned.
\<close>

theorem Reconcile_lifecycle_correct:
  assumes "reliable_api_server K view admit_svc merge_svc admit_pvc acc_server acc_sts acc_svc acc_pvc"
    and "lifecycle (view w) req = Some (res, ox)"
  shows "\<exists>w'. Reconcile L it K req w = ((res, None), w') \<and> view w' = put_server req ox (view w)"
  using assms by (rule reliable_api_server.Reconcile_lifecycle)

lemma Reconcile_lifecycle_correct_witness:
  "\<exists>w'. Reconcile sample_lib (\<lambda>_. rev) sim_kube demo_server_key sample_world = ((requeue_now, None), w') \<and>
     sim_view w' = put_server demo_server_key (Some live_server) (sim_view sample_world)"
  by (rule Reconcile_lifecycle_correct [OF sim_reliable])
    (simp add: lifecycle_def sample_world_view live_server_def demo_server_with_def)

text \<open>
  C13. Two successful reconciliations of a live server past the gate, with nothing changed in between
  and each visiting the maps in an order of its own: the second leaves the claim as it was, the
  Service but for what the API server allocates, and labels and data of the ConfigMap.  It leaves the
  whole StatefulSet as it was if at most one key of the server's configuration names a secret.
\<close>

theorem Reconcile_stable:
  assumes "api_server K view admit_svc merge_svc admit_pvc" and "permuting it" and "permuting it'"
    and "Reconcile L it K req w = ((r1, None), w1)" and "Reconcile L it' K req w1 = ((r2, None), w2)"
    and "cl_servers (view w) req = Some server" and "gate_passed it (view w) server gd"
    and "wf_map (ss_config (server_spec server))"
  shows "children_unchanged server (view w1) (view w2) \<and>
     ((\<forall>p \<in> secret_refs (ss_config (server_spec server)).
        \<forall>q \<in> secret_refs (ss_config (server_spec server)). fst p = fst q) \<longrightarrow>
      cl_statefulsets (view w2) req = cl_statefulsets (view w1) req)"
proof -
  have k: "child_key server = req" using api_server.servers_keyed [OF assms(1,6)] by simp
  from api_server.live_reconciliation [OF assms(1,4,6,7)]
  obtain s1 where s1: "cl_servers (view w1) req = Some s1" "same_server server s1"
    "gate_passed it (view w1) s1 gd" and r1: "children_reconciled L it server gd (view w) (view w1)"
    by blast
  from s1(3) have "gate_passed it' (view w1) s1 gd" using gate_order [OF assms(2,3)] by simp
  from api_server.live_reconciliation [OF assms(1,5) s1(1) this] s1(2)
  have r2: "children_reconciled L it' server gd (view w1) (view w2)"
    by (auto simp: children_reconciled_same)
  have "cl_statefulsets (view w2) req = cl_statefulsets (view w1) req"
    if one: "\<forall>p \<in> secret_refs (ss_config (server_spec server)).
       \<forall>q \<in> secret_refs (ss_config (server_spec server)). fst p = fst q"
    using sts_reconciled_twice [OF r1 r2 Build_one_secret [OF assms(2,3)]] assms(8) one k
    by (force simp: NewStatefulSetBuilder_def)
  with children_reconciled_twice [OF r1 r2] show ?thesis by blast
qed

lemma Reconcile_stable_witness:
  "\<exists>r1 w1 r2 w2. Reconcile sample_lib (\<lambda>_ ks. ks) sim_kube demo_server_key live_world = ((r1, None), w1) \<and>
     Reconcile sample_lib (\<lambda>_. rev) sim_kube demo_server_key w1 = ((r2, None), w2) \<and>
     children_unchanged live_server (sim_view w1) (sim_view w2) \<and>
     cl_statefulsets (sim_view w2) demo_server_key = cl_statefulsets (sim_view w1) demo_server_key"
proof -
  obtain r1 w1 r2 w2 where r: "Reconcile sample_lib (\<lambda>_ ks. ks) sim_kube demo_server_key live_world = ((r1, None), w1)"
    "Reconcile sample_lib (\<lambda>_. rev) sim_kube demo_server_key w1 = ((r2, None), w2)"
    using live_reconciled_twice by blast
  have s: "cl_servers (sim_view live_world) demo_server_key = Some live_server" by simp
  have wf: "wf_map (ss_config (server_spec live_server))" using sample_server_simps(3) by (simp add: wf_server_def)
  have one: "\<forall>p \<in> secret_refs (ss_config (server_spec live_server)).
      \<forall>q \<in> secret_refs (ss_config (server_spec live_server)). fst p = fst q"
    by (simp add: demo_secret_refs)
  from Reconcile_stable [OF sim_api_server permuting_id permuting_rev r s live_gate wf] one r
  show ?thesis by blast
qed

text \<open>
  C12. From creation to running: on an API server that answers its calls and accepts the children, a
  new server with nothing in its way gets the finalizer in the first reconciliation, which asks for
  a second one at once, and all its children in the second, with nothing returned but the request to
  look again while it is not running; its status is then the state the cluster shows.  Each of the
  two visits the maps in an order of its own.
\<close>

theorem new_server_converges:
  assumes "reliable_api_server K view admit_svc merge_svc admit_pvc acc_server acc_sts acc_svc acc_pvc"
    and "cl_servers (view w) req = Some server"
    and "om_deletionTimestamp (server_meta server) = None"
    and "FinalizerName \<notin> set (om_finalizers (server_meta server))"
    and "obstacle L it (view w) server = None"
    and "children_accepted acc_sts acc_svc acc_pvc L it (view w) server (game_of (view w) server)"
  shows "\<exists>w1 res w2 s2. Reconcile L it0 K req w = ((requeue_now, None), w1) \<and>
     Reconcile L it K req w1 = ((res, None), w2) \<and>
     children_reconciled L it server (game_of (view w) server) (view w) (view w2) \<and>
     cl_servers (view w2) req = Some s2 \<and> same_server server s2 \<and>
     FinalizerName \<in> set (om_finalizers (server_meta s2)) \<and>
     st_state (server_status s2) = observed_state (view w2) server \<and>
     res = (if observed_state (view w2) server = ServerStateRunning then no_result else requeue_after 10)"
  using assms by (rule reliable_api_server.fresh_converges)

lemma new_server_converges_witness:
  "\<exists>w1 res w2. Reconcile sample_lib (\<lambda>_ ks. ks) sim_kube demo_server_key fresh_world = ((requeue_now, None), w1) \<and>
     Reconcile sample_lib (\<lambda>_. rev) sim_kube demo_server_key w1 = ((res, None), w2) \<and>
     children_reconciled sample_lib (\<lambda>_. rev) sample_server (game_of (sim_view fresh_world) sample_server)
       (sim_view fresh_world) (sim_view w2)"
  using new_server_converges [OF sim_reliable, of fresh_world demo_server_key sample_server sample_lib "\<lambda>_. rev"]
  unfolding fresh_world_simps(1) by (simp add: sample_fresh) blast

text \<open>
  C14. On an API server that answers its calls, the reconciliation of a live server that has no
  obstacle, whose ConfigMap is missing or free for it to own and whose claim is accepted, but whose
  StatefulSet has another selector, as after a change of the game or of the application id: it
  returns the API server's refusal and leaves the server in the error state, and its StatefulSet and
  its Service as they are.
\<close>

theorem selector_change_stops_server:
  assumes "reliable_api_server K view admit_svc merge_svc admit_pvc acc_server acc_sts acc_svc acc_pvc"
    and "cl_servers (view w) req = Some server"
    and "om_deletionTimestamp (server_meta server) = None"
    and "FinalizerName \<in> set (om_finalizers (server_meta server))"
    and "obstacle L it (view w) server = None"
    and "cm_ownable server (cl_configmaps (view w) (cm_key_of server))"
    and "\<And>d. PVC_Build L (NewPVCBuilder server (game_of (view w) server)) = Some d \<Longrightarrow>
           accepted_pvc acc_pvc d (cl_pvcs (view w) (pvc_key_of server))"
    and "cl_statefulsets (view w) req = Some x"
    and "map_of (sts_selector (sts_spec x)) \<noteq>
           map_of (sts_labels (NewStatefulSetBuilder server (game_of (view w) server)))"
  shows "\<exists>t now w'. Reconcile L it K req w = ((no_result, Some (PlainError t)), w') \<and>
     cl_servers (view w') req = Some (error_status ''StatefulSet'' (PlainError t) now server) \<and>
     cl_statefulsets (view w') = cl_statefulsets (view w) \<and> cl_services (view w') = cl_services (view w)"
  using assms by (rule reliable_api_server.Reconcile_stuck)

lemma selector_change_stops_server_witness:
  "\<exists>t now w'. Reconcile sample_lib (\<lambda>_. rev) sim_kube demo_server_key stuck_world = ((no_result, Some (PlainError t)), w') \<and>
     cl_servers (sim_view w') demo_server_key = Some (error_status ''StatefulSet'' (PlainError t) now live_server) \<and>
     cl_statefulsets (sim_view w') = cl_statefulsets (sim_view stuck_world) \<and>
     cl_services (sim_view w') = cl_services (sim_view stuck_world)"
  by (rule selector_change_stops_server [OF sim_reliable, where x = other_game_sts])
    (simp_all add: obstacle_def ready_gameDef_check accepted_sample stuck_selector)

text \<open>
  C15. When a game definition changes and the servers can be listed, exactly the servers that refer to
  it by name are reconciled again.
\<close>

theorem findSteamServersForGameDef_exact:
  assumes "api_server K view admit_svc merge_svc admit_pvc"
    and "findSteamServersForGameDef K g w = (ks, w')" and "k_server_list K w = (Inr xs, w')"
  shows "set ks = {k. \<exists>s. cl_servers (view w) k = Some s \<and>
                        ss_gameDefinition (server_spec s) = om_name (gamedef_meta g)}"
  using assms by (rule api_server.found_servers)

lemma findSteamServersForGameDef_exact_witness:
  "set (fst (findSteamServersForGameDef sim_kube demo_gameDef live_world)) = {demo_server_key}"
proof -
  have l: "k_server_list sim_kube live_world = (Inr (sim_servers live_world), live_world)"
    using live_world_simps(1) by (simp add: sim_kube_def sim_list_def sim_view_def live_world_def)
  then have "findSteamServersForGameDef sim_kube demo_gameDef live_world =
      (fst (findSteamServersForGameDef sim_kube demo_gameDef live_world), live_world)"
    by (simp add: findSteamServersForGameDef_def)
  from findSteamServersForGameDef_exact [OF sim_api_server this l] show ?thesis
    by (auto simp: demo_gameDef_def split: if_splits)
qed

text \<open>
  C38. A StatefulSet and a Service that are there under the server's name are taken over whoever owns
  them: a successful reconciliation past the gate gives the StatefulSet the spec and labels that were
  built and the Service the type, selector, labels and ports that were built, up to the node ports
  the API server allocates, and leaves the owners of both as they were, so what nobody owned before is
  not deleted with the server.
\<close>

theorem existing_children_taken_over:
  assumes "api_server K view admit_svc merge_svc admit_pvc"
    and "Reconcile L it K req w = ((res, None), w')"
    and "cl_servers (view w) req = Some server" and "gate_passed it (view w) server gd"
    and "cl_statefulsets (view w) req = Some t" and "cl_services (view w) req = Some y"
  shows "\<exists>t' y'. cl_statefulsets (view w') req = Some t' \<and> cl_services (view w') req = Some y' \<and>
     sts_spec t' = sts_spec (StatefulSet_Build L it (NewStatefulSetBuilder server gd)) \<and>
     om_labels (sts_meta t') = om_labels (sts_meta (StatefulSet_Build L it (NewStatefulSetBuilder server gd))) \<and>
     svc_type y' = svc_type (Service_Build (NewServiceBuilder server gd)) \<and>
     svc_selector y' = svc_selector (Service_Build (NewServiceBuilder server gd)) \<and>
     om_labels (svc_meta y') = om_labels (svc_meta (Service_Build (NewServiceBuilder server gd))) \<and>
     map (\<lambda>p. p\<lparr>sp_nodePort := 0\<rparr>) (svc_ports y') =
       map (\<lambda>p. p\<lparr>sp_nodePort := 0\<rparr>) (svc_ports (Service_Build (NewServiceBuilder server gd))) \<and>
     om_owners (sts_meta t') = om_owners (sts_meta t) \<and> om_owners (svc_meta y') = om_owners (svc_meta y)"
proof -
  have k: "child_key server = req" using api_server.servers_keyed [OF assms(1,3)] by simp
  have "children_reconciled L it server gd (view w) (view w')"
    using api_server.live_reconciliation [OF assms(1-4)] by blast
  then obtain t' y' where t': "cl_statefulsets (view w') req = Some t'" "cl_services (view w') req = Some y'"
    and e: "ensured_sts server (StatefulSet_Build L it (NewStatefulSetBuilder server gd)) (Some t) t'"
      "ensured_svc server (Service_Build (NewServiceBuilder server gd)) (Some y) y'"
    using assms(5,6) k by (auto simp: children_reconciled_def)
  have d: "svc_declared y' = svc_declared (Service_Build (NewServiceBuilder server gd)
      \<lparr>svc_meta := (svc_meta y)\<lparr>om_labels := om_labels (svc_meta (Service_Build (NewServiceBuilder server gd)))\<rparr>\<rparr>)"
    using e(2) by (simp add: ensured_svc_def)
  from arg_cong [OF d, of svc_ports] svc_declared_eqD [OF d] e(1) t' show ?thesis
    by (simp add: ensured_sts_def svc_declared_def)
qed

lemma existing_children_taken_over_witness:
  "\<exists>res w' t' y'. Reconcile sample_lib (\<lambda>_ ks. ks) sim_kube demo_server_key foreign_world = ((res, None), w') \<and>
     cl_statefulsets (sim_view w') demo_server_key = Some t' \<and> cl_services (sim_view w') demo_server_key = Some y' \<and>
     om_owners (sts_meta t') = [] \<and> om_owners (svc_meta y') = [] \<and>
     svc_type y' = svc_type (Service_Build (NewServiceBuilder live_server (Some ready_gameDef))) \<and>
     svc_selector y' = svc_selector (Service_Build (NewServiceBuilder live_server (Some ready_gameDef)))"
proof -
  obtain res w' where r: "Reconcile sample_lib (\<lambda>_ ks. ks) sim_kube demo_server_key foreign_world = ((res, None), w')"
    using foreign_reconciled by blast
  have "cl_servers (sim_view foreign_world) demo_server_key = Some live_server" by simp
  from existing_children_taken_over [OF sim_api_server r this foreign_gate foreign_world_simps(3,4)] r
  show ?thesis by auto
qed

end
