(* ===== verification/Run_Properties.thy ===== *)
theory Run_Properties
  imports Cluster_Runs Reconcile_Properties
begin

text \<open>
  What holds in every cluster the operator can get into, and a run that shows what \<open>Ready\<close> does not
  promise.
\<close>

section \<open>A run of the simulated server\<close>

text \<open>
  The demo's game is created and validated, then edited into one with an empty command, which the schema of the
  resource admits and the validation refuses, and before
  that edit is looked at, a server of the game is created and reconciled twice.
\<close>

definition stale_gameDef :: game_definition where
  "stale_gameDef = ready_gameDef\<lparr>gamedef_spec := (gamedef_spec ready_gameDef)\<lparr>gd_command := []\<rparr>\<rparr>"

definition run_world :: "game_definition list \<Rightarrow> steam_server list \<Rightarrow> sim" where
  "run_world gs ss = sample_world\<lparr>sim_servers := ss, sim_gamedefs := gs\<rparr>"

lemma run_world_simps [simp]:
  "cl_servers (sim_view (run_world gs ss)) = sim_find (\<lambda>s. server_key s) ss"
  "cl_gamedefs (sim_view (run_world gs ss)) = sim_find (\<lambda>g. gamedef_key g) gs"
  "cl_statefulsets (sim_view (run_world gs ss)) = Map.empty"
  "cl_services (sim_view (run_world gs ss)) = Map.empty"
  "cl_pvcs (sim_view (run_world gs ss)) = Map.empty"
  "cl_configmaps (sim_view (run_world gs ss)) = Map.empty" "cl_pods (sim_view (run_world gs ss)) = Map.empty"
  by (simp_all add: run_world_def sample_world_def sim_view_def)

lemma run_world_owners [simp]: "child_owners (sim_view (run_world gs ss)) = {}"
  by (simp add: child_owners_def)

lemma run_world_put:
  "gamedef_key g = k \<Longrightarrow> sim_view (run_world [g] ss) = put_gamedef k (Some g) (sim_view (run_world [] ss))"
  "put_gamedef k og (put_gamedef k og' v) = put_gamedef k og v"
  "child_key s = k \<Longrightarrow> sim_view (run_world gs [s]) = put_server k (Some s) (sim_view (run_world gs []))"
  by (simp_all add: run_world_def sample_world_def sim_view_def put_gamedef_def put_server_def sim_find_Cons)

lemma demo_keys [simp]:
  "gamedef_key demo_gameDef = demo_gamedef_key" "gamedef_key ready_gameDef = demo_gamedef_key"
  "gamedef_key stale_gameDef = demo_gamedef_key"
  by (simp_all add: stale_gameDef_def ready_gameDef_def) (simp_all add: demo_gameDef_def)

lemma stale_gameDef_simps:
  "gds_ready (gamedef_status stale_gameDef)" "config_check it s (Some stale_gameDef) = None"
  "\<not> valid_gamedef stale_gameDef"
  by (simp_all add: stale_gameDef_def ready_gameDef_def config_check_def valid_gamedef_def)
    (simp add: demo_gameDef_def)

lemma validated_run:
  "\<exists>w. run sample_lib sim_kube sim_view [w, run_world [demo_gameDef] [], run_world [] []] \<and>
     sim_view w = sim_view (run_world [ready_gameDef] [])"
proof -
  have "run sample_lib sim_kube sim_view [run_world [] []]"
    by (rule run.start) (simp add: initial_cluster_def)
  moreover have "env_step (sim_view (run_world [] [])) (sim_view (run_world [demo_gameDef] []))"
    unfolding run_world_put(1) [OF demo_keys(1)] demo_keys(1) [symmetric]
    by (rule create_gamedef) (simp_all, simp add: demo_gameDef_def unset_gamedef_status_def)
  ultimately have 1: "run sample_lib sim_kube sim_view [run_world [demo_gameDef] [], run_world [] []]"
    by (blast intro: run.step environment)
  obtain w where r: "GameDefinition_Reconcile (\<lambda>_ ks. ks) sim_kube demo_gamedef_key (run_world [demo_gameDef] []) =
      ((no_result, None), w)"
    using sim.gamedef_reconcile_returns by blast
  have "validate (\<lambda>_ ks. ks) demo_gameDef = None"
    by (simp add: validate_None [OF permuting_id] demo_gamedef_valid)
  then have "verdict (\<lambda>_ ks. ks) demo_gameDef = ready_gameDef"
    by (simp add: verdict_def ready_gameDef_def)
  with sim.gamedef_reconciled [OF r, of demo_gameDef]
  have "sim_view w = sim_view (run_world [ready_gameDef] [])"
    by (simp add: sim_find_Cons run_world_put)
  with 1 show ?thesis
    using run.step [OF 1 reconcile_gamedef [OF permuting_id r]] by blast
qed

lemma server_run:
  "\<exists>ws. run sample_lib sim_kube sim_view (run_world [stale_gameDef] [sample_server] # ws)"
proof -
  obtain w where 1: "run sample_lib sim_kube sim_view [w, run_world [demo_gameDef] [], run_world [] []]"
    and w: "sim_view w = sim_view (run_world [ready_gameDef] [])"
    using validated_run by blast
  have "env_step (sim_view w) (put_gamedef demo_gamedef_key (Some stale_gameDef) (sim_view w))"
    unfolding stale_gameDef_def by (rule edit_gamedef) (simp add: w sim_find_Cons)
  also have "put_gamedef demo_gamedef_key (Some stale_gameDef) (sim_view w) =
      sim_view (run_world [stale_gameDef] [])"
    by (simp add: w run_world_put)
  finally have 2: "system_step sample_lib sim_kube sim_view w (run_world [stale_gameDef] [])"
    by (rule environment)
  have "env_step (sim_view (run_world [stale_gameDef] [])) (sim_view (run_world [stale_gameDef] [sample_server]))"
    unfolding run_world_put(3) [OF sample_server_keys(1)] sample_server_keys(1) [symmetric] server_key_child [symmetric]
    by (rule create_server) (simp_all, simp_all add: demo_server_with_def)
  then have "system_step sample_lib sim_kube sim_view (run_world [stale_gameDef] []) (run_world [stale_gameDef] [sample_server])"
    by (rule environment)
  with 1 2 show ?thesis by (blast intro: run.step)
qed

text \<open>The end of the run: the server has its StatefulSet, built from the invalid definition.\<close>

lemma stale_run:
  "\<exists>w ws s t. run sample_lib sim_kube sim_view (w # ws) \<and>
     cl_gamedefs (sim_view w) = [demo_gamedef_key \<mapsto> stale_gameDef] \<and> cl_pods (sim_view w) = Map.empty \<and>
     cl_servers (sim_view w) demo_server_key = Some s \<and> same_server sample_server s \<and>
     st_state (server_status s) = observed_state (sim_view w) sample_server \<and>
     cl_statefulsets (sim_view w) demo_server_key = Some t \<and>
     sole_controller (server_meta sample_server) (sts_meta t) \<and>
     sts_spec t = sts_spec (StatefulSet_Build sample_lib (\<lambda>_ ks. ks)
       (NewStatefulSetBuilder sample_server (Some stale_gameDef)))"
proof -
  let ?w0 = "run_world [stale_gameDef] [sample_server]"
  obtain ws where r0: "run sample_lib sim_kube sim_view (?w0 # ws)" using server_run by blast
  have view: "cl_servers (sim_view ?w0) = [demo_server_key \<mapsto> sample_server]"
    "cl_gamedefs (sim_view ?w0) = [demo_gamedef_key \<mapsto> stale_gameDef]"
    by (simp_all add: sim_find_Cons)
  have game: "game_of (sim_view ?w0) sample_server = Some stale_gameDef"
    by (simp add: game_of_def sim_find_Cons)
  have obst: "obstacle sample_lib (\<lambda>_ ks. ks) (sim_view ?w0) sample_server = None"
    by (simp add: obstacle_def sim_find_Cons stale_gameDef_simps)
  have acc: "children_accepted sim_acc_sts (\<lambda>_ _. True) sim_acc_pvc sample_lib (\<lambda>_ ks. ks) (sim_view ?w0)
      sample_server (game_of (sim_view ?w0) sample_server)"
    by (simp add: children_accepted_def accepted_sample split: option.split)
  obtain w1 res w2 s2 where 1: "Reconcile sample_lib (\<lambda>_ ks. ks) sim_kube demo_server_key ?w0 = ((requeue_now, None), w1)"
    and 2: "Reconcile sample_lib (\<lambda>_ ks. ks) sim_kube demo_server_key w1 = ((res, None), w2)"
    and ch: "children_reconciled sample_lib (\<lambda>_ ks. ks) sample_server (Some stale_gameDef) (sim_view ?w0) (sim_view w2)"
    and s2: "cl_servers (sim_view w2) demo_server_key = Some s2" "same_server sample_server s2"
      "st_state (server_status s2) = observed_state (sim_view w2) sample_server"
    using sim.fresh_converges [of ?w0 demo_server_key sample_server sample_lib "\<lambda>_ ks. ks" "\<lambda>_ ks. ks"] obst acc
    unfolding view game by auto
  have "run sample_lib sim_kube sim_view (w2 # w1 # ?w0 # ws)"
    by (intro run.step [OF _ reconcile_server [OF permuting_id 2]] run.step [OF r0 reconcile_server [OF permuting_id 1]])
  moreover have "cl_gamedefs (sim_view w2) = [demo_gamedef_key \<mapsto> stale_gameDef]"
    "cl_pods (sim_view w2) = Map.empty"
    using sim.Reconcile_own [OF 1] sim.Reconcile_own [OF 2] view by (simp_all add: only_own_def)
  moreover obtain t where "cl_statefulsets (sim_view w2) demo_server_key = Some t"
    "ensured_sts sample_server (StatefulSet_Build sample_lib (\<lambda>_ ks. ks)
       (NewStatefulSetBuilder sample_server (Some stale_gameDef))) None t"
    using ch by (auto simp: children_reconciled_def)
  ultimately show ?thesis
    using s2 by (fastforce simp: ensured_sts_def admit_sts_def)
qed

section \<open>Properties\<close>

text \<open>
  C8. Whatever the order of the reconciliations, the failing calls and the changes others make to the
  cluster: a server that owns a child and is not being deleted has the finalizer.
\<close>

theorem owner_has_finalizer:
  assumes "api_server K view admit_svc merge_svc admit_pvc" and "run L K view (w # ws)"
    and "cl_servers (view w) k = Some server" and "om_deletionTimestamp (server_meta server) = None"
    and "om_uid (server_meta server) \<in> child_owners (view w)"
  shows "FinalizerName \<in> set (om_finalizers (server_meta server))"
  using protected.run_kept [OF assms(1,2)] assms(3-5) by (simp add: owners_protected_def)

lemma owner_has_finalizer_witness:
  "\<exists>w ws s. run sample_lib sim_kube sim_view (w # ws) \<and> cl_servers (sim_view w) demo_server_key = Some s \<and>
     FinalizerName \<in> set (om_finalizers (server_meta s))"
proof -
  obtain w ws s t where r: "run sample_lib sim_kube sim_view (w # ws)"
    and s: "cl_servers (sim_view w) demo_server_key = Some s" "same_server sample_server s"
    and t: "cl_statefulsets (sim_view w) demo_server_key = Some t"
      "sole_controller (server_meta sample_server) (sts_meta t)"
    using stale_run by blast
  have "om_uid (server_meta s) \<in> child_owners (sim_view w)"
    using child_owners_there(1) [OF t(1)] t(2) same_server_simps [OF s(2)]
    by (simp add: sole_controller_def)
  moreover have "om_deletionTimestamp (server_meta s) = None"
    using same_server_simps [OF s(2)] by simp
  ultimately show ?thesis using owner_has_finalizer [OF sim_api_server r s(1)] r s(1) by blast
qed

text \<open>
  C7. Every StatefulSet in the cluster that is owned by a controller runs what the builder made for a
  server that was in the cluster under its name at some point of the run, that had the finalizer and was
  not being deleted, and whose game, if it named one, was ready and accepted its configuration.
\<close>

theorem deployed_was_admitted:
  assumes "api_server K view admit_svc merge_svc admit_pvc" and "run L K view (w # ws)"
    and "cl_statefulsets (view w) k = Some t" and "controllers (sts_meta t) \<noteq> {}"
  shows "\<exists>w0\<in>set (w # ws). \<exists>server gd it. permuting it \<and> cl_servers (view w0) k = Some server \<and>
     gate_passed it (view w0) server gd \<and>
     sts_spec t = sts_spec (StatefulSet_Build L it (NewStatefulSetBuilder server gd))"
proof -
  have "admitted_before L (view ` set (w # ws)) k t"
    using deployed.run_kept [OF assms(1,2)] assms(3,4) unfolding deployed_admitted_def list.sel by blast
  then show ?thesis unfolding admitted_before_def bex_simps(7) .
qed

lemma deployed_was_admitted_witness:
  "\<exists>w ws. run sample_lib sim_kube sim_view (w # ws) \<and>
     (\<exists>w0\<in>set (w # ws). \<exists>server gd it. cl_servers (sim_view w0) demo_server_key = Some server \<and>
        gate_passed it (sim_view w0) server gd)"
proof -
  obtain w ws t where r: "run sample_lib sim_kube sim_view (w # ws)"
    and t: "cl_statefulsets (sim_view w) demo_server_key = Some t"
      "sole_controller (server_meta sample_server) (sts_meta t)"
    using stale_run by blast
  then have "controllers (sts_meta t) \<noteq> {}" by (simp add: sole_controller_def)
  from deployed_was_admitted [OF sim_api_server r t(1) this] r show ?thesis by blast
qed

text \<open>
  C9. A game definition that is ready carries the success message, and a definition of that name that
  passes the validation was in the cluster at some point of the run.
\<close>

theorem ready_was_valid:
  assumes "api_server K view admit_svc merge_svc admit_pvc" and "run L K view (w # ws)"
    and "cl_gamedefs (view w) k = Some g" and "gds_ready (gamedef_status g)"
  shows "gds_message (gamedef_status g) = validated_message \<and>
     (\<exists>w0\<in>set (w # ws). \<exists>g0. cl_gamedefs (view w0) k = Some g0 \<and> valid_gamedef g0)"
proof -
  have "ready_validated (view ` set (w # ws)) (view w)"
    using readiness.run_kept [OF assms(1,2)] unfolding list.sel .
  with assms(3,4) show ?thesis unfolding ready_validated_def bex_simps(7) by blast
qed

lemma ready_was_valid_witness:
  "\<exists>w ws. run sample_lib sim_kube sim_view (w # ws) \<and>
     (\<exists>w0\<in>set (w # ws). \<exists>g0. cl_gamedefs (sim_view w0) demo_gamedef_key = Some g0 \<and> valid_gamedef g0)"
proof -
  obtain w ws where r: "run sample_lib sim_kube sim_view (w # ws)"
    and g: "cl_gamedefs (sim_view w) demo_gamedef_key = Some stale_gameDef"
    using stale_run by fastforce
  from ready_was_valid [OF sim_api_server r g stale_gameDef_simps(1)] r show ?thesis by blast
qed

text \<open>
  C10. But a game definition that is ready need not be valid: an edit leaves the verdict of the last
  validation in place, and a server that is reconciled before the definition is gets its StatefulSet
  from the invalid definition.
\<close>

theorem ready_may_be_stale:
  "\<exists>w ws g s t. run sample_lib sim_kube sim_view (w # ws) \<and>
     cl_gamedefs (sim_view w) (ObjectKey [] (ss_gameDefinition (server_spec s))) = Some g \<and>
     gds_ready (gamedef_status g) \<and> \<not> valid_gamedef g \<and>
     cl_servers (sim_view w) (child_key s) = Some s \<and> st_state (server_status s) \<noteq> ServerStateError \<and>
     cl_statefulsets (sim_view w) (child_key s) = Some t \<and> controlled_by (server_meta s) (sts_meta t) \<and>
     sts_spec t = sts_spec (StatefulSet_Build sample_lib (\<lambda>_ ks. ks) (NewStatefulSetBuilder s (Some g)))"
proof -
  obtain w ws s t where r: "run sample_lib sim_kube sim_view (w # ws)"
    and v: "cl_gamedefs (sim_view w) = [demo_gamedef_key \<mapsto> stale_gameDef]" "cl_pods (sim_view w) = Map.empty"
    and s: "cl_servers (sim_view w) demo_server_key = Some s" "same_server sample_server s"
      "st_state (server_status s) = observed_state (sim_view w) sample_server"
    and t: "cl_statefulsets (sim_view w) demo_server_key = Some t"
      "sole_controller (server_meta sample_server) (sts_meta t)"
      "sts_spec t = sts_spec (StatefulSet_Build sample_lib (\<lambda>_ ks. ks)
         (NewStatefulSetBuilder sample_server (Some stale_gameDef)))"
    using stale_run by blast
  note same = same_server_simps [OF s(2)] same_server_builds(1) [OF s(2)]
  have "st_state (server_status s) \<noteq> ServerStateError"
    using s(3) t(1) v(2) by (simp add: observed_state_def)
  moreover have "controlled_by (server_meta s) (sts_meta t)"
    using t(2) same by (simp add: sole_controller_def controlled_by_iff)
  ultimately show ?thesis
    using r v s t same stale_gameDef_simps
    by (intro exI [of _ w] exI [of _ ws] exI [of _ stale_gameDef] exI [of _ s] exI [of _ t]) simp
qed

text \<open>
  C11. The status of every server is the one it was created with or one the controller reported: a state
  with its message, or the error state with a message that starts with the text of a failure, and the
  time of the report.
\<close>

theorem status_coherent:
  assumes "api_server K view admit_svc merge_svc admit_pvc" and "run L K view (w # ws)"
    and "cl_servers (view w) k = Some server"
  shows "server_status server = unset_status \<or> reported (server_status server)"
  using statuses.run_kept [OF assms(1,2)] assms(3) by (simp add: statuses_reported_def)

lemma status_coherent_witness:
  "\<exists>w ws s. run sample_lib sim_kube sim_view (w # ws) \<and> cl_servers (sim_view w) demo_server_key = Some s \<and>
     (server_status s = unset_status \<or> reported (server_status s))"
proof -
  obtain w ws s where r: "run sample_lib sim_kube sim_view (w # ws)"
    and s: "cl_servers (sim_view w) demo_server_key = Some s"
    using stale_run by blast
  from status_coherent [OF sim_api_server r s] r s show ?thesis by blast
qed

text \<open>
  C39. The ports of a server that takes them from a definition \<open>validate\<close> accepts: there is at least one,
  every container port and every target port of the Service has a name and lies between 1 and 65535,
  and so does the port of the Service where the definition sets none of its own.
\<close>

theorem validated_ports_in_range:
  assumes "permuting it" and "validate it g = None" and "ss_ports (server_spec s) = []"
  shows "buildContainerPorts (NewStatefulSetBuilder s (Some g)) \<noteq> [] \<and>
     list_all (\<lambda>p. cp_name p \<noteq> [] \<and> 1 \<le> sint (cp_containerPort p) \<and> sint (cp_containerPort p) \<le> 65535)
       (buildContainerPorts (NewStatefulSetBuilder s (Some g))) \<and>
     list_all (\<lambda>p. sp_name p \<noteq> [] \<and> 1 \<le> sint (sp_targetPort p) \<and> sint (sp_targetPort p) \<le> 65535 \<and>
         (sp_port p \<noteq> sp_targetPort p \<longrightarrow> sp_port p \<in> port_servicePort ` set (gd_ports (gamedef_spec g))))
       (svc_ports (Service_Build (NewServiceBuilder s (Some g))))"
proof -
  have "gd_ports (gamedef_spec g) \<noteq> []" "\<forall>p\<in>set (gd_ports (gamedef_spec g)). valid_port p"
    using assms(2) validate_None [OF assms(1), of g] by (simp_all add: valid_gamedef_def list_all_iff)
  moreover have "getPorts (NewStatefulSetBuilder s (Some g)) = gd_ports (gamedef_spec g)"
    "svc_getPorts (NewServiceBuilder s (Some g)) = gd_ports (gamedef_spec g)"
    using assms(3)
    by (simp_all add: getPorts_def svc_getPorts_def NewStatefulSetBuilder_def NewServiceBuilder_def)
  ultimately show ?thesis
    by (simp add: buildContainerPorts_def buildServicePorts_def Service_Build_def list_all_iff valid_port_def
        container_port_of_def service_port_of_def Let_def)
qed

lemma validated_ports_in_range_witness:
  "buildContainerPorts (NewStatefulSetBuilder sample_server (Some demo_gameDef)) \<noteq> []"
proof -
  have "validate (\<lambda>_ ks. ks) demo_gameDef = None"
    by (simp add: validate_None [OF permuting_id] demo_gamedef_valid)
  from validated_ports_in_range [OF permuting_id this, of sample_server] show ?thesis
    by (simp add: demo_server_with_def)
qed

end
