(* ===== verification/Spec2Isabelle.thy ===== *)
theory Spec2Isabelle
  imports Config_Value_Json Deep_Copy_Properties Demo_Manifests Operator_Main Run_Properties
begin

text \<open>
  \<^bold>\<open>A verification development for \<^verbatim>\<open>boilerr\<close>\<close>, a Kubernetes operator for Steam game servers written in
  Go.  A user states in a \<^verbatim>\<open>SteamServer\<close> which game to run, how it is configured and how much storage
  it gets; a \<^verbatim>\<open>GameDefinition\<close> says how a game is installed and started.  The operator turns a server
  and the definition of its game into a ConfigMap, a PersistentVolumeClaim, a StatefulSet and a
  Service, and reports in the server's status what becomes of them.

  \<^bold>\<open>The program and its model.\<close>  The paths are relative to the repository's root.

  \<^item> \<^theory_text>\<open>Boilerr_Prelude\<close>: what Go gives all parts: strings as byte lists, \<^verbatim>\<open>int32\<close> as 32-bit words,
    decimal rendering, maps as association lists whose iteration order is a parameter (\<open>range_order\<close>,
    any function that permutes the keys), errors, loops that stop at the first error.
  \<^item> \<^theory_text>\<open>Go_Template\<close>, \<^theory_text>\<open>Kube_Types\<close>: the part of \<^verbatim>\<open>text/template\<close> and the Kubernetes structs the program
    uses; \<open>golib\<close> collects the library functions that stay parameters.
  \<^item> \<^theory_text>\<open>Api_Types\<close>, \<^theory_text>\<open>Config_Value_Json\<close>: \<^verbatim>\<open>api/v1alpha1\<close>, one record per struct, and the JSON decoder of
    configuration values, with the encoder's treatment of bytes that are not UTF-8.  \<^theory_text>\<open>Demo_Input\<close> holds the two objects of \<^verbatim>\<open>demo_manifest_generation.go\<close>, which
    are also the sample input of many witnesses, and \<^theory_text>\<open>Demo_Manifests\<close> the program itself.
  \<^item> \<^theory_text>\<open>Go_Heap\<close>, \<^theory_text>\<open>Go_Copy\<close>, \<^theory_text>\<open>Api_Memory\<close>, \<^theory_text>\<open>Deep_Copy\<close>: \<^verbatim>\<open>api/v1alpha1/zz_generated.deepcopy.go\<close> over a store of
    cells, with slices, pointers and maps as references to them and the API structs as they lie in
    memory.
  \<^item> \<^theory_text>\<open>Interpolate\<close>: \<^verbatim>\<open>internal/config/interpolate.go\<close>: template arguments, resolution of configuration
    values with defaults and secrets, validation against the game's schema, merging of environments.
  \<^item> \<^theory_text>\<open>SteamCmd\<close>: \<^verbatim>\<open>internal/steamcmd/command.go\<close>, the arguments of SteamCMD, with a reader of them as
    the specification.
  \<^item> \<^theory_text>\<open>StatefulSet_Builder\<close>, \<^theory_text>\<open>Service_Builder\<close>, \<^theory_text>\<open>Pvc_Builder\<close>: the files of \<^verbatim>\<open>internal/resources\<close>.  Each builder
    is a record of its two inputs and its methods are functions of it.
  \<^item> \<^theory_text>\<open>Kube_Client\<close>: the client interface of the controllers, a record \<open>kube\<close> of calls over an unspecified
    world.  Every call returns its result and the new world, so the controllers are state transformers
    and the order of their calls is the order of the code.
  \<^item> \<^theory_text>\<open>SteamServer_Status\<close>, \<^theory_text>\<open>SteamServer_Children\<close>, \<^theory_text>\<open>SteamServer_Controller\<close>:
    \<^verbatim>\<open>internal/controller/steamserver_controller.go\<close>, from the functions that read the state of a server off
    its pods over the four child reconcilers up to \<open>Reconcile\<close> and \<open>findSteamServersForGameDef\<close>.
  \<^item> \<^theory_text>\<open>GameDefinition_Controller\<close>: \<^verbatim>\<open>internal/controller/gamedefinition_controller.go\<close>.
  \<^item> \<^theory_text>\<open>Operator_Flags\<close>, \<^theory_text>\<open>Operator_Main\<close>: \<^verbatim>\<open>cmd/main.go\<close>, the command line and the sequence of startup calls, and
    \<open>SetupWithManager\<close> of both reconcilers.

  \<^bold>\<open>Contracts.\<close>  What the controllers expect of Kubernetes is stated as locales over a view of the
  cluster (\<open>cluster\<close>, one finite map per kind of object).  \<open>kind_store\<close> says what a call on objects of
  one kind does if it succeeds, and that it does nothing if it fails; \<open>object_store\<close> adds that calls
  succeed unless the API server has a reason to refuse, \<open>controller_references\<close> is
  \<^verbatim>\<open>controllerutil.SetControllerReference\<close>.  \<open>api_server\<close> puts the kinds together and lets any call fail;
  \<open>reliable_api_server\<close> lets calls fail only for a documented reason, among them the immutable fields
  of a StatefulSet.  What the server makes of a new Service or claim (addresses, node ports, a default
  storage class, finalizers of its own) is a parameter of both.  Safety is proved in the first, progress in the second.  \<^theory_text>\<open>Kube_Sim\<close> is an executable
  API server that meets both, and every witness about the cluster runs on it.  Inside the program,
  \<open>memory\<close> and \<open>deep_copy\<close> say what copying a struct promises, \<open>cells\<close>, \<open>stored\<close> and \<open>stored_map\<close> derive it for
  pointers, slices and maps of such structs, and \<open>library_copies\<close> asks it of the Kubernetes structs;
  \<open>child_labels\<close> is what the label functions of the three builders promise and \<open>override_list\<close> what
  \<open>MergeEnvVars\<close> promises of a list in which later entries win.

  \<^bold>\<open>What is proved.\<close>
  \<^item> One reconciliation (\<^theory_text>\<open>Reconcile_Progress\<close>, \<^theory_text>\<open>Reconcile_Properties\<close>).  The specification is declarative:
    \<open>gate_passed\<close> and \<open>obstacle\<close> say when a server may be deployed, \<open>children_reconciled\<close> what the
    children then look like, \<open>observed_state\<close> and \<open>reported\<close> what the status says.  \<open>Reconcile\<close> refines
    it: it converges without an obstacle, reports the obstacle otherwise, touches nothing it does not
    own, adds and removes only its finalizer, and leaves the children alone the second time.  Go orders
    map iterations anew in each run, so properties of two runs take two orders: with two or more
    secrets the StatefulSet may change the second time, and with two unknown mapping types the message
    of a game definition may.
  \<^item> All reconciliations (\<^theory_text>\<open>Cluster_Runs\<close>, \<^theory_text>\<open>Run_Properties\<close>).  A run interleaves reconciliations of servers
    and game definitions with an environment (\<open>env_step\<close>) that creates, edits, deletes and reports.
    The locale \<open>cluster_invariant\<close> reduces an invariant of runs to the writes of the reconcilers; its
    four interpretations show that what is deployed was admitted, that owners have the finalizer, that
    a ready game was valid and that a status is coherent.  A concrete run shows that readiness can
    outlive the definition it was computed for.
  \<^item> Copies (\<^theory_text>\<open>Deep_Copy_Laws\<close>, \<^theory_text>\<open>Deep_Copy_Properties\<close>).  Each struct in memory has a value, its record in
    \<^theory_text>\<open>Api_Types\<close>, and the set of cells it is spread over.  \<open>DeepCopy\<close> of every type returns a new object with
    the value of the old one and no cell in common, so writes to one never show in the other.  The
    client hands out such copies of the objects in its cache; this is why the other theories may
    pass objects as values although the Go code writes into them.
  \<^item> The functions below: functional correctness of validation, resolution, merging, interpolation and
    the builders, on every branch; round trips of the JSON decoder, of SteamCMD's arguments and of the
    flag parser; where the code depends on map order or shell expansion, theorems that say so.

  \<^bold>\<open>Bounds and termination.\<close>  No definition uses fuel: loops over lists are structural recursions, and
  the template parser terminates because every step consumes input.  Port numbers are 32-bit words
  read as signed integers, as in the code.

  \<^bold>\<open>Assumptions.\<close>  Reads return the current object: a stale informer cache or a lost race on
  \<^verbatim>\<open>resourceVersion\<close> appears only as a failing call, and a failing call has no effect: a write that is
  applied although its answer is lost is left out.  The environment acts between reconciliations, not
  between two calls of one.  Logging has no effect.

  \<^bold>\<open>Not modelled.\<close>  \<^verbatim>\<open>groupversion_info.go\<close> registers the types with a library scheme.  Validation and defaults of the
  kubebuilder markers are enforced by the API server from the generated resource definitions.  The
  libraries themselves (controller-runtime, client-go, the JSON and YAML codecs, zap) are parameters.
  Tests, charts and the game definitions under \<^verbatim>\<open>gamedefinitions/\<close> are not code of the operator.
\<close>

end
